(* ===== verification/AeonPrelude.thy ===== *)
theory AeonPrelude
  imports Main "HOL-Library.Word" "HOL-Library.AList" "HOL-Library.Char_ord"
    "HOL-Library.List_Lexorder" "HOL-Library.Multiset"
begin

text \<open>
  Shared material of the development: the plumbing of fallible code (the question-mark operator,
  collecting an iterator of results, early return from a loop), the two dictionary types of the
  Rust standard library (hash maps as association lists in an unspecified iteration order, ordered
  maps as key-sorted association lists), the de-duplication of sorted vectors, the decoding of
  UTF-8 text, and the lemma collections the component theories simplify with.
\<close>

section \<open>Lemma collections and type names\<close>

named_theorems result_simps \<open>inversion of fallible computations that returned a value\<close>
named_theorems frame_simps \<open>what an operation leaves unchanged\<close>

type_synonym byte = "8 word"
type_synonym u8 = "8 word"
type_synonym u32 = "32 word"
type_synonym u64 = "64 word"
type_synonym timestamp = int

section \<open>Fallible computations\<close>

definition bindE :: "'e + 'a \<Rightarrow> ('a \<Rightarrow> 'e + 'b) \<Rightarrow> 'e + 'b" where
  "bindE m f = (case m of Inl e \<Rightarrow> Inl e | Inr x \<Rightarrow> f x)"

lemma bindE_Inl [simp]: "bindE (Inl e) f = Inl e"
  and bindE_Inr [simp]: "bindE (Inr x) f = f x"
  by (simp_all add: bindE_def)

lemma bindE_cong [fundef_cong]:
  assumes "m = m'" and "\<And>x. m' = Inr x \<Longrightarrow> f x = g x"
  shows "bindE m f = bindE m' g"
  using assms by (cases m') auto

lemma bindE_eq_Inr [result_simps]: "bindE m f = Inr y \<longleftrightarrow> (\<exists>x. m = Inr x \<and> f x = Inr y)"
  by (cases m) auto

lemma bindE_assoc: "bindE (bindE m f) g = bindE m (\<lambda>x. bindE (f x) g)"
  by (cases m) auto

lemma if_Inl_eq_Inr [result_simps]:
  "(if b then Inl e else k) = Inr y \<longleftrightarrow> \<not> b \<and> k = Inr y"
  by simp

text \<open>\<open>opt_or e\<close> is \<open>Option::ok_or_else\<close>; \<open>map_err\<close> is \<open>Result::map_err\<close>.\<close>

definition opt_or :: "'e \<Rightarrow> 'a option \<Rightarrow> 'e + 'a" where
  "opt_or e m = (case m of None \<Rightarrow> Inl e | Some x \<Rightarrow> Inr x)"

lemma opt_or_simps [simp]: "opt_or e None = Inl e" "opt_or e (Some x) = Inr x"
  by (simp_all add: opt_or_def)

lemma opt_or_eq_Inr [result_simps]: "opt_or e m = Inr x \<longleftrightarrow> m = Some x"
  by (cases m) auto

definition map_err :: "('e \<Rightarrow> 'f) \<Rightarrow> 'e + 'a \<Rightarrow> 'f + 'a" where
  "map_err h m = (case m of Inl e \<Rightarrow> Inl (h e) | Inr x \<Rightarrow> Inr x)"

lemma map_err_simps [simp]: "map_err h (Inl e) = Inl (h e)" "map_err h (Inr x) = Inr x"
  by (simp_all add: map_err_def)

lemma map_err_eq_Inr [result_simps]: "map_err h m = Inr x \<longleftrightarrow> m = Inr x"
  by (cases m) auto

text \<open>\<open>mapE\<close> collects an iterator of results, stopping at the first error.\<close>

fun mapE :: "('a \<Rightarrow> 'e + 'b) \<Rightarrow> 'a list \<Rightarrow> 'e + 'b list" where
  "mapE f [] = Inr []"
| "mapE f (x # xs) = bindE (f x) (\<lambda>y. bindE (mapE f xs) (\<lambda>ys. Inr (y # ys)))"

lemma mapE_cong [fundef_cong]:
  assumes "xs = ys" and "\<And>x. x \<in> set ys \<Longrightarrow> f x = g x"
  shows "mapE f xs = mapE g ys"
  using assms(2) unfolding assms(1) by (induction ys) auto

lemma mapE_eq_Inr: "mapE f xs = Inr ys \<longleftrightarrow> list_all2 (\<lambda>x y. f x = Inr y) xs ys"
proof (induction xs arbitrary: ys)
  case Nil
  then show ?case by auto
next
  case (Cons x xs)
  then show ?case by (cases ys) (auto simp: bindE_eq_Inr)
qed

lemma mapE_length: "mapE f xs = Inr ys \<Longrightarrow> length ys = length xs"
  by (simp add: mapE_eq_Inr list_all2_lengthD)

lemma mapE_total: "(\<And>x. x \<in> set xs \<Longrightarrow> f x = Inr (g x)) \<Longrightarrow> mapE f xs = Inr (map g xs)"
  by (induction xs) auto

lemma mapE_append:
  "mapE f (xs @ ys) = bindE (mapE f xs) (\<lambda>as. bindE (mapE f ys) (\<lambda>bs. Inr (as @ bs)))"
  by (induction xs) (auto simp: bindE_def split: sum.splits)

lemma mapE_Inr_map:
  "mapE f xs = Inr ys \<Longrightarrow> (\<And>x y. x \<in> set xs \<Longrightarrow> f x = Inr y \<Longrightarrow> h y = g x) \<Longrightarrow> map h ys = map g xs"
proof (induction xs arbitrary: ys)
  case Nil
  then show ?case by simp
next
  case (Cons x xs)
  from Cons.prems(1) obtain z zs where "ys = z # zs" "f x = Inr z" "mapE f xs = Inr zs"
    by (auto simp: bindE_eq_Inr)
  with Cons show ?case by simp
qed

text \<open>\<open>allE_loop\<close> is a loop whose body may return early with an error and has no other effect.\<close>

fun allE_loop :: "('a \<Rightarrow> 'e + unit) \<Rightarrow> 'a list \<Rightarrow> 'e + unit" where
  "allE_loop f [] = Inr ()"
| "allE_loop f (x # xs) = bindE (f x) (\<lambda>_. allE_loop f xs)"

lemma allE_loop_cong [fundef_cong]:
  assumes "xs = ys" and "\<And>x. x \<in> set ys \<Longrightarrow> f x = g x"
  shows "allE_loop f xs = allE_loop g ys"
  using assms(2) unfolding assms(1) by (induction ys) auto

lemma allE_loop_ok [result_simps]: "allE_loop f xs = Inr u \<longleftrightarrow> (\<forall>x \<in> set xs. f x = Inr ())"
  by (induction xs) (auto simp: bindE_eq_Inr)

section \<open>Fallible stateful computations\<close>

text \<open>
  A method behind a lock reads and updates shared state and may return early. Rust does not roll the
  state back on an early return, so the state is part of the answer in both cases.
\<close>

type_synonym ('s, 'e, 'a) exec = "'s \<Rightarrow> ('e + 'a) \<times> 's"

definition bindS :: "('s, 'e, 'a) exec \<Rightarrow> ('a \<Rightarrow> ('s, 'e, 'b) exec) \<Rightarrow> ('s, 'e, 'b) exec" where
  "bindS m f s = (case m s of (Inl e, s') \<Rightarrow> (Inl e, s') | (Inr x, s') \<Rightarrow> f x s')"

definition liftS :: "'e + 'a \<Rightarrow> ('s, 'e, 'a) exec" where
  "liftS r s = (r, s)"

text \<open>A method that mutates nothing until all its checks have passed.\<close>

definition atomicS :: "('s \<Rightarrow> 'e + 'a \<times> 's) \<Rightarrow> ('s, 'e, 'a) exec" where
  "atomicS f s = (case f s of Inl e \<Rightarrow> (Inl e, s) | Inr (x, s') \<Rightarrow> (Inr x, s'))"

lemma atomicS_eq_Inr [result_simps]: "atomicS f s = (Inr x, t) \<longleftrightarrow> f s = Inr (x, t)"
  by (auto simp: atomicS_def split: sum.splits prod.splits)

lemma atomicS_Inl: "atomicS f s = (Inl e, t) \<longleftrightarrow> f s = Inl e \<and> t = s"
  by (auto simp: atomicS_def split: sum.splits prod.splits)

lemma bindS_Inl: "m s = (Inl e, s') \<Longrightarrow> bindS m f s = (Inl e, s')"
  and bindS_Inr: "m s = (Inr x, s') \<Longrightarrow> bindS m f s = f x s'"
  by (simp_all add: bindS_def)

lemma bindS_eq_Inr [result_simps]:
  "bindS m f s = (Inr y, t) \<longleftrightarrow> (\<exists>x s'. m s = (Inr x, s') \<and> f x s' = (Inr y, t))"
  by (auto simp: bindS_def split: prod.splits sum.splits)

lemma liftS_eq [result_simps]: "liftS r s = (q, t) \<longleftrightarrow> q = r \<and> t = s"
  by (auto simp: liftS_def)

section \<open>Vectors: pairwise scans and de-duplication\<close>

text \<open>
  The loop that compares every element with the slice before it stops at the first element that
  already occurred: it accepts exactly the lists without repetition.
\<close>

fun first_repeat :: "'a list \<Rightarrow> 'a list \<Rightarrow> 'a option" where
  "first_repeat seen [] = None"
| "first_repeat seen (x # xs) = (if x \<in> set seen then Some x else first_repeat (seen @ [x]) xs)"

lemma first_repeat_None_iff:
  "first_repeat seen xs = None \<longleftrightarrow> distinct xs \<and> set seen \<inter> set xs = {}"
  by (induction xs arbitrary: seen) auto

lemma first_repeat_distinct [simp]: "first_repeat [] xs = None \<longleftrightarrow> distinct xs"
  by (simp add: first_repeat_None_iff)

text \<open>\<open>Vec::dedup_by_key\<close> drops every element whose key equals that of its predecessor.\<close>

fun dedup_by :: "('a \<Rightarrow> 'k) \<Rightarrow> 'a list \<Rightarrow> 'a list" where
  "dedup_by k [] = []"
| "dedup_by k [x] = [x]"
| "dedup_by k (x # y # zs) = (if k x = k y then dedup_by k (x # zs) else x # dedup_by k (y # zs))"

lemma dedup_by_subset: "set (dedup_by k xs) \<subseteq> set xs"
  by (induction k xs rule: dedup_by.induct) auto

lemma dedup_by_keys: "k ` set (dedup_by k xs) = k ` set xs"
  by (induction k xs rule: dedup_by.induct) (auto 4 3)

lemma dedup_by_hd: "xs \<noteq> [] \<Longrightarrow> \<exists>ys. dedup_by k xs = hd xs # ys"
  by (induction k xs rule: dedup_by.induct) auto

lemma dedup_by_strict:
  fixes k :: "'a \<Rightarrow> 'k::linorder"
  shows "sorted (map k xs) \<Longrightarrow> sorted_wrt (<) (map k (dedup_by k xs))"
proof (induction k xs rule: dedup_by.induct)
  case (3 k x y zs)
  show ?case
  proof (cases "k x = k y")
    case True
    with 3 show ?thesis by auto
  next
    case False
    have keys: "k ` set (dedup_by k (y # zs)) = k ` set (y # zs)"
      by (rule dedup_by_keys)
    from 3(3) have "\<forall>z \<in> set (y # zs). k y \<le> k z" and "k x \<le> k y" by auto
    with False have "\<forall>v \<in> k ` set (y # zs). k x < v" by auto
    then have "\<forall>z \<in> set (dedup_by k (y # zs)). k x < k z"
      using keys by (metis imageI)
    moreover have "sorted_wrt (<) (map k (dedup_by k (y # zs)))"
      using 3 False by simp
    ultimately show ?thesis using False by simp
  qed
qed auto

lemma dedup_by_id_on_distinct: "distinct (map k xs) \<Longrightarrow> dedup_by k xs = xs"
  by (induction k xs rule: dedup_by.induct) auto

lemma strict_sorted_distinct: "sorted_wrt (<) (xs :: 'a::linorder list) \<Longrightarrow> distinct xs"
  by (simp add: strict_sorted_iff)

text \<open>\<open>sort_unstable\<close> followed by \<open>dedup\<close>: the canonical list of a set.\<close>

definition sort_dedup :: "'a::linorder list \<Rightarrow> 'a list" where
  "sort_dedup xs = dedup_by id (sort xs)"

lemma sort_dedup_strict: "sorted_wrt (<) (sort_dedup xs)"
  using dedup_by_strict [of id "sort xs"] by (simp add: sort_dedup_def)

lemma set_sort_dedup [simp]: "set (sort_dedup xs) = set xs"
  using dedup_by_keys [of id "sort xs"] by (simp add: sort_dedup_def)

lemma sort_dedup_canonical: "sort_dedup xs = sort_dedup ys \<longleftrightarrow> set xs = set ys"
proof
  assume "sort_dedup xs = sort_dedup ys"
  then have "set (sort_dedup xs) = set (sort_dedup ys)" by simp
  then show "set xs = set ys" by simp
next
  assume "set xs = set ys"
  then have "set (sort_dedup xs) = set (sort_dedup ys)" by simp
  then show "sort_dedup xs = sort_dedup ys"
    using sort_dedup_strict [of xs] sort_dedup_strict [of ys]
    by (simp add: strict_sorted_iff sorted_distinct_set_unique)
qed

lemma sort_dedup_idem: "sort_dedup (sort_dedup xs) = sort_dedup xs"
  by (simp add: sort_dedup_canonical)

section \<open>Dictionaries\<close>

text \<open>
  The laws a client of a dictionary relies on, whatever its representation: a representation
  invariant every insertion keeps, and what a lookup returns after one.
\<close>

locale dictionary =
  fixes dict_lookup :: "'m \<Rightarrow> 'k \<Rightarrow> 'v option"
    and dict_insert :: "'k \<Rightarrow> 'v \<Rightarrow> 'm \<Rightarrow> 'm"
    and dict_entries :: "'m \<Rightarrow> ('k \<times> 'v) list"
    and dict_ok :: "'m \<Rightarrow> bool"
  assumes lookup_insert: "dict_ok m \<Longrightarrow> dict_lookup (dict_insert k v m) = (dict_lookup m)(k \<mapsto> v)"
    and ok_insert: "dict_ok m \<Longrightarrow> dict_ok (dict_insert k v m)"
    and entries_lookup: "dict_ok m \<Longrightarrow> (k, v) \<in> set (dict_entries m) \<longleftrightarrow> dict_lookup m k = Some v"
    and entries_distinct: "dict_ok m \<Longrightarrow> distinct (map fst (dict_entries m))"
begin

lemma ok_inserts: "dict_ok m \<Longrightarrow> dict_ok (fold (\<lambda>(k, v). dict_insert k v) es m)"
  by (induction es arbitrary: m) (auto simp: ok_insert)

lemma lookup_inserts:
  "dict_ok m \<Longrightarrow> dict_lookup (fold (\<lambda>(k, v). dict_insert k v) es m) = dict_lookup m ++ map_of (rev es)"
proof (induction es arbitrary: m)
  case Nil
  then show ?case by simp
next
  case (Cons e es)
  obtain k v where e: "e = (k, v)" by (cases e)
  have "dict_lookup (fold (\<lambda>(k, v). dict_insert k v) es (dict_insert k v m))
      = (dict_lookup m)(k \<mapsto> v) ++ map_of (rev es)"
    using Cons.IH [OF ok_insert [OF Cons.prems]] by (simp only: lookup_insert [OF Cons.prems])
  then show ?case by (simp add: e map_add_def fun_eq_iff split: option.splits)
qed

lemma entries_keys: "dict_ok m \<Longrightarrow> fst ` set (dict_entries m) = dom (dict_lookup m)"
  by (auto simp: entries_lookup image_iff Bex_def dom_def)

end

text \<open>
  A \<open>HashMap\<close> iterates in an unspecified order: it is an association list without repeated keys,
  and every result the program derives from an iteration is shown not to depend on the order.
\<close>

type_synonym ('k, 'v) hash_map = "('k \<times> 'v) list"

definition hm_ok :: "('k, 'v) hash_map \<Rightarrow> bool" where
  "hm_ok m \<longleftrightarrow> distinct (map fst m)"

interpretation hm: dictionary map_of AList.update "\<lambda>m. m" hm_ok
  by unfold_locales
    (auto simp: hm_ok_def update_conv' distinct_update intro: map_of_is_SomeI dest: map_of_SomeD)

lemma hm_update_keys [simp]: "map_of m k \<noteq> None \<Longrightarrow> map fst (AList.update k v m) = map fst m"
  by (induction m) (auto split: if_splits)

lemma hm_ok_single [simp]: "hm_ok [(k, v)]" and hm_ok_Nil [simp]: "hm_ok []"
  by (simp_all add: hm_ok_def)

lemma map_of_mset_cong: "hm_ok m \<Longrightarrow> mset m = mset m' \<Longrightarrow> map_of m = map_of m'"
proof -
  assume ok: "hm_ok m" and eq: "mset m = mset m'"
  from eq have "set m = set m'" by (rule mset_eq_setD)
  moreover from eq have "mset (map fst m) = mset (map fst m')" by simp
  with ok have "distinct (map fst m')" unfolding hm_ok_def
    by (metis mset_eq_imp_distinct_iff)
  ultimately show ?thesis
    using ok unfolding hm_ok_def by (metis map_of_inject_set)
qed

text \<open>A \<open>BTreeMap\<close> iterates in key order: it is an association list sorted by its keys.\<close>

type_synonym ('k, 'v) btree_map = "('k \<times> 'v) list"

fun bt_insert :: "'k::linorder \<Rightarrow> 'v \<Rightarrow> ('k, 'v) btree_map \<Rightarrow> ('k, 'v) btree_map" where
  "bt_insert k v [] = [(k, v)]"
| "bt_insert k v (e # m) =
     (if k = fst e then (k, v) # m
      else if k < fst e then (k, v) # e # m
      else e # bt_insert k v m)"

definition bt_ok :: "('k::linorder, 'v) btree_map \<Rightarrow> bool" where
  "bt_ok m \<longleftrightarrow> sorted_wrt (<) (map fst m)"

lemma fst_set_bt_insert: "fst ` set (bt_insert k v m) = insert k (fst ` set m)"
  by (induction m) auto

lemma bt_ok_insert: "bt_ok m \<Longrightarrow> bt_ok (bt_insert k v m)"
proof (induction m)
  case Nil
  then show ?case by (simp add: bt_ok_def)
next
  case (Cons e m)
  have keys: "\<forall>x \<in> fst ` set (bt_insert k v m). fst e < x"
    if "fst e < k" using that Cons.prems by (auto simp: bt_ok_def fst_set_bt_insert)
  have tail: "bt_ok (bt_insert k v m)" using Cons by (simp add: bt_ok_def)
  show ?case
    using Cons.prems keys tail by (cases k "fst e" rule: linorder_cases) (force simp: bt_ok_def)+
qed

lemma map_of_bt_insert: "map_of (bt_insert k v m) = (map_of m)(k \<mapsto> v)"
  by (induction m) (auto simp: fun_eq_iff)

interpretation bt: dictionary map_of bt_insert "\<lambda>m. m" bt_ok
proof unfold_locales
  fix m :: "('a \<times> 'b) list" and k v
  assume ok: "bt_ok m"
  show "map_of (bt_insert k v m) = (map_of m)(k \<mapsto> v)" by (rule map_of_bt_insert)
  from ok show "bt_ok (bt_insert k v m)" by (rule bt_ok_insert)
  from ok show dist: "distinct (map fst m)" by (simp add: bt_ok_def strict_sorted_distinct)
  show "(k, v) \<in> set m \<longleftrightarrow> map_of m k = Some v"
    using dist by (auto intro: map_of_is_SomeI dest: map_of_SomeD)
qed

text \<open>Collecting an iterator of pairs into an ordered map: later entries replace earlier ones.\<close>

definition bt_collect :: "('k::linorder \<times> 'v) list \<Rightarrow> ('k, 'v) btree_map" where
  "bt_collect es = fold (\<lambda>(k, v). bt_insert k v) es []"

lemma bt_ok_Nil [simp]: "bt_ok []"
  by (simp add: bt_ok_def)

lemma bt_collect_ok: "bt_ok (bt_collect es)"
  unfolding bt_collect_def by (rule bt.ok_inserts) simp

lemma bt_collect_lookup: "map_of (bt_collect es) = map_of (rev es)"
  using bt.lookup_inserts [of "[]" es] by (simp add: bt_collect_def)

lemma bt_unique:
  assumes "bt_ok m" and "bt_ok m'" and "map_of m = map_of m'"
  shows "m = m'"
proof -
  have keys: "map fst m = map fst m'"
  proof (rule sorted_distinct_set_unique)
    show "sorted (map fst m)" "sorted (map fst m')" "distinct (map fst m)" "distinct (map fst m')"
      using assms(1,2) by (simp_all add: bt_ok_def strict_sorted_iff)
    show "set (map fst m) = set (map fst m')"
      using assms bt.entries_keys [of m] bt.entries_keys [of m'] by simp
  qed
  moreover have "map snd m = map snd m'"
  proof (rule nth_equalityI)
    show "length (map snd m) = length (map snd m')"
      using keys by (metis length_map)
    fix i assume i: "i < length (map snd m)"
    have len: "length m = length m'" using keys by (metis length_map)
    have "map_of m (fst (m ! i)) = Some (snd (m ! i))"
      using i bt.entries_distinct [OF assms(1)] by (simp add: map_of_is_SomeI)
    moreover have "map_of m' (fst (m' ! i)) = Some (snd (m' ! i))"
      using i len bt.entries_distinct [OF assms(2)] by (simp add: map_of_is_SomeI)
    moreover have "fst (m ! i) = fst (m' ! i)"
      using keys i len by (metis length_map nth_map)
    ultimately show "map snd m ! i = map snd m' ! i"
      using assms(3) i len by simp
  qed
  ultimately show ?thesis by (metis zip_map_fst_snd)
qed

lemma bt_collect_sorted: "bt_ok m \<Longrightarrow> bt_collect m = m"
proof (rule bt_unique)
  assume ok: "bt_ok m"
  show "map_of (bt_collect m) = map_of m"
    using bt.entries_distinct [OF ok]
    by (simp add: bt_collect_lookup map_of_mset_cong [of "rev m" m] hm_ok_def rev_map [symmetric])
qed (simp_all add: bt_collect_ok)

lemma bt_collect_perm:
  assumes "distinct (map fst es)" and "mset es = mset es'"
  shows "bt_collect es = bt_collect es'"
proof (rule bt_unique)
  have "hm_ok (rev es)" using assms(1) by (simp add: hm_ok_def rev_map [symmetric])
  moreover have "mset (rev es) = mset (rev es')" using assms(2) by simp
  ultimately show "map_of (bt_collect es) = map_of (bt_collect es')"
    unfolding bt_collect_lookup by (rule map_of_mset_cong)
qed (simp_all add: bt_collect_ok)

end
