(* ===== verification/RuntimeErrors.thy ===== *)
theory RuntimeErrors
  imports AeonPrelude
begin

text \<open>
  The runtime's error values (\<open>error.rs\<close>): the stable failure categories, the error with its
  category and detail, and its printed form. Every fallible function of the development returns
  \<open>'a result\<close>, whose left side is such an error.
\<close>

datatype error_code =
    InvalidIdentifier
  | InvalidInput
  | CanonicalSerialization
  | MalformedProtocol
  | OutputTooLarge
  | UnknownTool
  | DuplicateTool
  | ToolOutsideMission
  | CapabilityOutsideAuthority
  | CapabilityAllForbidden
  | ToolManifestMismatch
  | SemanticContextChanged
  | ContextResolutionFailed
  | MissionInactive
  | AgentInactive
  | LeaseInactive
  | IdentityInvalid
  | DelegationInvalid
  | LeaseGenerationMismatch
  | CapabilityManifestMismatch
  | AuthorizationInvalid
  | BudgetExhausted
  | ExecutionFailed
  | ModelFailed
  | EventIncomplete
  | Internal

datatype runtime_error = RuntimeError (code: error_code) (message: string)

type_synonym 'a result = "runtime_error + 'a"

definition err :: "error_code \<Rightarrow> string \<Rightarrow> 'a result" where
  "err c m = Inl (RuntimeError c m)"

text \<open>The detail of an error never decides anything: the simplifier leaves it alone.\<close>

lemma err_cong [cong]: "c = c' \<Longrightarrow> err c m = err c' m"
  by simp

lemma err_neq_Inr [simp]: "err c m \<noteq> Inr x" "Inr x \<noteq> err c m"
  by (simp_all add: err_def)

lemma err_eq_err [simp]: "err c m = err c' m' \<longleftrightarrow> c = c' \<and> m = m'"
  by (simp add: err_def)

lemma bindE_err [simp]: "bindE (err c m) f = err c m"
  by (simp add: err_def)

lemma case_err [simp]: "(case err c m of Inl e \<Rightarrow> f e | Inr x \<Rightarrow> g x) = f (RuntimeError c m)"
  by (simp add: err_def)

lemma err_eq_Inl [simp]: "err c m = Inl e \<longleftrightarrow> e = RuntimeError c m"
  by (auto simp: err_def)

lemma if_err_eq_Inr [result_simps]: "(if b then err c m else k) = Inr y \<longleftrightarrow> \<not> b \<and> k = Inr y"
  by simp

definition fails_with :: "error_code \<Rightarrow> 'a result \<Rightarrow> bool" where
  "fails_with c r \<longleftrightarrow> (case r of Inl e \<Rightarrow> code e = c | Inr _ \<Rightarrow> False)"

lemma fails_with_err [simp]: "fails_with c (err c' m) \<longleftrightarrow> c' = c"
  and fails_with_Inl [simp]: "fails_with c (Inl e) \<longleftrightarrow> code e = c"
  and fails_with_Inr [simp]: "\<not> fails_with c (Inr x)"
  by (auto simp: fails_with_def err_def)

lemma fails_with_bindE_left: "fails_with c m \<Longrightarrow> fails_with c (bindE m f)"
  by (cases m) auto

definition ok_or :: "error_code \<Rightarrow> string \<Rightarrow> 'a option \<Rightarrow> 'a result" where
  "ok_or c m x = (case x of None \<Rightarrow> err c m | Some y \<Rightarrow> Inr y)"

lemma ok_or_cong [cong]: "c = c' \<Longrightarrow> x = x' \<Longrightarrow> ok_or c m x = ok_or c' m x'"
  by simp

lemma ok_or_simps [simp]: "ok_or c m None = err c m" "ok_or c m (Some y) = Inr y"
  by (simp_all add: ok_or_def)

lemma ok_or_eq_Inr [result_simps]: "ok_or c m x = Inr y \<longleftrightarrow> x = Some y"
  by (cases x) auto

fun error_code_name :: "error_code \<Rightarrow> string" where
  "error_code_name InvalidIdentifier = ''invalid identifier''"
| "error_code_name InvalidInput = ''invalid input''"
| "error_code_name CanonicalSerialization = ''canonical serialization failed''"
| "error_code_name MalformedProtocol = ''malformed protocol''"
| "error_code_name OutputTooLarge = ''output too large''"
| "error_code_name UnknownTool = ''unknown tool''"
| "error_code_name DuplicateTool = ''duplicate tool''"
| "error_code_name ToolOutsideMission = ''tool outside mission''"
| "error_code_name CapabilityOutsideAuthority = ''capability outside authority''"
| "error_code_name CapabilityAllForbidden = ''Capability::All forbidden''"
| "error_code_name ToolManifestMismatch = ''tool manifest mismatch''"
| "error_code_name SemanticContextChanged = ''semantic context changed''"
| "error_code_name ContextResolutionFailed = ''context resolution failed''"
| "error_code_name MissionInactive = ''mission inactive''"
| "error_code_name AgentInactive = ''agent inactive''"
| "error_code_name LeaseInactive = ''lease inactive''"
| "error_code_name IdentityInvalid = ''identity invalid''"
| "error_code_name DelegationInvalid = ''delegation invalid''"
| "error_code_name LeaseGenerationMismatch = ''lease generation mismatch''"
| "error_code_name CapabilityManifestMismatch = ''capability manifest mismatch''"
| "error_code_name AuthorizationInvalid = ''authorization invalid''"
| "error_code_name BudgetExhausted = ''budget exhausted''"
| "error_code_name ExecutionFailed = ''execution failed''"
| "error_code_name ModelFailed = ''model failed''"
| "error_code_name EventIncomplete = ''event incomplete''"
| "error_code_name Internal = ''internal error''"

definition error_display :: "runtime_error \<Rightarrow> string" where
  "error_display e = error_code_name (code e) @ '': '' @ message e"

end
