(* ===== verification/Identifiers.thy ===== *)
theory Identifiers
  imports RuntimeErrors
begin

text \<open>
  Rust text and the validated identifiers (\<open>ids.rs\<close>). A \<open>String\<close> is its UTF-8 bytes; its
  length counts bytes, and \<open>chars\<close> decodes it into Unicode scalar values. The identifier
  newtypes (mission, agent, lease, authorization, certificate, key and tool ids and the four
  reference types) share one validation and are strings of the model.
\<close>

section \<open>UTF-8 text\<close>

definition byte_val :: "char \<Rightarrow> nat" where
  "byte_val c = of_char c"

lemma byte_val_inj [simp]: "byte_val c = byte_val d \<longleftrightarrow> c = d"
  by (simp add: byte_val_def)

fun decode_utf8 :: "nat list \<Rightarrow> nat list" where
  "decode_utf8 [] = []"
| "decode_utf8 (b # bs) =
     (if b < 0x80 then b # decode_utf8 bs
      else if b < 0xE0 then
        (case bs of c1 # r \<Rightarrow> ((b - 0xC0) * 64 + (c1 - 0x80)) # decode_utf8 r | _ \<Rightarrow> [])
      else if b < 0xF0 then
        (case bs of c1 # c2 # r \<Rightarrow>
           ((b - 0xE0) * 4096 + (c1 - 0x80) * 64 + (c2 - 0x80)) # decode_utf8 r | _ \<Rightarrow> [])
      else
        (case bs of c1 # c2 # c3 # r \<Rightarrow>
           ((b - 0xF0) * 262144 + (c1 - 0x80) * 4096 + (c2 - 0x80) * 64 + (c3 - 0x80))
             # decode_utf8 r | _ \<Rightarrow> []))"

definition cont_byte :: "nat \<Rightarrow> bool" where
  "cont_byte b \<longleftrightarrow> 0x80 \<le> b \<and> b \<le> 0xBF"

text \<open>The byte sequences a \<open>str\<close> may hold.\<close>

fun valid_utf8 :: "nat list \<Rightarrow> bool" where
  "valid_utf8 [] = True"
| "valid_utf8 (b # bs) =
     (if b < 0x80 then valid_utf8 bs
      else if 0xC2 \<le> b \<and> b \<le> 0xDF then
        (case bs of c1 # r \<Rightarrow> cont_byte c1 \<and> valid_utf8 r | _ \<Rightarrow> False)
      else if 0xE0 \<le> b \<and> b \<le> 0xEF then
        (case bs of c1 # c2 # r \<Rightarrow>
           (if b = 0xE0 then 0xA0 \<le> c1 \<and> c1 \<le> 0xBF
            else if b = 0xED then 0x80 \<le> c1 \<and> c1 \<le> 0x9F
            else cont_byte c1) \<and> cont_byte c2 \<and> valid_utf8 r | _ \<Rightarrow> False)
      else if 0xF0 \<le> b \<and> b \<le> 0xF4 then
        (case bs of c1 # c2 # c3 # r \<Rightarrow>
           (if b = 0xF0 then 0x90 \<le> c1 \<and> c1 \<le> 0xBF
            else if b = 0xF4 then 0x80 \<le> c1 \<and> c1 \<le> 0x8F
            else cont_byte c1) \<and> cont_byte c2 \<and> cont_byte c3 \<and> valid_utf8 r | _ \<Rightarrow> False)
      else False)"

definition chars :: "string \<Rightarrow> nat list" where
  "chars s = decode_utf8 (map byte_val s)"

definition str_ok :: "string \<Rightarrow> bool" where
  "str_ok s \<longleftrightarrow> valid_utf8 (map byte_val s)"

definition is_ascii_alphanumeric :: "nat \<Rightarrow> bool" where
  "is_ascii_alphanumeric c \<longleftrightarrow>
     (48 \<le> c \<and> c \<le> 57) \<or> (65 \<le> c \<and> c \<le> 90) \<or> (97 \<le> c \<and> c \<le> 122)"

definition is_control :: "nat \<Rightarrow> bool" where
  "is_control c \<longleftrightarrow> c \<le> 0x1F \<or> (0x7F \<le> c \<and> c \<le> 0x9F)"

definition is_whitespace :: "nat \<Rightarrow> bool" where
  "is_whitespace c \<longleftrightarrow> (9 \<le> c \<and> c \<le> 13) \<or> c = 0x20 \<or> c = 0x85 \<or> c = 0xA0 \<or> c = 0x1680
     \<or> (0x2000 \<le> c \<and> c \<le> 0x200A) \<or> c = 0x2028 \<or> c = 0x2029 \<or> c = 0x202F \<or> c = 0x205F
     \<or> c = 0x3000"

text \<open>\<open>value.trim().is_empty()\<close>: every character is white space.\<close>

definition trim_is_empty :: "string \<Rightarrow> bool" where
  "trim_is_empty s \<longleftrightarrow> list_all is_whitespace (chars s)"

text \<open>
  In valid text a character below 128 is exactly one byte, so a text whose characters are all ASCII
  is the list of its bytes.
\<close>

lemma decode_ascii: "list_all (\<lambda>b. b < 128) bs \<Longrightarrow> decode_utf8 bs = bs"
  by (induction bs) auto

lemma decode_ascii_only:
  assumes "valid_utf8 bs" and "list_all (\<lambda>c. c < 128) (decode_utf8 bs)"
  shows "list_all (\<lambda>b. b < 128) bs"
  using assms
  by (induction bs rule: decode_utf8.induct)
    (auto simp: cont_byte_def split: if_splits list.splits)

lemma valid_ascii: "list_all (\<lambda>b. b < 128) bs \<Longrightarrow> valid_utf8 bs"
  by (induction bs) auto

section \<open>Identifiers\<close>

definition MAX_IDENTIFIER_BYTES :: nat where
  "MAX_IDENTIFIER_BYTES = 128"

text \<open>The separators are the hyphen, the underscore, the dot, the colon, the slash and the at sign.\<close>

definition ident_rest_char :: "nat \<Rightarrow> bool" where
  "ident_rest_char c \<longleftrightarrow> is_ascii_alphanumeric c \<or>
     c = 0x2D \<or> c = 0x5F \<or> c = 0x2E \<or> c = 0x3A \<or> c = 0x2F \<or> c = 0x40"

definition validate_identifier :: "string \<Rightarrow> string \<Rightarrow> unit result" where
  "validate_identifier kind value =
     (if value = [] \<or> length value > MAX_IDENTIFIER_BYTES
      then err InvalidIdentifier (kind @ '' must contain 1 to 128 bytes'')
      else case chars value of
        [] \<Rightarrow> err InvalidIdentifier (kind @ '' must not be empty'')
      | first # rest \<Rightarrow>
          if \<not> is_ascii_alphanumeric first
          then err InvalidIdentifier (kind @ '' must start with an ASCII letter or digit'')
          else if \<not> list_all ident_rest_char rest
          then err InvalidIdentifier (kind @ '' contains unsupported characters'')
          else Inr ())"

definition new_id :: "string \<Rightarrow> string \<Rightarrow> string result" where
  "new_id kind value = bindE (validate_identifier kind value) (\<lambda>_. Inr value)"

type_synonym mission_id = string
type_synonym agent_id = string
type_synonym lease_id = string
type_synonym authorization_id = string
type_synonym certificate_id = string
type_synonym key_id = string
type_synonym tool_id = string
type_synonym model_ref = string
type_synonym memory_ref = string
type_synonym retrieval_index_ref = string
type_synonym instruction_profile_ref = string

lemma ident_rest_ascii: "ident_rest_char c \<Longrightarrow> c < 128"
  by (auto simp: ident_rest_char_def is_ascii_alphanumeric_def)

lemma alnum_ascii: "is_ascii_alphanumeric c \<Longrightarrow> c < 128"
  by (auto simp: is_ascii_alphanumeric_def)

lemma identifier_chars_are_bytes:
  assumes "str_ok s" and "\<forall>c \<in> set (chars s). c < 128"
  shows "chars s = map byte_val s"
proof -
  have "list_all (\<lambda>b. b < 128) (map byte_val s)"
  proof (rule decode_ascii_only)
    show "valid_utf8 (map byte_val s)" using assms(1) by (simp only: str_ok_def)
    show "list_all (\<lambda>c. c < 128) (decode_utf8 (map byte_val s))"
      using assms(2) by (simp only: chars_def list_all_iff)
  qed
  then show ?thesis unfolding chars_def by (rule decode_ascii)
qed

text \<open>
  An identifier is accepted exactly when it has between 1 and 128 bytes, starts with an ASCII letter
  or digit and continues with ASCII letters, digits and the six separators.
\<close>

lemma validate_identifier_iff:
  assumes "str_ok s"
  shows "validate_identifier kind s = Inr () \<longleftrightarrow>
    s \<noteq> [] \<and> length s \<le> 128 \<and> is_ascii_alphanumeric (byte_val (hd s))
    \<and> list_all (ident_rest_char \<circ> byte_val) (tl s)"
proof
  assume ok: "validate_identifier kind s = Inr ()"
  then obtain c cs where cs: "chars s = c # cs" and c: "is_ascii_alphanumeric c"
    and rest: "list_all ident_rest_char cs" and len: "s \<noteq> []" "length s \<le> 128"
    by (auto simp: validate_identifier_def MAX_IDENTIFIER_BYTES_def split: if_splits list.splits)
  have "\<forall>x \<in> set (chars s). x < 128"
    using cs c rest by (auto simp: list_all_iff dest: alnum_ascii ident_rest_ascii)
  then have "map byte_val s = c # cs"
    using cs identifier_chars_are_bytes [OF assms] by simp
  then obtain h t where "s = h # t" "byte_val h = c" "map byte_val t = cs" by auto
  with c rest len show "s \<noteq> [] \<and> length s \<le> 128 \<and> is_ascii_alphanumeric (byte_val (hd s))
      \<and> list_all (ident_rest_char \<circ> byte_val) (tl s)"
    by (auto simp: list_all_iff)
next
  assume a: "s \<noteq> [] \<and> length s \<le> 128 \<and> is_ascii_alphanumeric (byte_val (hd s))
      \<and> list_all (ident_rest_char \<circ> byte_val) (tl s)"
  then obtain h t where s: "s = h # t" by (cases s) auto
  have "list_all (\<lambda>b. b < 128) (map byte_val s)"
    using a s by (auto simp: list_all_iff dest: alnum_ascii ident_rest_ascii)
  then have "chars s = map byte_val s" by (simp add: chars_def decode_ascii)
  with a s show "validate_identifier kind s = Inr ()"
    by (auto simp: validate_identifier_def MAX_IDENTIFIER_BYTES_def list_all_iff)
qed

lemma validate_identifier_code:
  "validate_identifier kind s = Inl e \<Longrightarrow> code e = InvalidIdentifier"
  by (auto simp: validate_identifier_def split: if_splits list.splits)

lemma new_id_eq_Inr [result_simps]:
  "new_id kind v = Inr x \<longleftrightarrow> validate_identifier kind v = Inr () \<and> x = v"
  by (auto simp: new_id_def bindE_eq_Inr)

end
