(* ===== verification/CanonicalDigest.thy ===== *)
theory CanonicalDigest
  imports Identifiers
begin

text \<open>
  JSON values, digests and the canonical encoding (\<open>digest.rs\<close>), together with the record of
  the external services the runtime is built on. The services are parameters of the model: SHA-256,
  the JSON printer and parser, Ed25519, the RFC 3339 rendering of a time stamp and the capability
  type of the Nexus kernel are never given a definition here.
\<close>

unbundle bit_operations_syntax

section \<open>JSON values\<close>

text \<open>
  A number is an unsigned or negative 64-bit integer or a double (by its bits). An object's members
  are listed in the iteration order of the map that holds them.
\<close>

datatype json_number = PosInt u64 | NegInt int | Float u64

datatype json =
    JNull
  | JBool bool
  | JNumber json_number
  | JString string
  | JArray "json list"
  | JObject "(string \<times> json) list"

fun is_object :: "json \<Rightarrow> bool" where
  "is_object (JObject _) = True"
| "is_object _ = False"

fun is_string :: "json \<Rightarrow> bool" where
  "is_string (JString _) = True"
| "is_string _ = False"

fun is_array :: "json \<Rightarrow> bool" where
  "is_array (JArray _) = True"
| "is_array _ = False"

fun is_number :: "json \<Rightarrow> bool" where
  "is_number (JNumber _) = True"
| "is_number _ = False"

fun is_boolean :: "json \<Rightarrow> bool" where
  "is_boolean (JBool _) = True"
| "is_boolean _ = False"

fun is_null :: "json \<Rightarrow> bool" where
  "is_null JNull = True"
| "is_null _ = False"

fun as_u64 :: "json \<Rightarrow> u64 option" where
  "as_u64 (JNumber (PosInt n)) = Some n"
| "as_u64 _ = None"

fun as_i64 :: "json \<Rightarrow> int option" where
  "as_i64 (JNumber (PosInt n)) = (if n \<le> 0x7FFFFFFFFFFFFFFF then Some (uint n) else None)"
| "as_i64 (JNumber (NegInt i)) = Some i"
| "as_i64 _ = None"

fun as_str :: "json \<Rightarrow> string option" where
  "as_str (JString s) = Some s"
| "as_str _ = None"

fun as_object :: "json \<Rightarrow> (string \<times> json) list option" where
  "as_object (JObject es) = Some es"
| "as_object _ = None"

fun as_array :: "json \<Rightarrow> json list option" where
  "as_array (JArray xs) = Some xs"
| "as_array _ = None"

text \<open>\<open>Value::get\<close>: only objects have members.\<close>

fun json_get :: "string \<Rightarrow> json \<Rightarrow> json option" where
  "json_get k (JObject es) = map_of es k"
| "json_get k _ = None"

text \<open>A serialized struct: its fields collected into the JSON map.\<close>

definition json_struct :: "(string \<times> json) list \<Rightarrow> json" where
  "json_struct fields = JObject (bt_collect fields)"

definition json_option :: "('a \<Rightarrow> json) \<Rightarrow> 'a option \<Rightarrow> json" where
  "json_option f x = (case x of None \<Rightarrow> JNull | Some y \<Rightarrow> f y)"

definition json_u64 :: "u64 \<Rightarrow> json" where
  "json_u64 n = JNumber (PosInt n)"

definition json_byte :: "byte \<Rightarrow> json" where
  "json_byte b = JNumber (PosInt (ucast b))"

section \<open>External services\<close>

text \<open>
  What the JSON reader hands to a visitor of an object: its members in the order of the text, whether
  reading stopped at an error after them, and whether anything but white space follows the object.
\<close>

record json_stream =
  js_members :: "(string \<times> json) list"
  js_broken :: "string option"
  js_trailing :: "string option"

record 'cap platform =
  sha256 :: "byte list \<Rightarrow> byte list"
  json_to_vec :: "json \<Rightarrow> string + byte list"
  json_to_string :: "json \<Rightarrow> string + string"
  json_display :: "json \<Rightarrow> string"
  json_stream :: "string \<Rightarrow> json_stream"
  rfc3339 :: "timestamp \<Rightarrow> string"
  key_from_bytes :: "byte list \<Rightarrow> bool"
  ed25519_verify :: "byte list \<Rightarrow> byte list \<Rightarrow> byte list \<Rightarrow> bool"
  cap_all :: 'cap
  cap_subset :: "'cap \<Rightarrow> 'cap \<Rightarrow> bool"
  cap_to_value :: "'cap \<Rightarrow> string + json"
  cap_to_string :: "'cap \<Rightarrow> string + string"
  cap_from_str :: "string \<Rightarrow> string + 'cap"

section \<open>Digests\<close>

definition DIGEST_BYTES :: nat where
  "DIGEST_BYTES = 32"

datatype digest = Digest (as_bytes: "byte list")

instantiation digest :: linorder
begin
definition less_eq_digest :: "digest \<Rightarrow> digest \<Rightarrow> bool" where
  "less_eq_digest a b \<longleftrightarrow> as_bytes a \<le> as_bytes b"
definition less_digest :: "digest \<Rightarrow> digest \<Rightarrow> bool" where
  "less_digest a b \<longleftrightarrow> as_bytes a < as_bytes b"
instance
  by standard (auto simp: less_eq_digest_def less_digest_def intro: digest.expand)
end

definition digest_ok :: "digest \<Rightarrow> bool" where
  "digest_ok d \<longleftrightarrow> length (as_bytes d) = DIGEST_BYTES"

definition from_slice :: "byte list \<Rightarrow> digest result" where
  "from_slice bytes =
     (if length bytes = DIGEST_BYTES then Inr (Digest bytes)
      else err InvalidInput ''digest must contain exactly 32 bytes'')"

definition hex_char :: "nat \<Rightarrow> char" where
  "hex_char n = ''0123456789abcdef'' ! n"

definition hex_byte :: "byte \<Rightarrow> string" where
  "hex_byte b = [hex_char (unat (drop_bit 4 b)), hex_char (unat (take_bit 4 b))]"

definition to_hex :: "digest \<Rightarrow> string" where
  "to_hex d = concat (map hex_byte (as_bytes d))"

definition decode_hex :: "byte \<Rightarrow> byte option" where
  "decode_hex b =
     (if 48 \<le> b \<and> b \<le> 57 then Some (b - 48)
      else if 97 \<le> b \<and> b \<le> 102 then Some (b - 97 + 10)
      else None)"

definition byte_of :: "char \<Rightarrow> byte" where
  "byte_of c = of_nat (byte_val c)"

definition str_bytes :: "string \<Rightarrow> byte list" where
  "str_bytes s = map byte_of s"

definition is_ascii :: "string \<Rightarrow> bool" where
  "is_ascii s \<longleftrightarrow> list_all (\<lambda>b. b < 128) (str_bytes s)"

fun decode_hex_pairs :: "byte list \<Rightarrow> byte list result" where
  "decode_hex_pairs (h # l # rest) =
     bindE (ok_or InvalidInput ''digest contains non-hex data'' (decode_hex h)) (\<lambda>high.
     bindE (ok_or InvalidInput ''digest contains non-hex data'' (decode_hex l)) (\<lambda>low.
     bindE (decode_hex_pairs rest) (\<lambda>bytes.
     Inr ((push_bit 4 high OR low) # bytes))))"
| "decode_hex_pairs _ = Inr []"

definition from_hex :: "string \<Rightarrow> digest result" where
  "from_hex value =
     (if length value \<noteq> DIGEST_BYTES * 2 \<or> \<not> is_ascii value
      then err InvalidInput ''digest must be 64 lowercase hexadecimal characters''
      else bindE (decode_hex_pairs (str_bytes value)) (\<lambda>bytes. Inr (Digest bytes)))"

definition digest_value :: "digest \<Rightarrow> json" where
  "digest_value d = JString (to_hex d)"

section \<open>Canonical encoding\<close>

lemma size_member_json:
  "(k, v) \<in> set es \<Longrightarrow> size v < Suc (size_list (size_prod (\<lambda>x. 0) size) es)"
  by (induction es) auto

function canonicalize_json :: "json \<Rightarrow> json" where
  "canonicalize_json (JArray values) = JArray (map canonicalize_json values)"
| "canonicalize_json (JObject values) =
     (let entries = sort_key fst values
      in JObject (bt_collect (map (\<lambda>(key, value). (key, canonicalize_json value)) entries)))"
| "canonicalize_json JNull = JNull"
| "canonicalize_json (JBool b) = JBool b"
| "canonicalize_json (JNumber n) = JNumber n"
| "canonicalize_json (JString s) = JString s"
  by pat_completeness auto
termination
  by (relation "measure size") (auto simp: less_Suc_eq_le size_list_estimation' dest: size_member_json)

definition canonical_error :: "string \<Rightarrow> runtime_error" where
  "canonical_error text = RuntimeError CanonicalSerialization text"

fun be_bytes :: "nat \<Rightarrow> nat \<Rightarrow> byte list" where
  "be_bytes 0 n = []"
| "be_bytes (Suc k) n = be_bytes k (n div 256) @ [of_nat (n mod 256)]"

definition canonical_encoding :: "'cap platform \<Rightarrow> string + json \<Rightarrow> byte list result" where
  "canonical_encoding P value =
     bindE (map_err canonical_error value) (\<lambda>v.
     map_err canonical_error (json_to_vec P (canonicalize_json v)))"

definition canonical_digest :: "'cap platform \<Rightarrow> string \<Rightarrow> string + json \<Rightarrow> digest result" where
  "canonical_digest P domain value =
     (if domain = [] \<or> length domain > 2 ^ 32 - 1
      then err InvalidInput ''digest domain must contain 1 to u32::MAX bytes''
      else bindE (canonical_encoding P value) (\<lambda>encoded.
        Inr (Digest (sha256 P
          (be_bytes 4 (length domain) @ str_bytes domain
           @ be_bytes 8 (length encoded) @ encoded)))))"

definition canonical_bytes :: "'cap platform \<Rightarrow> string \<Rightarrow> string + json \<Rightarrow> byte list result" where
  "canonical_bytes P domain value =
     (if domain = [] then err InvalidInput ''digest domain must contain at least one byte''
      else bindE (canonical_encoding P value) (\<lambda>encoded.
        if \<not> length domain < 2 ^ 32 then err InvalidInput ''digest domain is too large''
        else if \<not> length encoded < 2 ^ 64 then err InvalidInput ''canonical payload is too large''
        else Inr (be_bytes 4 (length domain) @ str_bytes domain
                  @ be_bytes 8 (length encoded) @ encoded)))"

definition canonical_value_bytes :: "'cap platform \<Rightarrow> json \<Rightarrow> byte list result" where
  "canonical_value_bytes P value =
     map_err canonical_error (json_to_vec P (canonicalize_json value))"

section \<open>Hexadecimal digests\<close>

lemma unat_byte_of [simp]: "unat (byte_of c) = byte_val c"
  by (simp add: byte_of_def byte_val_def unat_of_nat)

lemma byte_of_inj [simp]: "byte_of c = byte_of d \<longleftrightarrow> c = d"
  by (metis unat_byte_of byte_val_inj)

lemma all_less_16:
  "(\<forall>n < 16. Q n) \<longleftrightarrow> Q 0 \<and> Q 1 \<and> Q 2 \<and> Q 3 \<and> Q 4 \<and> Q 5 \<and> Q 6 \<and> Q 7 \<and> Q 8 \<and> Q 9 \<and> Q 10
     \<and> Q 11 \<and> Q 12 \<and> Q 13 \<and> Q 14 \<and> Q (15 :: nat)"
  by (simp add: All_less_Suc numeral_eq_Suc conj_ac)

lemma hex_char_table:
  "\<forall>n < 16. decode_hex (byte_of (hex_char n)) = Some (of_nat n) \<and> byte_of (hex_char n) < 128"
  unfolding all_less_16
  by (simp add: hex_char_def decode_hex_def byte_of_def byte_val_def)

lemma decode_hex_char: "n < 16 \<Longrightarrow> decode_hex (byte_of (hex_char n)) = Some (of_nat n)"
  and hex_char_ascii: "n < 16 \<Longrightarrow> byte_of (hex_char n) < 128"
  using hex_char_table by blast+

lemma unat_high: "unat (drop_bit 4 (b :: byte)) = unat b div 16"
proof -
  have "unat (drop_bit 4 b) = drop_bit 4 (unat b)" by (rule unat_drop_bit_eq)
  then show ?thesis by (simp only: drop_bit_eq_div) simp
qed

lemma unat_low: "unat (take_bit 4 (b :: byte)) = unat b mod 16"
proof -
  have "unat (take_bit 4 b) = take_bit 4 (unat b)" by (rule unsigned_take_bit_eq)
  then show ?thesis by (simp only: take_bit_eq_mod) simp
qed

lemma nibble_bounds: "unat (drop_bit 4 (b :: byte)) < 16" "unat (take_bit 4 (b :: byte)) < 16"
proof -
  have "unat b < 256" using unsigned_less [of b, where 'a = nat] by simp
  then show "unat (drop_bit 4 b) < 16" unfolding unat_high by simp
  show "unat (take_bit 4 b) < 16" unfolding unat_low by simp
qed

lemma join_nibbles: "push_bit 4 (drop_bit 4 b) OR take_bit 4 b = (b :: byte)"
  by (rule bit_word_eqI) (auto simp: bit_simps)

lemma length_to_hex [simp]: "length (to_hex d) = 2 * length (as_bytes d)"
proof -
  have "length (concat (map hex_byte bs)) = 2 * length bs" for bs
    by (induction bs) (auto simp: hex_byte_def)
  then show ?thesis by (simp add: to_hex_def)
qed

lemma decode_hex_pairs_to_hex:
  "decode_hex_pairs (str_bytes (concat (map hex_byte bs))) = Inr bs"
  by (induction bs)
    (simp_all add: str_bytes_def hex_byte_def decode_hex_char nibble_bounds join_nibbles)

lemma to_hex_ascii: "is_ascii (to_hex d)"
proof -
  have "list_all (\<lambda>b. b < 128) (str_bytes (concat (map hex_byte bs)))" for bs
    by (induction bs) (auto simp: str_bytes_def hex_byte_def nibble_bounds hex_char_ascii)
  then show ?thesis by (simp add: is_ascii_def to_hex_def)
qed

lemma from_hex_to_hex: "digest_ok d \<Longrightarrow> from_hex (to_hex d) = Inr d"
  unfolding from_hex_def digest_ok_def DIGEST_BYTES_def
  using to_hex_ascii [of d] decode_hex_pairs_to_hex [of "as_bytes d"]
  by (simp add: to_hex_def [symmetric])

lemma to_hex_inj: "digest_ok a \<Longrightarrow> digest_ok b \<Longrightarrow> to_hex a = to_hex b \<Longrightarrow> a = b"
  by (metis from_hex_to_hex sum.inject(2))

text \<open>Decoding accepts the lower-case rendering only, so a digest has exactly one text.\<close>

lemma decode_hex_Some:
  assumes "decode_hex (byte_of c) = Some v"
  shows "unat v < 16 \<and> c = hex_char (unat v)"
proof -
  let ?n = "byte_val c"
  have lt: "?n < 256" by (simp add: byte_val_def)
  from assms have "(48 \<le> ?n \<and> ?n \<le> 57) \<or> (97 \<le> ?n \<and> ?n \<le> 102)"
    by (auto simp: decode_hex_def word_le_nat_alt split: if_splits)
  then have "?n \<in> set ([48..<58] @ [97..<103])"
    by (simp only: set_append set_upt Un_iff atLeastLessThan_iff) arith
  also have "[48..<58] @ [97..<103] = map (\<lambda>m. byte_val (hex_char m)) [0..<16]"
    by (simp add: upt_rec hex_char_def byte_val_def)
  finally obtain m where m: "m < 16" "c = hex_char m" by auto
  then have "v = of_nat m" using assms decode_hex_char by simp
  with m show ?thesis by (simp add: unat_of_nat)
qed

lemma split_nibbles:
  fixes h l :: byte
  assumes "unat h < 16" and "unat l < 16"
  shows "drop_bit 4 (push_bit 4 h OR l) = h" and "take_bit 4 (push_bit 4 h OR l) = l"
proof -
  have low: "take_bit 4 b = b" if "unat b < 16" for b :: byte
    using that by (intro word_unat_eq_iff [THEN iffD2]) (simp only: unat_low mod_less)
  have l: "take_bit 4 l = l" by (rule low [OF assms(2)])
  have h8: "take_bit 4 h = h" by (rule low [OF assms(1)])
  have "unat (drop_bit 4 l) = unat (0 :: byte)"
    using assms(2) by (simp only: unat_high div_less unat_0)
  then have l0: "drop_bit 4 l = 0" by (rule word_unat_eq_iff [THEN iffD2])
  show "drop_bit 4 (push_bit 4 h OR l) = h"
  proof (rule bit_word_eqI)
    fix n assume n: "n < LENGTH(8)"
    have "bit (take_bit 4 h) n \<Longrightarrow> n < 4" by (simp only: bit_take_bit_iff)
    then have hb: "bit h n \<Longrightarrow> n < 4" by (simp only: h8)
    have "\<not> bit (drop_bit 4 l) n" unfolding l0 by simp
    then have "\<not> bit l (4 + n)" by (simp only: bit_drop_bit_eq comp_apply not_False_eq_True)
    with hb n show "bit (drop_bit 4 (push_bit 4 h OR l)) n = bit h n"
      by (auto simp: bit_simps)
  qed
  show "take_bit 4 (push_bit 4 h OR l) = l"
  proof (rule bit_word_eqI)
    fix n assume n: "n < LENGTH(8)"
    have "bit (take_bit 4 l) n \<Longrightarrow> n < 4" by (simp only: bit_take_bit_iff)
    then have "bit l n \<Longrightarrow> n < 4" by (simp only: l)
    with n show "bit (take_bit 4 (push_bit 4 h OR l)) n = bit l n"
      by (auto simp: bit_simps)
  qed
qed

lemma to_hex_of_decoded:
  "decode_hex_pairs (str_bytes s) = Inr bs \<Longrightarrow> even (length s) \<Longrightarrow>
   concat (map hex_byte bs) = s \<and> 2 * length bs = length s"
proof (induction s arbitrary: bs rule: induct_list012)
  case (3 a b s)
  from 3(3) obtain h l rest where dec: "decode_hex (byte_of a) = Some h"
      "decode_hex (byte_of b) = Some l" "decode_hex_pairs (str_bytes s) = Inr rest"
      and bs: "bs = (push_bit 4 h OR l) # rest"
    by (auto simp: str_bytes_def result_simps)
  have rest: "concat (map hex_byte rest) = s \<and> 2 * length rest = length s"
    using 3(1) dec(3) 3(4) by simp
  note h = decode_hex_Some [OF dec(1)] and l = decode_hex_Some [OF dec(2)]
  show ?case
  proof -
    have "hex_byte (push_bit 4 h OR l) = [a, b]"
      using h l split_nibbles [of h l] by (simp only: hex_byte_def)
    with rest show ?thesis by (simp add: bs)
  qed
qed (auto simp: str_bytes_def)

lemma from_hex_canonical: "from_hex s = Inr d \<Longrightarrow> to_hex d = s \<and> digest_ok d"
  using to_hex_of_decoded [of s]
  by (auto simp: from_hex_def result_simps DIGEST_BYTES_def to_hex_def digest_ok_def split: if_splits)

section \<open>Framing\<close>

lemma length_be_bytes [simp]: "length (be_bytes k n) = k"
  by (induction k arbitrary: n) auto

lemma be_bytes_inj: "n < 256 ^ k \<Longrightarrow> m < 256 ^ k \<Longrightarrow> be_bytes k n = be_bytes k m \<Longrightarrow> n = m"
proof (induction k arbitrary: n m)
  case 0
  then show ?case by simp
next
  case (Suc k)
  have "n div 256 < 256 ^ k" "m div 256 < 256 ^ k"
    using Suc.prems(1,2) by (simp_all add: less_mult_imp_div_less mult.commute)
  with Suc have d: "n div 256 = m div 256" by simp
  from Suc.prems(3) have "(of_nat (n mod 256) :: byte) = of_nat (m mod 256)" by simp
  then have "unat (of_nat (n mod 256) :: byte) = unat (of_nat (m mod 256) :: byte)" by simp
  then have "n mod 256 = m mod 256" by (simp add: unat_of_nat)
  with d show ?case by (metis div_mult_mod_eq)
qed

lemma str_bytes_inj [simp]: "str_bytes a = str_bytes b \<longleftrightarrow> a = b"
proof
  assume "str_bytes a = str_bytes b"
  moreover have "inj byte_of" by (rule injI) simp
  ultimately show "a = b" by (simp add: str_bytes_def)
qed simp

lemma length_str_bytes [simp]: "length (str_bytes s) = length s"
  by (simp add: str_bytes_def)

definition frame :: "string \<Rightarrow> byte list \<Rightarrow> byte list" where
  "frame domain encoded =
     be_bytes 4 (length domain) @ str_bytes domain @ be_bytes 8 (length encoded) @ encoded"

lemma frame_inj:
  assumes "frame d e = frame d' e'" and "length d < 2 ^ 32" and "length d' < 2 ^ 32"
  shows "d = d' \<and> e = e'"
proof -
  from assms(1) have "be_bytes 4 (length d) = be_bytes 4 (length d')"
    and rest: "str_bytes d @ be_bytes 8 (length e) @ e = str_bytes d' @ be_bytes 8 (length e') @ e'"
    by (simp_all add: frame_def)
  then have "length d = length d'"
    using assms(2,3) be_bytes_inj [of "length d" 4 "length d'"] by simp
  with rest show ?thesis by simp
qed

text \<open>\<open>canonical_digest\<close> hashes exactly the bytes \<open>canonical_bytes\<close> returns.\<close>

lemma canonical_bytes_eq_Inr [result_simps]:
  "canonical_bytes P domain v = Inr bs \<longleftrightarrow>
     domain \<noteq> [] \<and> length domain < 2 ^ 32 \<and>
     (\<exists>e. canonical_encoding P v = Inr e \<and> length e < 2 ^ 64 \<and> bs = frame domain e)"
  by (auto simp: canonical_bytes_def result_simps frame_def)

lemma canonical_digest_eq_Inr [result_simps]:
  "canonical_digest P domain v = Inr d \<longleftrightarrow>
     domain \<noteq> [] \<and> length domain < 2 ^ 32 \<and>
     (\<exists>e. canonical_encoding P v = Inr e \<and> d = Digest (sha256 P (frame domain e)))"
  by (auto simp: canonical_digest_def result_simps frame_def)

lemma canonical_encoding_eq_Inr [result_simps]:
  "canonical_encoding P v = Inr e \<longleftrightarrow> (\<exists>j. v = Inr j \<and> json_to_vec P (canonicalize_json j) = Inr e)"
  by (auto simp: canonical_encoding_def result_simps)

text \<open>
  A collision of the hash function. Theorems about digests conclude that the hashed values agree or
  that the two byte strings that were hashed are a collision, and so idealise no hash function.
\<close>

definition hash_collision :: "'cap platform \<Rightarrow> byte list \<Rightarrow> byte list \<Rightarrow> bool" where
  "hash_collision P x y \<longleftrightarrow> x \<noteq> y \<and> sha256 P x = sha256 P y"

lemma canonical_digest_binds:
  assumes "canonical_digest P d v = Inr h" and "canonical_digest P d' v' = Inr h"
  shows "(d = d' \<and> canonical_encoding P v = canonical_encoding P v')
    \<or> (\<exists>e e'. canonical_encoding P v = Inr e \<and> canonical_encoding P v' = Inr e'
         \<and> hash_collision P (frame d e) (frame d' e'))"
proof -
  from assms obtain e e' where e: "canonical_encoding P v = Inr e" "canonical_encoding P v' = Inr e'"
    and hash: "sha256 P (frame d e) = sha256 P (frame d' e')"
    and len: "length d < 2 ^ 32" "length d' < 2 ^ 32"
    by (auto simp: canonical_digest_eq_Inr)
  show ?thesis
  proof (cases "frame d e = frame d' e'")
    case True
    then have "d = d' \<and> e = e'" using len by (rule frame_inj)
    with e show ?thesis by simp
  next
    case False
    with e hash show ?thesis by (auto simp: hash_collision_def)
  qed
qed

section \<open>Canonical JSON\<close>

text \<open>Canonical values: every object lists its members once, in key order.\<close>

function json_canonical :: "json \<Rightarrow> bool" where
  "json_canonical (JArray vs) = list_all json_canonical vs"
| "json_canonical (JObject es) = (bt_ok es \<and> list_all (\<lambda>(k, v). json_canonical v) es)"
| "json_canonical JNull = True"
| "json_canonical (JBool b) = True"
| "json_canonical (JNumber n) = True"
| "json_canonical (JString s) = True"
  by pat_completeness auto
termination
  by (relation "measure size") (auto simp: less_Suc_eq_le size_list_estimation' dest: size_member_json)

lemma bt_ok_sort_key: "bt_ok es \<Longrightarrow> sort_key fst es = es"
  by (simp add: bt_ok_def strict_sorted_iff sort_key_id_if_sorted)

lemma canonicalize_id: "json_canonical v \<Longrightarrow> canonicalize_json v = v"
proof (induction v rule: canonicalize_json.induct)
  case (1 vs)
  then show ?case by (auto simp: list_all_iff intro: map_idI)
next
  case (2 es)
  have ok: "bt_ok es" using 2(2) by simp
  have "map (\<lambda>(k, v). (k, canonicalize_json v)) es = es"
  proof (rule map_idI)
    fix e assume e: "e \<in> set es"
    obtain k v where kv: "e = (k, v)" by (cases e)
    have "json_canonical v" using 2(2) e kv by (auto simp: list_all_iff)
    then have "canonicalize_json v = v"
      using 2(1) [OF refl, of e] e kv by simp
    with kv show "(case e of (k, v) \<Rightarrow> (k, canonicalize_json v)) = e" by simp
  qed
  then show ?case using ok by (simp add: bt_ok_sort_key bt_collect_sorted)
qed auto

lemma snd_bt_insert: "snd ` set (bt_insert k v m) \<subseteq> insert v (snd ` set m)"
  by (induction m) auto

lemma snd_bt_collect: "snd ` set (bt_collect es) \<subseteq> snd ` set es"
proof -
  have "snd ` set (fold (\<lambda>(k, v). bt_insert k v) es m) \<subseteq> snd ` set es \<union> snd ` set m" for m
  proof (induction es arbitrary: m)
    case (Cons e es)
    have "snd ` set (fold (\<lambda>(k, v). bt_insert k v) (e # es) m)
        \<subseteq> snd ` set es \<union> snd ` set (bt_insert (fst e) (snd e) m)"
      using Cons [of "bt_insert (fst e) (snd e) m"] by (cases e) simp
    then show ?case using snd_bt_insert [of "fst e" "snd e" m] by auto
  qed simp
  then show ?thesis unfolding bt_collect_def by fastforce
qed

lemma canonicalize_canonical: "json_canonical (canonicalize_json v)"
proof (induction v rule: canonicalize_json.induct)
  case (1 vs)
  then show ?case by (auto simp: list_all_iff)
next
  case (2 es)
  let ?es = "map (\<lambda>(k, v). (k, canonicalize_json v)) (sort_key fst es)"
  have "\<forall>v \<in> snd ` set ?es. json_canonical v"
    using 2 [OF refl] by (auto simp del: canonicalize_json.simps)
  then have "\<forall>v \<in> snd ` set (bt_collect ?es). json_canonical v"
    using snd_bt_collect [of ?es] by blast
  then show ?case by (auto simp: Let_def bt_collect_ok list_all_iff)
qed auto

lemma canonicalize_idem: "canonicalize_json (canonicalize_json v) = canonicalize_json v"
  by (rule canonicalize_id) (rule canonicalize_canonical)

text \<open>
  Two JSON values are the same document when they differ in the order of object members only. All
  documents have one canonical form.
\<close>

inductive same_json :: "json \<Rightarrow> json \<Rightarrow> bool" where
  same_null: "same_json JNull JNull"
| same_bool: "same_json (JBool b) (JBool b)"
| same_number: "same_json (JNumber n) (JNumber n)"
| same_string: "same_json (JString s) (JString s)"
| same_array: "list_all2 same_json vs ws \<Longrightarrow> same_json (JArray vs) (JArray ws)"
| same_object: "distinct (map fst es) \<Longrightarrow> distinct (map fst fs) \<Longrightarrow> fst ` set es = fst ` set fs \<Longrightarrow>
    (\<forall>k v w. (k, v) \<in> set es \<longrightarrow> (k, w) \<in> set fs \<longrightarrow> same_json v w) \<Longrightarrow>
    same_json (JObject es) (JObject fs)"

lemma map_of_canonical_members:
  assumes "distinct (map fst es)"
  shows "map_of (bt_collect (map (\<lambda>(k, v). (k, canonicalize_json v)) (sort_key fst es))) k
    = map_option canonicalize_json (map_of es k)"
proof -
  have "bt_collect (map (\<lambda>(k, v). (k, canonicalize_json v)) (sort_key fst es))
      = bt_collect (map (\<lambda>(k, v). (k, canonicalize_json v)) es)"
  proof (rule bt_collect_perm)
    have "distinct (map fst (sort_key fst es))"
      using assms by (simp add: distinct_map inj_on_def)
    then show "distinct (map fst (map (\<lambda>(k, v). (k, canonicalize_json v)) (sort_key fst es)))"
      by (simp add: comp_def case_prod_beta)
  qed simp
  moreover have "map_of (rev es) = map_of es"
    using assms by (intro map_of_mset_cong) (simp_all add: hm_ok_def rev_map [symmetric])
  ultimately show ?thesis
    by (simp add: bt_collect_lookup rev_map map_of_map)
qed

lemma canonicalize_same: "same_json v w \<Longrightarrow> canonicalize_json v = canonicalize_json w"
proof (induction rule: same_json.induct)
  case (same_array vs ws)
  then have "map canonicalize_json vs = map canonicalize_json ws"
    by (induction rule: list_all2_induct) auto
  then show ?case by simp
next
  case (same_object es fs)
  have "map_option canonicalize_json (map_of es k) = map_option canonicalize_json (map_of fs k)" for k
  proof (cases "map_of es k")
    case None
    then have "k \<notin> fst ` set fs" using same_object(3) by (metis map_of_eq_None_iff)
    then have "map_of fs k = None" by (simp add: map_of_eq_None_iff)
    with None show ?thesis by simp
  next
    case (Some v)
    then have "k \<in> fst ` set fs" using same_object(3) by (metis map_of_SomeD fst_conv image_eqI)
    then obtain w where w: "map_of fs k = Some w"
      by (metis map_of_eq_None_iff not_None_eq)
    with Some have "canonicalize_json v = canonicalize_json w"
      using same_object(4) by (blast dest: map_of_SomeD)
    with Some w show ?thesis by simp
  qed
  then show ?case
    using same_object(1,2)
    by (auto simp: Let_def fun_eq_iff map_of_canonical_members bt_collect_ok intro!: bt_unique)
qed auto

text \<open>Documents whose objects name no member twice. On them the canonical form decides \<open>same_json\<close>.\<close>

function distinct_keys :: "json \<Rightarrow> bool" where
  "distinct_keys (JArray vs) = list_all distinct_keys vs"
| "distinct_keys (JObject es) = (distinct (map fst es) \<and> list_all (\<lambda>(k, v). distinct_keys v) es)"
| "distinct_keys JNull = True"
| "distinct_keys (JBool b) = True"
| "distinct_keys (JNumber n) = True"
| "distinct_keys (JString s) = True"
  by pat_completeness auto
termination
  by (relation "measure size") (auto simp: less_Suc_eq_le size_list_estimation' dest: size_member_json)

lemma same_canonical:
  "distinct_keys v \<Longrightarrow> distinct_keys w \<Longrightarrow> canonicalize_json v = canonicalize_json w \<Longrightarrow> same_json v w"
proof (induction v arbitrary: w rule: distinct_keys.induct)
  case (1 vs)
  from "1.prems"(3) obtain ws where w: "w = JArray ws" by (cases w) (auto simp: Let_def)
  have "list_all2 (\<lambda>v w. canonicalize_json v = canonicalize_json w) vs ws"
    using "1.prems"(3) w by (simp add: list_eq_iff_nth_eq list_all2_conv_all_nth)
  then have "list_all2 same_json vs ws"
    using 1 w by (auto simp: list_all_iff list_all2_conv_all_nth)
  then show ?case unfolding w by (rule same_array)
next
  case (2 es)
  from "2.prems"(3) obtain fs where w: "w = JObject fs" by (cases w) (auto simp: Let_def)
  have dist: "distinct (map fst es)" "distinct (map fst fs)" using "2.prems" w by simp_all
  have look: "map_option canonicalize_json (map_of es k) = map_option canonicalize_json (map_of fs k)" for k
    using "2.prems"(3) unfolding w
    by (simp add: Let_def flip: map_of_canonical_members [OF dist(1)] map_of_canonical_members [OF dist(2)])
  have keys: "fst ` set es = fst ` set fs"
    by (auto simp: look simp flip: dom_map_of_conv_image_fst simp: dom_def) (metis look option.map_disc_iff option.exhaust)+
  have "same_json v u" if "(k, v) \<in> set es" "(k, u) \<in> set fs" for k v u
  proof -
    have "map_of es k = Some v" "map_of fs k = Some u" using that dist by simp_all
    then have "canonicalize_json v = canonicalize_json u" using look [of k] by simp
    then show ?thesis using "2.IH" [OF that(1) refl] "2.prems" that w by (force simp: list_all_iff)
  qed
  with dist keys show ?case unfolding w by (auto intro: same_object)
qed (case_tac w; auto simp: Let_def intro: same_json.intros)+

section \<open>What a digest of a struct binds\<close>

text \<open>
  The documented behaviour of the JSON printer that binding rests on: it prints different values
  differently (its output parses back to the value).
\<close>

definition json_injective :: "'cap platform \<Rightarrow> bool" where
  "json_injective P \<longleftrightarrow> (\<forall>v w b. json_to_vec P v = Inr b \<longrightarrow> json_to_vec P w = Inr b \<longrightarrow> v = w)"

lemma canonicalize_struct_lookup:
  assumes "distinct (map fst fs)"
  shows "\<exists>es. canonicalize_json (json_struct fs) = JObject es
    \<and> (\<forall>k. map_of es k = map_option canonicalize_json (map_of fs k))"
proof -
  have dist: "distinct (map fst (bt_collect fs))" using bt_collect_ok bt.entries_distinct by blast
  have "map_of (bt_collect fs) = map_of fs"
    using assms by (simp add: bt_collect_lookup map_of_mset_cong [of "rev fs" fs] hm_ok_def rev_map [symmetric])
  then show ?thesis
    using map_of_canonical_members [OF dist] by (simp add: json_struct_def Let_def)
qed

text \<open>
  Two structs with the same digest have the same members, up to the order of object members inside
  them, or the two encodings are a hash collision.
\<close>

definition digest_collision :: "'cap platform \<Rightarrow> string \<Rightarrow> string + json \<Rightarrow> string + json \<Rightarrow> bool" where
  "digest_collision P d v w \<longleftrightarrow> (\<exists>e e'. canonical_encoding P v = Inr e \<and> canonical_encoding P w = Inr e'
     \<and> hash_collision P (frame d e) (frame d e'))"

lemma canonical_encoding_inj:
  "json_injective P \<Longrightarrow> canonical_encoding P (Inr v) = Inr e \<Longrightarrow> canonical_encoding P (Inr w) = Inr e \<Longrightarrow>
   canonicalize_json v = canonicalize_json w"
  unfolding json_injective_def canonical_encoding_eq_Inr by blast

lemma struct_digest_binds:
  assumes inj: "json_injective P" and dist: "distinct (map fst fs)" "distinct (map fst fs')"
    and h: "canonical_digest P d (Inr (json_struct fs)) = Inr h"
    and h': "canonical_digest P d (Inr (json_struct fs')) = Inr h"
  shows "(\<forall>k. map_option canonicalize_json (map_of fs k) = map_option canonicalize_json (map_of fs' k))
    \<or> digest_collision P d (Inr (json_struct fs)) (Inr (json_struct fs'))"
proof -
  obtain e where e: "canonical_encoding P (Inr (json_struct fs)) = Inr e"
    using h by (auto simp: canonical_digest_eq_Inr)
  from canonical_digest_binds [OF h h'] show ?thesis
  proof
    assume "d = d \<and> canonical_encoding P (Inr (json_struct fs)) = canonical_encoding P (Inr (json_struct fs'))"
    with e have "canonicalize_json (json_struct fs) = canonicalize_json (json_struct fs')"
      using canonical_encoding_inj [OF inj] by metis
    then have "\<forall>k. map_option canonicalize_json (map_of fs k) = map_option canonicalize_json (map_of fs' k)"
      using canonicalize_struct_lookup [OF dist(1)] canonicalize_struct_lookup [OF dist(2)] by fastforce
    then show ?thesis ..
  qed (auto simp: digest_collision_def)
qed

lemma to_hex_injective [simp]: "to_hex a = to_hex b \<longleftrightarrow> a = b"
proof
  assume "to_hex a = to_hex b"
  then have "Inr (as_bytes a) = (Inr (as_bytes b) :: byte list result)"
    using decode_hex_pairs_to_hex by (metis to_hex_def)
  then show "a = b" by (simp add: digest.expand)
qed simp

lemma digest_value_inj [simp]: "digest_value a = digest_value b \<longleftrightarrow> a = b"
  by (simp add: digest_value_def)

lemma canonicalize_leaf [simp]:
  "canonicalize_json (digest_value d) = digest_value d"
  "canonicalize_json (json_u64 n) = json_u64 n" "canonicalize_json (json_byte b) = json_byte b"
  by (simp_all add: digest_value_def json_u64_def json_byte_def)

lemma canonicalize_leaf_option [simp]:
  "(\<And>x. canonicalize_json (f x) = f x) \<Longrightarrow> canonicalize_json (json_option f v) = json_option f v"
  by (simp add: json_option_def split: option.splits)

lemma json_u64_inj [simp]: "json_u64 a = json_u64 b \<longleftrightarrow> a = b"
  by (simp add: json_u64_def)

lemma json_option_inj:
  "(\<And>x y. f x = f y \<Longrightarrow> x = y) \<Longrightarrow> (\<And>x. f x \<noteq> JNull) \<Longrightarrow> json_option f a = json_option f b \<longleftrightarrow> a = b"
  by (auto simp: json_option_def split: option.splits)
    metis+

lemma digest_value_not_null [simp]: "digest_value d \<noteq> JNull"
  by (simp add: digest_value_def)

end
