(* ===== verification/AuthorityModel.thy ===== *)
theory AuthorityModel
  imports CanonicalDigest
begin

text \<open>
  The mission envelope (\<open>mission.rs\<close>) and the authority data (\<open>authority.rs\<close>): authority
  sets and their subset check, bound tools, capability manifests and their digest, signed lease
  certificates, mutable lease records and lease references.
\<close>

section \<open>The mission envelope\<close>

record 'cap mission_envelope =
  me_mission_id :: mission_id
  me_allowed_tools :: "tool_id list"
  me_allowed_capabilities :: "'cap list"
  me_policy_epoch :: u64
  me_organization_version :: u64
  me_active :: bool
  me_expires_at :: timestamp
  me_max_actions :: u64

definition is_usable_at :: "'cap mission_envelope \<Rightarrow> timestamp \<Rightarrow> bool" where
  "is_usable_at m now \<longleftrightarrow> me_active m \<and> me_max_actions m > 0 \<and> now < me_expires_at m"

definition allows_tool :: "'cap mission_envelope \<Rightarrow> tool_id \<Rightarrow> bool" where
  "allows_tool m t \<longleftrightarrow> list_ex (\<lambda>allowed. allowed = t) (me_allowed_tools m)"

definition allows_capability :: "'cap mission_envelope \<Rightarrow> 'cap \<Rightarrow> bool" where
  "allows_capability m c \<longleftrightarrow> list_ex (\<lambda>allowed. allowed = c) (me_allowed_capabilities m)"

definition contains_capability_all :: "'cap platform \<Rightarrow> 'cap mission_envelope \<Rightarrow> bool" where
  "contains_capability_all P m \<longleftrightarrow> list_ex (\<lambda>c. c = cap_all P) (me_allowed_capabilities m)"

section \<open>Authority sets\<close>

record 'cap authority_request =
  ar_capabilities :: "'cap list"

text \<open>The serialized form of a list of capabilities, and its canonical order.\<close>

definition capabilities_value :: "'cap platform \<Rightarrow> 'cap list \<Rightarrow> string + json" where
  "capabilities_value P caps = bindE (mapE (cap_to_value P) caps) (\<lambda>vs. Inr (JArray vs))"

definition capability_key :: "'cap platform \<Rightarrow> 'cap \<Rightarrow> byte list result" where
  "capability_key P capability =
     bindE (map_err canonical_error (cap_to_value P capability)) (\<lambda>value.
     canonical_value_bytes P value)"

definition canonical_capabilities :: "'cap platform \<Rightarrow> 'cap list \<Rightarrow> 'cap list result" where
  "canonical_capabilities P capabilities =
     bindE (mapE (\<lambda>capability. bindE (capability_key P capability) (\<lambda>key. Inr (key, capability)))
       capabilities) (\<lambda>keyed.
     Inr (map snd (dedup_by fst (sort_key fst keyed))))"

datatype 'cap authority_set = AuthoritySet (capabilities: "'cap list")

definition new_authority_set :: "'cap platform \<Rightarrow> 'cap list \<Rightarrow> 'cap authority_set result" where
  "new_authority_set P caps =
     (if list_ex (\<lambda>c. c = cap_all P) caps
      then err CapabilityAllForbidden ''Capability::All is forbidden in agent authority''
      else bindE (canonical_capabilities P caps) (\<lambda>cs. Inr (AuthoritySet cs)))"

definition covers :: "'cap platform \<Rightarrow> 'cap authority_set \<Rightarrow> 'cap \<Rightarrow> bool" where
  "covers P a required \<longleftrightarrow> list_ex (\<lambda>granted. cap_subset P required granted) (capabilities a)"

definition authority_subset :: "'cap platform \<Rightarrow> 'cap authority_set \<Rightarrow> 'cap authority_set \<Rightarrow> bool" where
  "authority_subset P a parent \<longleftrightarrow> list_all (covers P parent) (capabilities a)"

definition authority_set_value :: "'cap platform \<Rightarrow> 'cap authority_set \<Rightarrow> string + json" where
  "authority_set_value P a =
     bindE (capabilities_value P (capabilities a)) (\<lambda>cs. Inr (json_struct [(''capabilities'', cs)]))"

section \<open>Capability manifests\<close>

record 'cap permission_set =
  ps_capabilities :: "'cap list"

datatype bound_tool = BoundTool (bt_tool_id: tool_id) (bt_manifest_digest: digest)

instantiation bound_tool :: linorder
begin
definition less_eq_bound_tool :: "bound_tool \<Rightarrow> bound_tool \<Rightarrow> bool" where
  "less_eq_bound_tool a b \<longleftrightarrow> bt_tool_id a < bt_tool_id b
     \<or> bt_tool_id a = bt_tool_id b \<and> bt_manifest_digest a \<le> bt_manifest_digest b"
definition less_bound_tool :: "bound_tool \<Rightarrow> bound_tool \<Rightarrow> bool" where
  "less_bound_tool a b \<longleftrightarrow> bt_tool_id a < bt_tool_id b
     \<or> bt_tool_id a = bt_tool_id b \<and> bt_manifest_digest a < bt_manifest_digest b"
instance
  by standard (auto simp: less_eq_bound_tool_def less_bound_tool_def intro: bound_tool.expand)
end

record 'cap capability_manifest =
  cm_version :: u8
  cm_model_manifest_digest :: digest
  cm_approved_tools :: "bound_tool list"
  cm_permissions :: "'cap permission_set"
  cm_runtime_config_digest :: digest
  cm_tool_registry_root_digest :: digest

definition bound_tool_value :: "bound_tool \<Rightarrow> json" where
  "bound_tool_value t = json_struct
     [(''tool_id'', JString (bt_tool_id t)),
      (''tool_manifest_digest'', digest_value (bt_manifest_digest t))]"

definition permission_set_value :: "'cap platform \<Rightarrow> 'cap permission_set \<Rightarrow> string + json" where
  "permission_set_value P p =
     bindE (capabilities_value P (ps_capabilities p)) (\<lambda>cs. Inr (json_struct [(''capabilities'', cs)]))"

definition canonical_manifest_value ::
  "'cap platform \<Rightarrow> 'cap capability_manifest \<Rightarrow> bound_tool list \<Rightarrow> 'cap permission_set \<Rightarrow> string + json" where
  "canonical_manifest_value P m approved_tools permissions =
     bindE (permission_set_value P permissions) (\<lambda>permissions_json. Inr (json_struct
       [(''version'', json_byte (cm_version m)),
        (''model_manifest_digest'', digest_value (cm_model_manifest_digest m)),
        (''approved_tools'', JArray (map bound_tool_value approved_tools)),
        (''permissions'', permissions_json),
        (''runtime_config_digest'', digest_value (cm_runtime_config_digest m)),
        (''tool_registry_root_digest'', digest_value (cm_tool_registry_root_digest m))]))"

definition manifest_canonical_digest :: "'cap platform \<Rightarrow> 'cap capability_manifest \<Rightarrow> digest result" where
  "manifest_canonical_digest P m =
     (if first_repeat [] (map bt_tool_id (cm_approved_tools m)) \<noteq> None
      then err CapabilityManifestMismatch ''capability manifest contains duplicate tool identifiers''
      else
        let approved_tools = sort (cm_approved_tools m)
        in bindE (canonical_capabilities P (ps_capabilities (cm_permissions m))) (\<lambda>caps.
           canonical_digest P ''aeon-capability-manifest-v1''
             (canonical_manifest_value P m approved_tools \<lparr>ps_capabilities = caps\<rparr>)))"

section \<open>Lease certificates and records\<close>

type_synonym signature_bytes = "byte list"

definition signature_value :: "signature_bytes \<Rightarrow> json" where
  "signature_value s = JArray (map json_byte s)"

record lease_ref =
  lr_lease_id :: lease_id
  lr_certificate_digest :: digest

definition lease_ref_value :: "lease_ref \<Rightarrow> json" where
  "lease_ref_value r = json_struct
     [(''lease_id'', JString (lr_lease_id r)),
      (''certificate_digest'', digest_value (lr_certificate_digest r))]"

record 'cap authority_lease_certificate =
  lc_lease_id :: lease_id
  lc_mission_id :: mission_id
  lc_agent_id :: agent_id
  lc_parent_agent_id :: "agent_id option"
  lc_agent_identity_digest :: digest
  lc_issuer_identity_digest :: digest
  lc_issuer_key_id :: key_id
  lc_parent_lease :: "lease_ref option"
  lc_renewed_from :: "lease_ref option"
  lc_organization_version :: u64
  lc_policy_epoch :: u64
  lc_granted_authority :: "'cap authority_set"
  lc_delegable_authority :: "'cap authority_set"
  lc_capability_manifest_digest :: digest
  lc_semantic_context_digest :: digest
  lc_issued_at :: timestamp
  lc_expires_at :: timestamp
  lc_signature :: signature_bytes

text \<open>The members of a certificate that its signature covers: all but the signature itself.\<close>

definition lease_payload_fields ::
  "'cap platform \<Rightarrow> 'cap authority_lease_certificate \<Rightarrow> string + (string \<times> json) list" where
  "lease_payload_fields P c =
     bindE (authority_set_value P (lc_granted_authority c)) (\<lambda>granted.
     bindE (authority_set_value P (lc_delegable_authority c)) (\<lambda>delegable.
     Inr [(''lease_id'', JString (lc_lease_id c)),
          (''mission_id'', JString (lc_mission_id c)),
          (''agent_id'', JString (lc_agent_id c)),
          (''parent_agent_id'', json_option JString (lc_parent_agent_id c)),
          (''agent_identity_digest'', digest_value (lc_agent_identity_digest c)),
          (''issuer_identity_digest'', digest_value (lc_issuer_identity_digest c)),
          (''issuer_key_id'', JString (lc_issuer_key_id c)),
          (''parent_lease'', json_option lease_ref_value (lc_parent_lease c)),
          (''renewed_from'', json_option lease_ref_value (lc_renewed_from c)),
          (''organization_version'', json_u64 (lc_organization_version c)),
          (''policy_epoch'', json_u64 (lc_policy_epoch c)),
          (''granted_authority'', granted),
          (''delegable_authority'', delegable),
          (''capability_manifest_digest'', digest_value (lc_capability_manifest_digest c)),
          (''semantic_context_digest'', digest_value (lc_semantic_context_digest c)),
          (''issued_at'', JString (rfc3339 P (lc_issued_at c))),
          (''expires_at'', JString (rfc3339 P (lc_expires_at c)))]))"

definition lease_signing_payload ::
  "'cap platform \<Rightarrow> 'cap authority_lease_certificate \<Rightarrow> byte list result" where
  "lease_signing_payload P c =
     canonical_bytes P ''aeon-authority-lease-certificate-v2''
       (bindE (lease_payload_fields P c) (\<lambda>fields. Inr (json_struct fields)))"

definition lease_certificate_value ::
  "'cap platform \<Rightarrow> 'cap authority_lease_certificate \<Rightarrow> string + json" where
  "lease_certificate_value P c =
     bindE (lease_payload_fields P c) (\<lambda>fields.
     Inr (json_struct (fields @ [(''signature'', signature_value (lc_signature c))])))"

definition lease_verify_signature ::
  "'cap platform \<Rightarrow> 'cap authority_lease_certificate \<Rightarrow> byte list \<Rightarrow> unit result" where
  "lease_verify_signature P c verifying_key =
     (if length (lc_signature c) \<noteq> 64
      then err AuthorizationInvalid ''lease certificate signature must contain exactly 64 bytes''
      else bindE (lease_signing_payload P c) (\<lambda>payload.
        if ed25519_verify P verifying_key payload (lc_signature c) then Inr ()
        else err AuthorizationInvalid ''lease certificate signature verification failed''))"

datatype lease_state = Active | Paused | Revoked | Expired | Retired

record lease_record =
  le_lease_id :: lease_id
  le_state :: lease_state
  le_generation :: u64
  le_revoked_at :: "timestamp option"
  le_revocation_reason :: "string option"
  le_renewed_by :: "lease_id option"

definition active_lease_record :: "lease_id \<Rightarrow> lease_record" where
  "active_lease_record i = \<lparr>le_lease_id = i, le_state = Active, le_generation = 0,
     le_revoked_at = None, le_revocation_reason = None, le_renewed_by = None\<rparr>"

section \<open>Canonical capabilities\<close>

text \<open>
  The documented behaviour of the capability serialization that canonical order rests on: different
  capabilities have different canonical bytes.
\<close>

definition cap_keys_inj :: "'cap platform \<Rightarrow> bool" where
  "cap_keys_inj P \<longleftrightarrow>
     (\<forall>a b k. capability_key P a = Inr k \<longrightarrow> capability_key P b = Inr k \<longrightarrow> a = b)"

definition keyed_capability :: "'cap platform \<Rightarrow> 'cap \<Rightarrow> (byte list \<times> 'cap) result" where
  "keyed_capability P c = bindE (capability_key P c) (\<lambda>key. Inr (key, c))"

lemma canonical_capabilities_keyed:
  "canonical_capabilities P cs = bindE (mapE (keyed_capability P) cs)
     (\<lambda>keyed. Inr (map snd (dedup_by fst (sort_key fst keyed))))"
  by (simp add: canonical_capabilities_def keyed_capability_def [abs_def])

definition cap_key :: "'cap platform \<Rightarrow> 'cap \<Rightarrow> byte list" where
  "cap_key P c = projr (capability_key P c)"

lemma mapE_keyed:
  "mapE (keyed_capability P) cs = Inr keyed \<longleftrightarrow>
     (\<forall>c \<in> set cs. \<exists>k. capability_key P c = Inr k) \<and> keyed = map (\<lambda>c. (cap_key P c, c)) cs"
proof (induction cs arbitrary: keyed)
  case Nil
  then show ?case by auto
next
  case (Cons c cs)
  then show ?case
    by (cases "capability_key P c") (auto simp: keyed_capability_def cap_key_def bindE_eq_Inr)
qed

lemma canonical_capabilities_eq_Inr:
  "canonical_capabilities P cs = Inr ds \<longleftrightarrow>
     (\<forall>c \<in> set cs. \<exists>k. capability_key P c = Inr k) \<and>
     ds = map snd (dedup_by fst (sort_key fst (map (\<lambda>c. (cap_key P c, c)) cs)))"
  by (auto simp: canonical_capabilities_keyed bindE_eq_Inr mapE_keyed)

lemma cap_key_inj:
  "cap_keys_inj P \<Longrightarrow> (\<forall>c \<in> A. \<exists>k. capability_key P c = Inr k) \<Longrightarrow> inj_on (cap_key P) A"
  by (rule inj_onI) (metis cap_key_def cap_keys_inj_def sum.sel(2))

lemma keyed_strict_unique:
  assumes "sorted_wrt (<) (map fst xs)" and "sorted_wrt (<) (map fst ys)" and "set xs = set ys"
  shows "xs = (ys :: ('k::linorder \<times> 'a) list)"
proof (rule bt_unique)
  show ok: "bt_ok xs" "bt_ok ys" using assms by (simp_all add: bt_ok_def)
  then show "map_of xs = map_of ys"
    using assms(3) bt.entries_lookup [of xs] bt.entries_lookup [of ys]
    by (intro ext) (metis option.collapse not_None_eq)
qed

text \<open>The canonical list has the capabilities of the request, each once, in the order of their bytes.\<close>

lemma canonical_capabilities_set:
  assumes inj: "cap_keys_inj P" and ok: "canonical_capabilities P cs = Inr ds"
  shows "set ds = set cs" and "distinct ds" and "sorted (map (cap_key P) ds)"
    and "set (dedup_by fst (sort_key fst (map (\<lambda>c. (cap_key P c, c)) cs))) = (\<lambda>c. (cap_key P c, c)) ` set cs"
proof -
  let ?ks = "sort_key fst (map (\<lambda>c. (cap_key P c, c)) cs)"
  have keys: "\<forall>c \<in> set cs. \<exists>k. capability_key P c = Inr k" and ds: "ds = map snd (dedup_by fst ?ks)"
    using ok by (simp_all add: canonical_capabilities_eq_Inr)
  note injk = cap_key_inj [OF inj keys]
  have sub: "set (dedup_by fst ?ks) \<subseteq> (\<lambda>c. (cap_key P c, c)) ` set cs"
    using dedup_by_subset [of fst ?ks] by auto
  show eq: "set (dedup_by fst ?ks) = (\<lambda>c. (cap_key P c, c)) ` set cs"
  proof (rule antisym [OF sub], rule subsetI)
    fix x assume "x \<in> (\<lambda>c. (cap_key P c, c)) ` set cs"
    then obtain c where c: "c \<in> set cs" "x = (cap_key P c, c)" by blast
    then have "cap_key P c \<in> fst ` set ?ks" by force
    then have "cap_key P c \<in> fst ` set (dedup_by fst ?ks)" by (simp only: dedup_by_keys)
    then obtain d where "(cap_key P c, d) \<in> set (dedup_by fst ?ks)" by force
    moreover from this sub have "d \<in> set cs" "cap_key P d = cap_key P c" by auto
    ultimately show "x \<in> set (dedup_by fst ?ks)" using injk c by (simp add: inj_on_eq_iff)
  qed
  then show "set ds = set cs" by (simp add: ds image_image)
  have strict: "sorted_wrt (<) (map fst (dedup_by fst ?ks))"
    by (rule dedup_by_strict) simp
  have mapk: "map (cap_key P) ds = map fst (dedup_by fst ?ks)"
    using sub by (auto simp: ds)
  show "sorted (map (cap_key P) ds)" using strict mapk by (simp add: strict_sorted_iff)
  show "distinct ds" using strict mapk by (metis distinct_map strict_sorted_iff)
qed

lemma canonical_capabilities_cong:
  assumes "cap_keys_inj P" and "set cs = set cs'"
  shows "canonical_capabilities P cs = Inr ds \<longleftrightarrow> canonical_capabilities P cs' = Inr ds"
proof -
  have "dedup_by fst (sort_key fst (map (\<lambda>c. (cap_key P c, c)) cs))
      = dedup_by fst (sort_key fst (map (\<lambda>c. (cap_key P c, c)) cs'))"
    if keys: "\<forall>c \<in> set cs. \<exists>k. capability_key P c = Inr k"
  proof (rule keyed_strict_unique)
    show "sorted_wrt (<) (map fst (dedup_by fst (sort_key fst (map (\<lambda>c. (cap_key P c, c)) cs))))"
      "sorted_wrt (<) (map fst (dedup_by fst (sort_key fst (map (\<lambda>c. (cap_key P c, c)) cs'))))"
      by (rule dedup_by_strict, simp)+
    show "set (dedup_by fst (sort_key fst (map (\<lambda>c. (cap_key P c, c)) cs)))
        = set (dedup_by fst (sort_key fst (map (\<lambda>c. (cap_key P c, c)) cs')))"
      using canonical_capabilities_set(4) [OF assms(1), of cs] canonical_capabilities_set(4) [OF assms(1), of cs']
        keys assms(2) by (auto simp: canonical_capabilities_eq_Inr)
  qed
  then show ?thesis using assms(2) by (auto simp: canonical_capabilities_eq_Inr)
qed

section \<open>Manifest digests\<close>

definition same_manifest :: "'cap capability_manifest \<Rightarrow> 'cap capability_manifest \<Rightarrow> bool" where
  "same_manifest m m' \<longleftrightarrow> cm_version m = cm_version m'
     \<and> cm_model_manifest_digest m = cm_model_manifest_digest m'
     \<and> mset (cm_approved_tools m) = mset (cm_approved_tools m')
     \<and> set (ps_capabilities (cm_permissions m)) = set (ps_capabilities (cm_permissions m'))
     \<and> cm_runtime_config_digest m = cm_runtime_config_digest m'
     \<and> cm_tool_registry_root_digest m = cm_tool_registry_root_digest m'"

lemma canonical_capabilities_total:
  "(\<forall>c \<in> set cs. \<exists>k. capability_key P c = Inr k) \<Longrightarrow> \<exists>ds. canonical_capabilities P cs = Inr ds"
  by (simp add: canonical_capabilities_eq_Inr)

lemma manifest_digest_same:
  assumes inj: "cap_keys_inj P" and same: "same_manifest m m'"
    and ok: "manifest_canonical_digest P m = Inr d"
  shows "manifest_canonical_digest P m' = Inr d"
proof -
  obtain cs where cs: "canonical_capabilities P (ps_capabilities (cm_permissions m)) = Inr cs"
    and dist: "distinct (map bt_tool_id (cm_approved_tools m))"
    and dig: "canonical_digest P ''aeon-capability-manifest-v1''
      (canonical_manifest_value P m (sort (cm_approved_tools m)) \<lparr>ps_capabilities = cs\<rparr>) = Inr d"
    using ok unfolding manifest_canonical_digest_def Let_def if_err_eq_Inr bindE_eq_Inr
      first_repeat_distinct not_not by blast
  have "canonical_capabilities P (ps_capabilities (cm_permissions m')) = Inr cs"
    using canonical_capabilities_cong [OF inj, of "ps_capabilities (cm_permissions m)"
        "ps_capabilities (cm_permissions m')" cs] cs same by (simp add: same_manifest_def)
  moreover have "sort (cm_approved_tools m') = sort (cm_approved_tools m)"
    using same by (intro properties_for_sort) (simp_all add: same_manifest_def)
  moreover have "mset (map bt_tool_id (cm_approved_tools m')) = mset (map bt_tool_id (cm_approved_tools m))"
    using same by (simp add: same_manifest_def)
  then have "distinct (map bt_tool_id (cm_approved_tools m'))"
    using dist by (metis mset_eq_imp_distinct_iff)
  ultimately show ?thesis
    using dig same by (simp add: manifest_canonical_digest_def canonical_manifest_value_def same_manifest_def)
qed

lemma bound_tool_value_inj: "bound_tool_value a = bound_tool_value b \<Longrightarrow> a = b"
proof -
  assume "bound_tool_value a = bound_tool_value b"
  then have "map_of (bt_collect [(''tool_id'', JString (bt_tool_id a)), (''tool_manifest_digest'', digest_value (bt_manifest_digest a))])
      = map_of (bt_collect [(''tool_id'', JString (bt_tool_id b)), (''tool_manifest_digest'', digest_value (bt_manifest_digest b))])"
    by (simp only: bound_tool_value_def json_struct_def json.inject)
  from fun_cong [OF this, of "''tool_id''"] fun_cong [OF this, of "''tool_manifest_digest''"]
  show "a = b" by (simp add: bt_collect_lookup bound_tool.expand)
qed

lemma canonicalize_bound_tool [simp]: "canonicalize_json (bound_tool_value t) = bound_tool_value t"
  by (rule canonicalize_id)
    (simp add: bound_tool_value_def json_struct_def bt_collect_def bt_ok_def digest_value_def)

text \<open>The value a manifest digest hashes: tools sorted, capabilities canonical.\<close>

definition manifest_value :: "'cap platform \<Rightarrow> 'cap capability_manifest \<Rightarrow> string + json" where
  "manifest_value P m = canonical_manifest_value P m (sort (cm_approved_tools m))
     \<lparr>ps_capabilities = projr (canonical_capabilities P (ps_capabilities (cm_permissions m)))\<rparr>"

lemma manifest_digest_value:
  "manifest_canonical_digest P m = Inr d \<Longrightarrow>
   distinct (map bt_tool_id (cm_approved_tools m))
   \<and> canonical_digest P ''aeon-capability-manifest-v1'' (manifest_value P m) = Inr d
   \<and> (\<exists>cs. canonical_capabilities P (ps_capabilities (cm_permissions m)) = Inr cs)"
  unfolding manifest_canonical_digest_def Let_def if_err_eq_Inr bindE_eq_Inr first_repeat_distinct not_not
    manifest_value_def by (metis sum.sel(2))

lemma map_bound_tool_value_inj:
  "map bound_tool_value xs = map bound_tool_value ys \<Longrightarrow> xs = ys"
  by (rule map_injective) (auto simp: inj_def dest: bound_tool_value_inj)

lemma json_byte_inj [simp]: "json_byte a = json_byte b \<longleftrightarrow> a = b"
proof
  assume "json_byte a = json_byte b"
  then have "(ucast a :: u64) = ucast b" by (simp add: json_byte_def)
  then have "bit (ucast a :: u64) n = bit (ucast b :: u64) n" for n by simp
  then have eq: "n < 64 \<Longrightarrow> bit a n = bit b n" for n by (auto simp: bit_simps)
  show "a = b" by (rule bit_word_eqI) (rule eq, simp)
qed simp

lemma manifest_digest_binds:
  assumes inj: "json_injective P"
    and d: "manifest_canonical_digest P m = Inr d" and d': "manifest_canonical_digest P m' = Inr d"
  shows "(cm_version m = cm_version m' \<and> cm_model_manifest_digest m = cm_model_manifest_digest m'
      \<and> mset (cm_approved_tools m) = mset (cm_approved_tools m')
      \<and> cm_runtime_config_digest m = cm_runtime_config_digest m'
      \<and> cm_tool_registry_root_digest m = cm_tool_registry_root_digest m')
    \<or> digest_collision P ''aeon-capability-manifest-v1'' (manifest_value P m) (manifest_value P m')"
proof -
  let ?fields = "\<lambda>m pj. [(''version'', json_byte (cm_version m)),
        (''model_manifest_digest'', digest_value (cm_model_manifest_digest m)),
        (''approved_tools'', JArray (map bound_tool_value (sort (cm_approved_tools m)))),
        (''permissions'', pj),
        (''runtime_config_digest'', digest_value (cm_runtime_config_digest m)),
        (''tool_registry_root_digest'', digest_value (cm_tool_registry_root_digest m))]"
  have val: "\<exists>pj. manifest_value P m = Inr (json_struct (?fields m pj))"
    if "canonical_digest P ''aeon-capability-manifest-v1'' (manifest_value P m) = Inr d" for m
    using that unfolding manifest_value_def canonical_manifest_value_def canonical_digest_eq_Inr
      canonical_encoding_eq_Inr bindE_eq_Inr by blast
  obtain pj pj' where v: "manifest_value P m = Inr (json_struct (?fields m pj))"
    "manifest_value P m' = Inr (json_struct (?fields m' pj'))"
    using val manifest_digest_value [OF d] manifest_digest_value [OF d'] by blast
  have "(\<forall>k. map_option canonicalize_json (map_of (?fields m pj) k)
        = map_option canonicalize_json (map_of (?fields m' pj') k))
      \<or> digest_collision P ''aeon-capability-manifest-v1'' (Inr (json_struct (?fields m pj)))
          (Inr (json_struct (?fields m' pj')))"
    using manifest_digest_value [OF d] manifest_digest_value [OF d'] v
    by (intro struct_digest_binds [OF inj]) simp_all
  then show ?thesis
  proof
    assume eq: "\<forall>k. map_option canonicalize_json (map_of (?fields m pj) k)
        = map_option canonicalize_json (map_of (?fields m' pj') k)"
    have "sort (cm_approved_tools m) = sort (cm_approved_tools m')"
      using eq [rule_format, of "''approved_tools''"] by (simp add: comp_def map_bound_tool_value_inj)
    then have "mset (cm_approved_tools m) = mset (cm_approved_tools m')" by (metis mset_sort)
    with eq [rule_format, of "''version''"] eq [rule_format, of "''model_manifest_digest''"]
      eq [rule_format, of "''runtime_config_digest''"] eq [rule_format, of "''tool_registry_root_digest''"]
    show ?thesis by simp
  qed (simp add: v)
qed

end
