(* ===== verification/AgentIdentityModel.thy ===== *)
theory AgentIdentityModel
  imports AuthorityModel
begin

text \<open>
  Key custody and signed agent identities (\<open>identity.rs\<close>), and the contract every signed
  document of the runtime fulfils: its signature covers a payload that does not contain the
  signature, and verification accepts exactly a 64-byte signature the verifier accepts for it.
\<close>

section \<open>Key custody\<close>

text \<open>
  A custody object offers its key id, its public key and a signing operation. The in-memory custody
  holds an Ed25519 signing key; the signature it computes is the external library's.
\<close>

record key_custody =
  kc_key_id :: key_id
  kc_verifying_key :: "byte list"
  kc_sign :: "byte list \<Rightarrow> signature_bytes result"

definition in_memory_custody ::
  "key_id \<Rightarrow> byte list \<Rightarrow> (byte list \<Rightarrow> signature_bytes) \<Rightarrow> key_custody" where
  "in_memory_custody i public_key ed25519_sign =
     \<lparr>kc_key_id = i, kc_verifying_key = public_key, kc_sign = (\<lambda>payload. Inr (ed25519_sign payload))\<rparr>"

section \<open>Identity certificates\<close>

record identity_certificate =
  ic_agent_id :: agent_id
  ic_key_id :: key_id
  ic_verifying_key_bytes :: "byte list"
  ic_issuer_agent_id :: "agent_id option"
  ic_issuer_key_id :: key_id
  ic_issued_at :: timestamp
  ic_signature :: signature_bytes

definition unsigned_identity ::
  "agent_id \<Rightarrow> key_id \<Rightarrow> byte list \<Rightarrow> agent_id option \<Rightarrow> key_id \<Rightarrow> timestamp \<Rightarrow> identity_certificate" where
  "unsigned_identity agent_id key_id verifying_key issuer_agent_id issuer_key_id issued_at =
     \<lparr>ic_agent_id = agent_id, ic_key_id = key_id, ic_verifying_key_bytes = verifying_key,
      ic_issuer_agent_id = issuer_agent_id, ic_issuer_key_id = issuer_key_id,
      ic_issued_at = issued_at, ic_signature = []\<rparr>"

definition identity_payload_fields ::
  "'cap platform \<Rightarrow> identity_certificate \<Rightarrow> (string \<times> json) list" where
  "identity_payload_fields P c =
     [(''agent_id'', JString (ic_agent_id c)),
      (''key_id'', JString (ic_key_id c)),
      (''verifying_key_bytes'', JArray (map json_byte (ic_verifying_key_bytes c))),
      (''issuer_agent_id'', json_option JString (ic_issuer_agent_id c)),
      (''issuer_key_id'', JString (ic_issuer_key_id c)),
      (''issued_at'', JString (rfc3339 P (ic_issued_at c)))]"

definition identity_signing_payload :: "'cap platform \<Rightarrow> identity_certificate \<Rightarrow> byte list result" where
  "identity_signing_payload P c =
     canonical_bytes P ''aeon-agent-identity-certificate-v1''
       (Inr (json_struct (identity_payload_fields P c)))"

definition identity_value :: "'cap platform \<Rightarrow> identity_certificate \<Rightarrow> json" where
  "identity_value P c =
     json_struct (identity_payload_fields P c @ [(''signature'', signature_value (ic_signature c))])"

definition identity_canonical_digest :: "'cap platform \<Rightarrow> identity_certificate \<Rightarrow> digest result" where
  "identity_canonical_digest P c =
     canonical_digest P ''aeon-agent-identity-certificate-v1'' (Inr (identity_value P c))"

definition identity_verifying_key :: "'cap platform \<Rightarrow> identity_certificate \<Rightarrow> byte list result" where
  "identity_verifying_key P c =
     (if key_from_bytes P (ic_verifying_key_bytes c) then Inr (ic_verifying_key_bytes c)
      else err IdentityInvalid ''identity certificate contains an invalid Ed25519 public key'')"

definition identity_verify_signature ::
  "'cap platform \<Rightarrow> identity_certificate \<Rightarrow> byte list \<Rightarrow> unit result" where
  "identity_verify_signature P c issuer_verifying_key =
     bindE (identity_verifying_key P c) (\<lambda>_.
     if length (ic_signature c) \<noteq> 64
     then err IdentityInvalid ''identity certificate signature must contain exactly 64 bytes''
     else bindE (identity_signing_payload P c) (\<lambda>payload.
       if ed25519_verify P issuer_verifying_key payload (ic_signature c) then Inr ()
       else err IdentityInvalid ''identity certificate signature verification failed''))"

definition verify_issued_by ::
  "'cap platform \<Rightarrow> identity_certificate \<Rightarrow> identity_certificate \<Rightarrow> unit result" where
  "verify_issued_by P c issuer =
     (if ic_issuer_agent_id c \<noteq> Some (ic_agent_id issuer) \<or> ic_issuer_key_id c \<noteq> ic_key_id issuer
      then err IdentityInvalid ''identity certificate issuer binding is invalid''
      else bindE (identity_verifying_key P issuer) (\<lambda>key. identity_verify_signature P c key))"

definition verify_self_signed :: "'cap platform \<Rightarrow> identity_certificate \<Rightarrow> unit result" where
  "verify_self_signed P c =
     (if ic_issuer_agent_id c \<noteq> None \<or> ic_issuer_key_id c \<noteq> ic_key_id c
      then err IdentityInvalid ''self-signed identity certificate issuer binding is invalid''
      else bindE (identity_verifying_key P c) (\<lambda>key. identity_verify_signature P c key))"

lemma identity_verifying_key_ok [result_simps]:
  "identity_verifying_key P c = Inr k \<longleftrightarrow>
     key_from_bytes P (ic_verifying_key_bytes c) \<and> k = ic_verifying_key_bytes c"
  by (auto simp: identity_verifying_key_def)

section \<open>The contract of a signed document\<close>

locale signed_document =
  fixes doc_payload :: "'c \<Rightarrow> byte list result"
    and doc_signature :: "'c \<Rightarrow> signature_bytes"
    and with_signature :: "signature_bytes \<Rightarrow> 'c \<Rightarrow> 'c"
    and doc_wf :: "'c \<Rightarrow> bool"
    and doc_verify :: "'c \<Rightarrow> byte list \<Rightarrow> unit result"
    and good_signature :: "byte list \<Rightarrow> byte list \<Rightarrow> signature_bytes \<Rightarrow> bool"
  assumes payload_with_signature: "doc_payload (with_signature s c) = doc_payload c"
    and signature_with_signature: "doc_signature (with_signature s c) = s"
    and wf_with_signature: "doc_wf (with_signature s c) = doc_wf c"
    and verify_iff: "doc_verify c k = Inr () \<longleftrightarrow> doc_wf c \<and> length (doc_signature c) = 64 \<and>
      (\<exists>p. doc_payload c = Inr p \<and> good_signature k p (doc_signature c))"
begin

text \<open>Signing a well-formed document with an honest custody yields one that verifies.\<close>

lemma signed_verifies:
  assumes "doc_wf c" and "doc_payload c = Inr p" and "length s = 64" and "good_signature k p s"
  shows "doc_verify (with_signature s c) k = Inr ()"
  using assms
  by (simp add: verify_iff payload_with_signature signature_with_signature wf_with_signature)

text \<open>
  A signature moved to another document verifies there only if the key accepts it for both payloads:
  with a binding signature the two documents have the same payload.
\<close>

lemma transplanted_signature:
  assumes "doc_verify c k = Inr ()" and "doc_verify (with_signature (doc_signature c) c') k = Inr ()"
    and binding: "\<And>p q s. good_signature k p s \<Longrightarrow> good_signature k q s \<Longrightarrow> p = q"
  shows "doc_payload c = doc_payload c'"
  using assms(1,2) binding
  by (auto simp: verify_iff payload_with_signature signature_with_signature)

end

interpretation lease_doc: signed_document "lease_signing_payload P" lc_signature
  "\<lambda>s c. c\<lparr>lc_signature := s\<rparr>" "\<lambda>_. True" "lease_verify_signature P" "ed25519_verify P" for P
  by unfold_locales
    (auto simp: lease_signing_payload_def lease_payload_fields_def lease_verify_signature_def result_simps)

interpretation identity_doc: signed_document "identity_signing_payload P" ic_signature
  "\<lambda>s c. c\<lparr>ic_signature := s\<rparr>" "\<lambda>c. key_from_bytes P (ic_verifying_key_bytes c)"
  "identity_verify_signature P" "ed25519_verify P" for P
  by unfold_locales
    (auto simp: identity_signing_payload_def identity_payload_fields_def identity_verify_signature_def
      result_simps)

end
