(* ===== verification/ChainValidation.thy ===== *)
theory ChainValidation
  imports AgentIdentityModel
begin

text \<open>
  The state of the authority kernel (the types of \<open>authority_kernel.rs\<close>) and the checks of
  \<open>authority_kernel/validation.rs\<close>: activity and generation of a lease record, attenuation of
  authority and manifests, the identity chain with its cache of validated agents, the certificate
  entry, and the walk along the authority chain from a leaf lease to its root. The breadth-first
  search for descendants and the cascading revocation are in theory \<open>LeaseTree\<close>.
\<close>

section \<open>Kernel state\<close>

definition MAX_AUTHORITY_CHAIN_DEPTH :: nat where
  "MAX_AUTHORITY_CHAIN_DEPTH = 32"

datatype authority_event_kind =
    IdentityRegistered
  | LeaseIssued
  | LeaseDelegated
  | LeasePaused
  | LeaseResumed
  | LeaseRevoked
  | LeaseExpired
  | LeaseRenewed

record authority_event =
  ae_sequence :: u64
  ae_lease_id :: lease_id
  ae_related_lease_id :: "lease_id option"
  ae_kind :: authority_event_kind
  ae_occurred_at :: timestamp

record 'cap lease_entry =
  en_certificate :: "'cap authority_lease_certificate"
  en_record :: lease_record
  en_manifest :: "'cap capability_manifest"

record 'cap authority_state =
  as_mission :: "'cap mission_envelope"
  as_root_lease_id :: lease_id
  as_identities :: "(agent_id, identity_certificate) hash_map"
  as_custodians :: "(agent_id, key_custody) hash_map"
  as_leases :: "(lease_id, 'cap lease_entry) hash_map"
  as_events :: "authority_event list"

record validated_authority =
  va_leaf_lease_id :: lease_id
  va_leaf_expires_at :: timestamp
  va_agent_identity_digest :: digest
  va_capability_manifest_digest :: digest
  va_semantic_context_digest :: digest
  va_chain :: "lease_ref list"
  va_observed_generations :: "(lease_id \<times> u64) list"

section \<open>Checks on one lease\<close>

definition require_generation :: "lease_record \<Rightarrow> u64 \<Rightarrow> unit result" where
  "require_generation r expected_generation =
     (if le_generation r \<noteq> expected_generation
      then err LeaseGenerationMismatch ''lease generation does not match the expected value''
      else Inr ())"

definition validate_active_record ::
  "'cap lease_entry \<Rightarrow> u64 option \<Rightarrow> timestamp \<Rightarrow> unit result" where
  "validate_active_record entry expected_generation now =
     bindE (case expected_generation of
              Some expected \<Rightarrow> require_generation (en_record entry) expected
            | None \<Rightarrow> Inr ()) (\<lambda>_.
     if le_state (en_record entry) \<noteq> Active \<or> now \<ge> lc_expires_at (en_certificate entry)
     then err LeaseInactive ''authority chain contains an inactive or expired lease''
     else Inr ())"

definition authority_is_subset_of_capabilities ::
  "'cap platform \<Rightarrow> 'cap authority_set \<Rightarrow> 'cap list \<Rightarrow> bool" where
  "authority_is_subset_of_capabilities P child parent \<longleftrightarrow>
     list_all (\<lambda>requested. list_ex (\<lambda>granted. cap_subset P requested granted) parent)
       (capabilities child)"

definition authority_is_subset_of ::
  "'cap platform \<Rightarrow> 'cap authority_set \<Rightarrow> 'cap authority_set \<Rightarrow> bool" where
  "authority_is_subset_of P child parent \<longleftrightarrow>
     authority_is_subset_of_capabilities P child (capabilities parent)"

definition validate_authority_sets ::
  "'cap platform \<Rightarrow> 'cap authority_set \<Rightarrow> 'cap authority_set \<Rightarrow> unit result" where
  "validate_authority_sets P granted delegable =
     (if list_ex (\<lambda>c. c = cap_all P) (capabilities granted @ capabilities delegable)
      then err CapabilityAllForbidden ''Capability::All is forbidden in authority leases''
      else if \<not> authority_is_subset_of P delegable granted
      then err DelegationInvalid ''delegable authority exceeds granted authority''
      else Inr ())"

definition validate_manifest ::
  "'cap platform \<Rightarrow> 'cap capability_manifest \<Rightarrow> 'cap authority_set \<Rightarrow> unit result" where
  "validate_manifest P manifest authority =
     (if cm_version manifest \<noteq> 1
      then err CapabilityManifestMismatch ''unsupported capability manifest version''
      else bindE (canonical_capabilities P (ps_capabilities (cm_permissions manifest))) (\<lambda>permitted.
        bindE (canonical_capabilities P (capabilities authority)) (\<lambda>granted.
        if permitted \<noteq> granted
        then err CapabilityManifestMismatch ''manifest permissions do not equal granted authority''
        else if first_repeat [] (map bt_tool_id (cm_approved_tools manifest)) \<noteq> None
        then err CapabilityManifestMismatch ''manifest contains duplicate tool bindings''
        else Inr ())))"

definition validate_manifest_attenuation ::
  "'cap capability_manifest \<Rightarrow> 'cap capability_manifest \<Rightarrow> unit result" where
  "validate_manifest_attenuation child parent =
     (if cm_version child \<noteq> cm_version parent
       \<or> cm_model_manifest_digest child \<noteq> cm_model_manifest_digest parent
       \<or> cm_runtime_config_digest child \<noteq> cm_runtime_config_digest parent
       \<or> cm_tool_registry_root_digest child \<noteq> cm_tool_registry_root_digest parent
       \<or> list_ex (\<lambda>child_tool. \<not> list_ex (\<lambda>parent_tool. parent_tool = child_tool)
            (cm_approved_tools parent)) (cm_approved_tools child)
      then err CapabilityManifestMismatch ''child capability manifest is not attenuated from its parent''
      else Inr ())"

definition make_lease_ref :: "'cap platform \<Rightarrow> 'cap authority_lease_certificate \<Rightarrow> lease_ref result" where
  "make_lease_ref P certificate =
     bindE (canonical_digest P ''aeon-authority-lease-certificate-record-v2''
       (lease_certificate_value P certificate)) (\<lambda>d.
     Inr \<lparr>lr_lease_id = lc_lease_id certificate, lr_certificate_digest = d\<rparr>)"

definition validate_parent_child ::
  "'cap platform \<Rightarrow> 'cap lease_entry \<Rightarrow> 'cap lease_entry \<Rightarrow> unit result" where
  "validate_parent_child P parent child =
     bindE (ok_or DelegationInvalid ''child parent reference missing''
       (lc_parent_lease (en_certificate child))) (\<lambda>parent_ref.
     bindE (make_lease_ref P (en_certificate parent)) (\<lambda>expected_ref.
     if parent_ref \<noteq> expected_ref
       \<or> lc_parent_agent_id (en_certificate child) \<noteq> Some (lc_agent_id (en_certificate parent))
       \<or> lc_expires_at (en_certificate child) > lc_expires_at (en_certificate parent)
       \<or> \<not> authority_is_subset_of P (lc_granted_authority (en_certificate child))
            (lc_delegable_authority (en_certificate parent))
     then err DelegationInvalid ''child lease is not an attenuated exact child of its parent''
     else bindE (validate_authority_sets P (lc_granted_authority (en_certificate child))
            (lc_delegable_authority (en_certificate child))) (\<lambda>_.
       validate_manifest_attenuation (en_manifest child) (en_manifest parent))))"

section \<open>The identity chain\<close>

text \<open>
  The loop walks from an agent to its issuer until it meets an agent of the cache or the self-signed
  root. It collects the agents whose certificates it verified, which join the cache only when the
  whole walk succeeded.
\<close>

function identity_loop ::
  "'cap platform \<Rightarrow> 'cap authority_state \<Rightarrow> agent_id set \<Rightarrow> agent_id list \<Rightarrow> agent_id list \<Rightarrow> agent_id
   \<Rightarrow> agent_id list result" where
  "identity_loop P s cache visited validated current =
     (if current \<in> cache then Inr validated
      else if current \<in> set visited
      then err IdentityInvalid ''agent identity chain contains a cycle''
      else
        let visited' = visited @ [current]
        in bindE (ok_or IdentityInvalid ''agent identity is missing'' (map_of (as_identities s) current))
          (\<lambda>identity.
           case ic_issuer_agent_id identity of
             Some issuer_agent_id \<Rightarrow>
               if length visited' \<ge> MAX_AUTHORITY_CHAIN_DEPTH
               then err IdentityInvalid ''agent identity chain exceeds the maximum supported depth''
               else bindE (ok_or IdentityInvalid ''identity issuer is missing''
                      (map_of (as_identities s) issuer_agent_id)) (\<lambda>issuer.
                 if ic_issuer_key_id identity \<noteq> ic_key_id issuer
                 then err IdentityInvalid ''identity issuer key binding is invalid''
                 else bindE (identity_verifying_key P issuer) (\<lambda>key.
                   bindE (identity_verify_signature P identity key) (\<lambda>_.
                   identity_loop P s cache visited' (validated @ [current]) issuer_agent_id)))
           | None \<Rightarrow>
               if ic_issuer_key_id identity \<noteq> ic_key_id identity
               then err IdentityInvalid ''root identity is not self-issued''
               else bindE (identity_verifying_key P identity) (\<lambda>key.
                 bindE (identity_verify_signature P identity key) (\<lambda>_.
                 Inr (validated @ [current])))))"
  by pat_completeness auto
termination
  by (relation "measure (\<lambda>(P, s, cache, visited, validated, current).
        MAX_AUTHORITY_CHAIN_DEPTH - length visited)")
    (auto simp: MAX_AUTHORITY_CHAIN_DEPTH_def)

declare identity_loop.simps [simp del]

definition validate_identity_chain ::
  "'cap platform \<Rightarrow> 'cap authority_state \<Rightarrow> agent_id \<Rightarrow> agent_id set \<Rightarrow> agent_id set result" where
  "validate_identity_chain P s leaf_agent_id cache =
     (if leaf_agent_id \<in> cache then Inr cache
      else bindE (identity_loop P s cache [] [] leaf_agent_id) (\<lambda>validated.
        Inr (cache \<union> set validated)))"

section \<open>The certificate entry\<close>

definition validate_certificate_entry ::
  "'cap platform \<Rightarrow> 'cap authority_state \<Rightarrow> 'cap lease_entry \<Rightarrow> agent_id set \<Rightarrow> agent_id set result" where
  "validate_certificate_entry P s entry cache =
     (let certificate = en_certificate entry; mission = as_mission s
      in bindE (if lc_mission_id certificate \<noteq> me_mission_id mission
                  \<or> lc_organization_version certificate \<noteq> me_organization_version mission
                  \<or> lc_policy_epoch certificate \<noteq> me_policy_epoch mission
                then Inr True
                else bindE (manifest_canonical_digest P (en_manifest entry)) (\<lambda>d.
                  Inr (lc_capability_manifest_digest certificate \<noteq> d))) (\<lambda>mismatch.
         if mismatch
         then err CapabilityManifestMismatch ''lease bindings differ from current mission or manifest''
         else bindE (ok_or IdentityInvalid ''lease subject identity missing''
                (map_of (as_identities s) (lc_agent_id certificate))) (\<lambda>subject.
           bindE (validate_identity_chain P s (lc_agent_id certificate) cache) (\<lambda>cache'.
           bindE (identity_canonical_digest P subject) (\<lambda>subject_digest.
           if subject_digest \<noteq> lc_agent_identity_digest certificate
           then err IdentityInvalid ''lease subject identity digest mismatch''
           else
             let issuer_agent_id = (case lc_parent_agent_id certificate of
                   Some a \<Rightarrow> a | None \<Rightarrow> lc_agent_id certificate)
             in bindE (ok_or IdentityInvalid ''lease issuer identity missing''
                  (map_of (as_identities s) issuer_agent_id)) (\<lambda>issuer.
               bindE (identity_canonical_digest P issuer) (\<lambda>issuer_digest.
               if issuer_digest \<noteq> lc_issuer_identity_digest certificate
                 \<or> ic_key_id issuer \<noteq> lc_issuer_key_id certificate
               then err IdentityInvalid ''lease issuer identity binding mismatch''
               else bindE (identity_verifying_key P issuer) (\<lambda>key.
                 bindE (lease_verify_signature P certificate key) (\<lambda>_.
                 case lc_renewed_from certificate of
                   None \<Rightarrow> Inr cache'
                 | Some renewed_from \<Rightarrow>
                     bindE (ok_or DelegationInvalid ''renewal predecessor lease missing''
                       (map_of (as_leases s) (lr_lease_id renewed_from))) (\<lambda>predecessor.
                     bindE (make_lease_ref P (en_certificate predecessor)) (\<lambda>predecessor_ref.
                     if renewed_from \<noteq> predecessor_ref
                       \<or> lc_agent_id (en_certificate predecessor) \<noteq> lc_agent_id certificate
                       \<or> lc_mission_id (en_certificate predecessor) \<noteq> lc_mission_id certificate
                       \<or> le_state (en_record predecessor) \<noteq> Retired
                       \<or> le_renewed_by (en_record predecessor) \<noteq> Some (lc_lease_id certificate)
                     then err DelegationInvalid ''renewal predecessor binding is invalid''
                     else Inr cache')))))))))))"

section \<open>The authority chain\<close>

function chain_loop ::
  "'cap platform \<Rightarrow> 'cap authority_state \<Rightarrow> lease_id \<Rightarrow> u64 option \<Rightarrow> timestamp
   \<Rightarrow> lease_id list \<Rightarrow> agent_id set \<Rightarrow> (lease_id \<times> 'cap lease_entry) list \<Rightarrow> lease_id
   \<Rightarrow> (lease_id \<times> 'cap lease_entry) list result" where
  "chain_loop P s leaf expected_leaf_generation now visited cache chain_entries current_id =
     (if current_id \<in> set visited
      then err DelegationInvalid ''authority chain contains a cycle''
      else bindE (ok_or DelegationInvalid ''authority chain lease missing''
             (map_of (as_leases s) current_id)) (\<lambda>entry.
        let expected = (if current_id = leaf then expected_leaf_generation else None)
        in bindE (validate_active_record entry expected now) (\<lambda>_.
           bindE (validate_certificate_entry P s entry cache) (\<lambda>cache'.
           let chain_entries' = chain_entries @ [(current_id, entry)]
           in case lc_parent_lease (en_certificate entry) of
                Some parent \<Rightarrow>
                  if length chain_entries' \<ge> MAX_AUTHORITY_CHAIN_DEPTH
                  then err DelegationInvalid ''authority chain exceeds the maximum supported depth''
                  else chain_loop P s leaf expected_leaf_generation now (visited @ [current_id])
                         cache' chain_entries' (lr_lease_id parent)
              | None \<Rightarrow> Inr chain_entries'))))"
  by pat_completeness auto
termination
  by (relation "measure (\<lambda>(P, s, leaf, expected, now, visited, cache, chain_entries, current_id).
        MAX_AUTHORITY_CHAIN_DEPTH - length chain_entries)")
    (auto simp: MAX_AUTHORITY_CHAIN_DEPTH_def)

declare chain_loop.simps [simp del]

text \<open>The windows of two neighbours of the reversed chain, parent first.\<close>

fun validate_windows ::
  "'cap platform \<Rightarrow> (lease_id \<times> 'cap lease_entry) list \<Rightarrow> unit result" where
  "validate_windows P (a # b # rest) =
     bindE (validate_parent_child P (snd a) (snd b)) (\<lambda>_. validate_windows P (b # rest))"
| "validate_windows P _ = Inr ()"

definition validate_chain ::
  "'cap platform \<Rightarrow> 'cap authority_state \<Rightarrow> lease_id \<Rightarrow> u64 option \<Rightarrow> 'cap capability_manifest
   \<Rightarrow> timestamp \<Rightarrow> validated_authority result" where
  "validate_chain P s leaf_lease_id expected_leaf_generation current_manifest now =
     bindE (chain_loop P s leaf_lease_id expected_leaf_generation now [] {} [] leaf_lease_id)
       (\<lambda>entries.
     let chain_entries = rev entries
     in bindE (validate_windows P chain_entries) (\<lambda>_.
        bindE (ok_or DelegationInvalid ''authority chain is empty''
          (if chain_entries = [] then None else Some (snd (last chain_entries)))) (\<lambda>leaf.
        bindE (manifest_canonical_digest P (en_manifest leaf)) (\<lambda>leaf_digest.
        bindE (manifest_canonical_digest P current_manifest) (\<lambda>current_digest.
        if leaf_digest \<noteq> current_digest
        then err CapabilityManifestMismatch ''current capability manifest does not match the lease''
        else bindE (mapE (\<lambda>(_, entry). make_lease_ref P (en_certificate entry)) chain_entries) (\<lambda>chain.
          Inr \<lparr>va_leaf_lease_id = leaf_lease_id,
               va_leaf_expires_at = lc_expires_at (en_certificate leaf),
               va_agent_identity_digest = lc_agent_identity_digest (en_certificate leaf),
               va_capability_manifest_digest = lc_capability_manifest_digest (en_certificate leaf),
               va_semantic_context_digest = lc_semantic_context_digest (en_certificate leaf),
               va_chain = chain,
               va_observed_generations =
                 map (\<lambda>(lease_id, entry). (lease_id, le_generation (en_record entry))) chain_entries\<rparr>))))))"

definition push_event ::
  "lease_id \<Rightarrow> lease_id option \<Rightarrow> authority_event_kind \<Rightarrow> timestamp
   \<Rightarrow> 'cap authority_state \<Rightarrow> 'cap authority_state" where
  "push_event lease_id related_lease_id kind occurred_at s =
     s\<lparr>as_events := as_events s @
        [\<lparr>ae_sequence = of_nat (length (as_events s)) + 1, ae_lease_id = lease_id,
          ae_related_lease_id = related_lease_id, ae_kind = kind, ae_occurred_at = occurred_at\<rparr>]\<rparr>"

section \<open>What the checks establish\<close>

lemma require_generation_ok [result_simps]:
  "require_generation r g = Inr u \<longleftrightarrow> le_generation r = g"
  by (simp add: require_generation_def)

definition entry_live :: "'cap lease_entry \<Rightarrow> timestamp \<Rightarrow> bool" where
  "entry_live e now \<longleftrightarrow> le_state (en_record e) = Active \<and> now < lc_expires_at (en_certificate e)"

lemma validate_active_record_ok [result_simps]:
  "validate_active_record e g now = Inr u \<longleftrightarrow>
     entry_live e now \<and> (\<forall>x. g = Some x \<longrightarrow> le_generation (en_record e) = x)"
  by (cases g) (auto simp: validate_active_record_def entry_live_def result_simps)

lemma authority_is_subset_of_iff:
  "authority_is_subset_of P a b \<longleftrightarrow>
     (\<forall>c \<in> set (capabilities a). \<exists>d \<in> set (capabilities b). cap_subset P c d)"
  by (simp add: authority_is_subset_of_def authority_is_subset_of_capabilities_def
      list_all_iff list_ex_iff)

lemma validate_authority_sets_ok [result_simps]:
  "validate_authority_sets P g d = Inr u \<longleftrightarrow>
     cap_all P \<notin> set (capabilities g) \<and> cap_all P \<notin> set (capabilities d) \<and> authority_is_subset_of P d g"
  by (auto simp: validate_authority_sets_def list_ex_iff)

lemma validate_manifest_attenuation_ok [result_simps]:
  "validate_manifest_attenuation c p = Inr u \<longleftrightarrow>
     cm_version c = cm_version p \<and> cm_model_manifest_digest c = cm_model_manifest_digest p
     \<and> cm_runtime_config_digest c = cm_runtime_config_digest p
     \<and> cm_tool_registry_root_digest c = cm_tool_registry_root_digest p
     \<and> set (cm_approved_tools c) \<subseteq> set (cm_approved_tools p)"
  by (auto simp: validate_manifest_attenuation_def list_ex_iff)

lemma validate_manifest_ok [result_simps]:
  "validate_manifest P m a = Inr u \<longleftrightarrow>
     cm_version m = 1 \<and> distinct (map bt_tool_id (cm_approved_tools m)) \<and>
     (\<exists>cs. canonical_capabilities P (ps_capabilities (cm_permissions m)) = Inr cs \<and>
           canonical_capabilities P (capabilities a) = Inr cs)"
  by (auto simp: validate_manifest_def result_simps)

lemma make_lease_ref_id: "make_lease_ref P c = Inr r \<Longrightarrow> lr_lease_id r = lc_lease_id c"
  by (auto simp: make_lease_ref_def result_simps)

definition attenuated_child :: "'cap platform \<Rightarrow> 'cap lease_entry \<Rightarrow> 'cap lease_entry \<Rightarrow> bool" where
  "attenuated_child P parent child \<longleftrightarrow>
     (\<exists>r. lc_parent_lease (en_certificate child) = Some r \<and> make_lease_ref P (en_certificate parent) = Inr r)
     \<and> lc_parent_agent_id (en_certificate child) = Some (lc_agent_id (en_certificate parent))
     \<and> lc_expires_at (en_certificate child) \<le> lc_expires_at (en_certificate parent)
     \<and> authority_is_subset_of P (lc_granted_authority (en_certificate child))
         (lc_delegable_authority (en_certificate parent))
     \<and> validate_authority_sets P (lc_granted_authority (en_certificate child))
         (lc_delegable_authority (en_certificate child)) = Inr ()
     \<and> validate_manifest_attenuation (en_manifest child) (en_manifest parent) = Inr ()"

lemma validate_parent_child_ok [result_simps]:
  "validate_parent_child P p c = Inr u \<longleftrightarrow> attenuated_child P p c"
  unfolding validate_parent_child_def attenuated_child_def bindE_eq_Inr ok_or_eq_Inr if_err_eq_Inr
  by auto

section \<open>Identity paths\<close>

definition issued_by :: "'cap platform \<Rightarrow> identity_certificate \<Rightarrow> identity_certificate \<Rightarrow> bool" where
  "issued_by P identity issuer \<longleftrightarrow>
     ic_issuer_key_id identity = ic_key_id issuer \<and> key_from_bytes P (ic_verifying_key_bytes issuer)
     \<and> identity_verify_signature P identity (ic_verifying_key_bytes issuer) = Inr ()"

text \<open>The abstract notion: a path of verified certificates from an agent to a self-signed root.\<close>

inductive identity_path :: "'cap platform \<Rightarrow> (agent_id \<rightharpoonup> identity_certificate) \<Rightarrow> agent_id \<Rightarrow> agent_id list \<Rightarrow> bool"
  for P ids where
  path_root: "ids a = Some i \<Longrightarrow> ic_issuer_agent_id i = None \<Longrightarrow> issued_by P i i \<Longrightarrow>
     identity_path P ids a [a]"
| path_issued: "ids a = Some i \<Longrightarrow> ic_issuer_agent_id i = Some b \<Longrightarrow> ids b = Some j \<Longrightarrow>
     issued_by P i j \<Longrightarrow> identity_path P ids b bs \<Longrightarrow> identity_path P ids a (a # bs)"

definition identity_trusted :: "'cap platform \<Rightarrow> (agent_id \<rightharpoonup> identity_certificate) \<Rightarrow> agent_id \<Rightarrow> bool" where
  "identity_trusted P ids a \<longleftrightarrow> (\<exists>as. identity_path P ids a as)"

lemma identity_path_hd: "identity_path P ids a as \<Longrightarrow> \<exists>bs. as = a # bs"
  by (auto elim: identity_path.cases)

lemma identity_path_unique:
  "identity_path P ids a as \<Longrightarrow> identity_path P ids a bs \<Longrightarrow> as = bs"
proof (induction arbitrary: bs rule: identity_path.induct)
  case (path_root a i)
  from path_root.prems path_root.hyps show ?case by (auto elim: identity_path.cases)
next
  case (path_issued a i b j cs)
  from path_issued.prems path_issued.hyps obtain ds where "bs = a # ds" "identity_path P ids b ds"
    by (auto elim: identity_path.cases)
  with path_issued.IH show ?case by simp
qed

lemma identity_path_suffix:
  "identity_path P ids a as \<Longrightarrow> x \<in> set as \<Longrightarrow>
   \<exists>xs. identity_path P ids x xs \<and> set xs \<subseteq> set as \<and> length xs \<le> length as
     \<and> (x \<noteq> a \<longrightarrow> length xs < length as)"
proof (induction rule: identity_path.induct)
  case (path_root a i)
  then show ?case by (auto intro: identity_path.path_root)
next
  case (path_issued a i b j bs)
  show ?case
  proof (cases "x = a")
    case True
    have "identity_path P ids a (a # bs)"
      using path_issued.hyps by (rule identity_path.path_issued)
    with True show ?thesis by blast
  next
    case False
    with path_issued.prems have "x \<in> set bs" by simp
    then obtain xs where "identity_path P ids x xs" "set xs \<subseteq> set bs" "length xs \<le> length bs"
      using path_issued.IH by blast
    then show ?thesis by (intro exI [of _ xs]) auto
  qed
qed

lemma identity_path_distinct: "identity_path P ids a as \<Longrightarrow> distinct as"
proof (induction rule: identity_path.induct)
  case (path_root a i)
  then show ?case by simp
next
  case (path_issued a i b j bs)
  have whole: "identity_path P ids a (a # bs)"
    using path_issued.hyps by (rule identity_path.path_issued)
  have "a \<notin> set bs"
  proof
    assume "a \<in> set bs"
    then obtain xs where "identity_path P ids a xs" "length xs \<le> length bs"
      using path_issued.hyps(5) identity_path_suffix by blast
    with whole show False using identity_path_unique by fastforce
  qed
  with path_issued.IH show ?case by simp
qed

lemma identity_path_mono:
  "identity_path P ids a as \<Longrightarrow> (\<And>b i. ids b = Some i \<Longrightarrow> ids' b = Some i) \<Longrightarrow> identity_path P ids' a as"
  by (induction rule: identity_path.induct) (blast intro: identity_path.intros)+

text \<open>One round of the walk.\<close>

lemma identity_loop_Inr:
  "identity_loop P s cache visited validated cur = Inr r \<longleftrightarrow>
     (if cur \<in> cache then r = validated
      else cur \<notin> set visited \<and> (\<exists>i. map_of (as_identities s) cur = Some i \<and>
        (case ic_issuer_agent_id i of
           None \<Rightarrow> issued_by P i i \<and> r = validated @ [cur]
         | Some b \<Rightarrow> length visited + 1 < MAX_AUTHORITY_CHAIN_DEPTH \<and>
             (\<exists>j. map_of (as_identities s) b = Some j \<and> issued_by P i j \<and>
                identity_loop P s cache (visited @ [cur]) (validated @ [cur]) b = Inr r))))"
proof (cases "map_of (as_identities s) cur")
  case None
  then show ?thesis by (subst identity_loop.simps) auto
next
  case (Some i)
  show ?thesis
  proof (cases "ic_issuer_agent_id i")
    case None
    with Some show ?thesis
      by (subst identity_loop.simps) (auto simp: Let_def result_simps issued_by_def)
  next
    case issuer: (Some b)
    show ?thesis
    proof (cases "map_of (as_identities s) b")
      case None
      with Some issuer show ?thesis by (subst identity_loop.simps) (auto simp: Let_def)
    next
      case (Some j)
      with \<open>map_of (as_identities s) cur = Some i\<close> issuer show ?thesis
        by (subst identity_loop.simps) (auto simp: Let_def result_simps issued_by_def)
    qed
  qed
qed

text \<open>The walk succeeds only along verified certificates, whatever the trusted cache holds.\<close>

lemma identity_loop_sound:
  assumes "identity_loop P s cache visited validated cur = Inr r"
    and cache: "\<forall>c \<in> cache. identity_trusted P (map_of (as_identities s)) c"
  shows "identity_trusted P (map_of (as_identities s)) cur \<and>
    (\<exists>p. r = validated @ p \<and> (\<forall>a \<in> set p. identity_trusted P (map_of (as_identities s)) a)
       \<and> (cur \<in> cache \<or> cur \<in> set p))"
  using assms(1)
proof (induction "MAX_AUTHORITY_CHAIN_DEPTH - length visited" arbitrary: visited validated cur
    rule: less_induct)
  case less
  let ?ids = "map_of (as_identities s)"
  show ?case
  proof (cases "cur \<in> cache")
    case True
    with less.prems cache show ?thesis by (auto simp: identity_loop_Inr [of P s cache visited])
  next
    case False
    with less.prems obtain i where i: "?ids cur = Some i" and
      body: "case ic_issuer_agent_id i of
           None \<Rightarrow> issued_by P i i \<and> r = validated @ [cur]
         | Some b \<Rightarrow> length visited + 1 < MAX_AUTHORITY_CHAIN_DEPTH \<and>
             (\<exists>j. ?ids b = Some j \<and> issued_by P i j \<and>
                identity_loop P s cache (visited @ [cur]) (validated @ [cur]) b = Inr r)"
      by (auto simp: identity_loop_Inr [of P s cache visited])
    show ?thesis
    proof (cases "ic_issuer_agent_id i")
      case None
      with body have "issued_by P i i" "r = validated @ [cur]" by auto
      with i None show ?thesis
        by (auto simp: identity_trusted_def intro: identity_path.path_root)
    next
      case (Some b)
      with body obtain j where j: "?ids b = Some j" "issued_by P i j"
        and len: "length visited + 1 < MAX_AUTHORITY_CHAIN_DEPTH"
        and rest: "identity_loop P s cache (visited @ [cur]) (validated @ [cur]) b = Inr r" by auto
      have smaller: "MAX_AUTHORITY_CHAIN_DEPTH - length (visited @ [cur])
          < MAX_AUTHORITY_CHAIN_DEPTH - length visited" using len by simp
      obtain p where tb: "identity_trusted P ?ids b"
        and r: "r = (validated @ [cur]) @ p" "\<forall>a \<in> set p. identity_trusted P ?ids a"
        using less.hyps [OF smaller rest] by blast
      have "identity_trusted P ?ids cur"
        using tb identity_path.path_issued [where P = P, OF i Some j] by (auto simp: identity_trusted_def)
      with r show ?thesis by (intro conjI exI [of _ "cur # p"]) auto
    qed
  qed
qed

lemma validate_identity_chain_sound:
  assumes "validate_identity_chain P s a cache = Inr cache'"
    and "\<forall>c \<in> cache. identity_trusted P (map_of (as_identities s)) c"
  shows "a \<in> cache' \<and> cache \<subseteq> cache' \<and> (\<forall>c \<in> cache'. identity_trusted P (map_of (as_identities s)) c)"
proof (cases "a \<in> cache")
  case True
  with assms show ?thesis by (simp add: validate_identity_chain_def)
next
  case False
  with assms(1) obtain r where "identity_loop P s cache [] [] a = Inr r" "cache' = cache \<union> set r"
    by (auto simp: validate_identity_chain_def result_simps)
  with identity_loop_sound [OF this(1) assms(2)] False assms(2) show ?thesis by auto
qed

text \<open>The walk succeeds along every verified path within the depth bound.\<close>

lemma identity_loop_complete:
  assumes "identity_path P (map_of (as_identities s)) cur as"
    and "length visited + length as \<le> MAX_AUTHORITY_CHAIN_DEPTH" and "set visited \<inter> set as = {}"
  shows "\<exists>p. identity_loop P s cache visited validated cur = Inr (validated @ p) \<and> set p \<subseteq> set as"
  using assms
proof (induction arbitrary: visited validated rule: identity_path.induct)
  case (path_root a i)
  then have "identity_loop P s cache visited validated a
      = Inr (validated @ (if a \<in> cache then [] else [a]))"
    by (subst identity_loop_Inr) auto
  then show ?case by (intro exI [of _ "if a \<in> cache then [] else [a]"]) simp
next
  case (path_issued a i b j bs)
  have dist: "distinct (a # bs)"
    using identity_path.path_issued [where P = P, OF path_issued.hyps] by (rule identity_path_distinct)
  obtain b' where bs: "bs = b # b'" using identity_path_hd [OF path_issued.hyps(5)] by blast
  show ?case
  proof (cases "a \<in> cache")
    case True
    then show ?thesis by (auto simp: identity_loop_Inr)
  next
    case False
    have "\<exists>p. identity_loop P s cache (visited @ [a]) (validated @ [a]) b = Inr ((validated @ [a]) @ p)
        \<and> set p \<subseteq> set bs"
      using path_issued.prems dist by (intro path_issued.IH) auto
    then obtain p where "identity_loop P s cache (visited @ [a]) (validated @ [a]) b
        = Inr ((validated @ [a]) @ p)" "set p \<subseteq> set bs" by blast
    moreover have "length visited + 1 < MAX_AUTHORITY_CHAIN_DEPTH"
      using path_issued.prems(1) bs by simp
    ultimately have "identity_loop P s cache visited validated a = Inr (validated @ (a # p))"
      using False path_issued.hyps path_issued.prems(2)
      by (subst identity_loop_Inr) auto
    then show ?thesis using \<open>set p \<subseteq> set bs\<close> by (intro exI [of _ "a # p"]) auto
  qed
qed

lemma validate_identity_chain_complete:
  assumes "identity_path P (map_of (as_identities s)) a as" and "length as \<le> MAX_AUTHORITY_CHAIN_DEPTH"
  shows "\<exists>cache'. validate_identity_chain P s a cache = Inr cache'"
  using identity_loop_complete [OF assms(1), of "[]" cache "[]"] assms(2)
  by (auto simp: validate_identity_chain_def)

section \<open>Certified entries\<close>

definition issuer_agent :: "'cap authority_lease_certificate \<Rightarrow> agent_id" where
  "issuer_agent c = (case lc_parent_agent_id c of Some a \<Rightarrow> a | None \<Rightarrow> lc_agent_id c)"

definition renewal_bound ::
  "'cap platform \<Rightarrow> (lease_id \<rightharpoonup> 'cap lease_entry) \<Rightarrow> 'cap authority_lease_certificate \<Rightarrow> bool" where
  "renewal_bound P leases c \<longleftrightarrow> (case lc_renewed_from c of None \<Rightarrow> True | Some r \<Rightarrow>
     (\<exists>p. leases (lr_lease_id r) = Some p \<and> make_lease_ref P (en_certificate p) = Inr r
        \<and> lc_agent_id (en_certificate p) = lc_agent_id c \<and> lc_mission_id (en_certificate p) = lc_mission_id c
        \<and> le_state (en_record p) = Retired \<and> le_renewed_by (en_record p) = Some (lc_lease_id c)))"

definition bound_to_mission :: "'cap mission_envelope \<Rightarrow> 'cap authority_lease_certificate \<Rightarrow> bool" where
  "bound_to_mission m c \<longleftrightarrow> lc_mission_id c = me_mission_id m
     \<and> lc_organization_version c = me_organization_version m \<and> lc_policy_epoch c = me_policy_epoch m"

definition signed_by_issuer ::
  "'cap platform \<Rightarrow> (agent_id \<rightharpoonup> identity_certificate) \<Rightarrow> 'cap authority_lease_certificate \<Rightarrow> bool" where
  "signed_by_issuer P ids c \<longleftrightarrow> (\<exists>subject issuer.
     ids (lc_agent_id c) = Some subject
     \<and> identity_canonical_digest P subject = Inr (lc_agent_identity_digest c)
     \<and> ids (issuer_agent c) = Some issuer
     \<and> identity_canonical_digest P issuer = Inr (lc_issuer_identity_digest c)
     \<and> ic_key_id issuer = lc_issuer_key_id c \<and> key_from_bytes P (ic_verifying_key_bytes issuer)
     \<and> lease_verify_signature P c (ic_verifying_key_bytes issuer) = Inr ())"

definition entry_certified ::
  "'cap platform \<Rightarrow> 'cap authority_state \<Rightarrow> 'cap lease_entry \<Rightarrow> bool" where
  "entry_certified P s e \<longleftrightarrow> bound_to_mission (as_mission s) (en_certificate e)
     \<and> manifest_canonical_digest P (en_manifest e) = Inr (lc_capability_manifest_digest (en_certificate e))
     \<and> signed_by_issuer P (map_of (as_identities s)) (en_certificate e)
     \<and> renewal_bound P (map_of (as_leases s)) (en_certificate e)"

lemma certificate_tail_ok:
  "(case lc_renewed_from c of
      None \<Rightarrow> Inr cache'
    | Some r \<Rightarrow>
        bindE (ok_or DelegationInvalid m1 (map_of (as_leases s) (lr_lease_id r))) (\<lambda>p.
        bindE (make_lease_ref P (en_certificate p)) (\<lambda>r'.
        if r \<noteq> r' \<or> lc_agent_id (en_certificate p) \<noteq> lc_agent_id c
          \<or> lc_mission_id (en_certificate p) \<noteq> lc_mission_id c
          \<or> le_state (en_record p) \<noteq> Retired \<or> le_renewed_by (en_record p) \<noteq> Some (lc_lease_id c)
        then err DelegationInvalid m2 else Inr cache'))) = Inr x
   \<longleftrightarrow> renewal_bound P (map_of (as_leases s)) c \<and> x = cache'"
  unfolding renewal_bound_def
  by (cases "lc_renewed_from c")
    (auto simp: bindE_eq_Inr ok_or_eq_Inr)

lemma validate_certificate_entry_ok [result_simps]:
  "validate_certificate_entry P s e cache = Inr cache' \<longleftrightarrow>
     entry_certified P s e \<and> validate_identity_chain P s (lc_agent_id (en_certificate e)) cache = Inr cache'"
  unfolding validate_certificate_entry_def Let_def bindE_eq_Inr ok_or_eq_Inr if_err_eq_Inr
    certificate_tail_ok issuer_agent_def [symmetric] identity_verifying_key_ok
    entry_certified_def signed_by_issuer_def bound_to_mission_def
  by (auto simp: result_simps split: if_splits)

section \<open>Authority paths\<close>

text \<open>The abstract notion: the leases from a leaf along the parent references to a root.\<close>

inductive lease_path ::
  "(lease_id \<rightharpoonup> 'cap lease_entry) \<Rightarrow> lease_id \<Rightarrow> (lease_id \<times> 'cap lease_entry) list \<Rightarrow> bool"
  for leases where
  lease_root: "leases l = Some e \<Longrightarrow> lc_parent_lease (en_certificate e) = None \<Longrightarrow>
     lease_path leases l [(l, e)]"
| lease_child: "leases l = Some e \<Longrightarrow> lc_parent_lease (en_certificate e) = Some r \<Longrightarrow>
     lease_path leases (lr_lease_id r) es \<Longrightarrow> lease_path leases l ((l, e) # es)"

lemma lease_path_hd: "lease_path leases l es \<Longrightarrow> \<exists>e fs. es = (l, e) # fs \<and> leases l = Some e"
  by (auto elim: lease_path.cases)

lemma lease_path_entries: "lease_path leases l es \<Longrightarrow> (k, e) \<in> set es \<Longrightarrow> leases k = Some e"
  by (induction rule: lease_path.induct) auto

lemma lease_path_unique: "lease_path leases l es \<Longrightarrow> lease_path leases l fs \<Longrightarrow> es = fs"
proof (induction arbitrary: fs rule: lease_path.induct)
  case (lease_root l e)
  from lease_root.prems lease_root.hyps show ?case by (auto elim: lease_path.cases)
next
  case (lease_child l e r es)
  from lease_child.prems lease_child.hyps obtain gs
    where "fs = (l, e) # gs" "lease_path leases (lr_lease_id r) gs"
    by (auto elim: lease_path.cases)
  with lease_child.IH show ?case by simp
qed

lemma lease_path_suffix:
  "lease_path leases l es \<Longrightarrow> k \<in> fst ` set es \<Longrightarrow>
   \<exists>fs. lease_path leases k fs \<and> set fs \<subseteq> set es \<and> length fs \<le> length es"
proof (induction rule: lease_path.induct)
  case (lease_root l e)
  then show ?case by (auto intro: lease_path.lease_root)
next
  case (lease_child l e r es)
  show ?case
  proof (cases "k = l")
    case True
    have "lease_path leases l ((l, e) # es)" using lease_child.hyps by (rule lease_path.lease_child)
    with True show ?thesis by blast
  next
    case False
    with lease_child.prems have "k \<in> fst ` set es" by auto
    then obtain fs where "lease_path leases k fs" "set fs \<subseteq> set es" "length fs \<le> length es"
      using lease_child.IH by blast
    then show ?thesis by (intro exI [of _ fs]) auto
  qed
qed

lemma lease_path_distinct: "lease_path leases l es \<Longrightarrow> distinct (map fst es)"
proof (induction rule: lease_path.induct)
  case (lease_root l e)
  then show ?case by simp
next
  case (lease_child l e r es)
  have whole: "lease_path leases l ((l, e) # es)" using lease_child.hyps by (rule lease_path.lease_child)
  have "l \<notin> fst ` set es"
  proof
    assume "l \<in> fst ` set es"
    then obtain fs where "lease_path leases l fs" "length fs \<le> length es"
      using lease_child.hyps(3) lease_path_suffix by blast
    with whole show False using lease_path_unique by fastforce
  qed
  with lease_child.IH show ?case by simp
qed

lemma validate_windows_ok [result_simps]:
  "validate_windows P xs = Inr u \<longleftrightarrow> successively (\<lambda>p c. attenuated_child P (snd p) (snd c)) xs"
  by (induction P xs rule: validate_windows.induct) (auto simp: result_simps)

lemma chain_loop_Inr:
  "chain_loop P s leaf g now visited cache acc cur = Inr r \<longleftrightarrow>
     cur \<notin> set visited \<and> (\<exists>e cache'. map_of (as_leases s) cur = Some e \<and> entry_live e now
       \<and> (cur = leaf \<longrightarrow> (\<forall>x. g = Some x \<longrightarrow> le_generation (en_record e) = x))
       \<and> entry_certified P s e
       \<and> validate_identity_chain P s (lc_agent_id (en_certificate e)) cache = Inr cache'
       \<and> (case lc_parent_lease (en_certificate e) of
            None \<Rightarrow> r = acc @ [(cur, e)]
          | Some p \<Rightarrow> length acc + 1 < MAX_AUTHORITY_CHAIN_DEPTH \<and>
              chain_loop P s leaf g now (visited @ [cur]) cache' (acc @ [(cur, e)]) (lr_lease_id p) = Inr r))"
proof (cases "map_of (as_leases s) cur")
  case None
  then show ?thesis by (subst chain_loop.simps) auto
next
  case (Some e)
  show ?thesis
  proof (cases "lc_parent_lease (en_certificate e)")
    case None
    with Some show ?thesis
      by (subst chain_loop.simps) (auto simp: Let_def result_simps)
  next
    case parent: (Some p)
    with Some show ?thesis
      by (subst chain_loop.simps) (auto simp: Let_def result_simps)
  qed
qed

lemma chain_loop_sound:
  assumes "chain_loop P s leaf g now visited cache acc cur = Inr r"
    and "\<forall>c \<in> cache. identity_trusted P (map_of (as_identities s)) c"
    and "length acc < MAX_AUTHORITY_CHAIN_DEPTH" and "leaf \<in> insert cur (set visited)"
  shows "\<exists>es. r = acc @ es \<and> lease_path (map_of (as_leases s)) cur es
    \<and> length r \<le> MAX_AUTHORITY_CHAIN_DEPTH
    \<and> (\<forall>(l, e) \<in> set es. entry_live e now \<and> entry_certified P s e
         \<and> identity_trusted P (map_of (as_identities s)) (lc_agent_id (en_certificate e))
         \<and> (l = leaf \<longrightarrow> (\<forall>x. g = Some x \<longrightarrow> le_generation (en_record e) = x)))"
  using assms
proof (induction "MAX_AUTHORITY_CHAIN_DEPTH - length acc" arbitrary: visited cache acc cur
    rule: less_induct)
  case less
  obtain e cache' where e: "map_of (as_leases s) cur = Some e" "entry_live e now" "entry_certified P s e"
    "cur = leaf \<longrightarrow> (\<forall>x. g = Some x \<longrightarrow> le_generation (en_record e) = x)"
    and ident: "validate_identity_chain P s (lc_agent_id (en_certificate e)) cache = Inr cache'"
    and body: "case lc_parent_lease (en_certificate e) of
            None \<Rightarrow> r = acc @ [(cur, e)]
          | Some p \<Rightarrow> length acc + 1 < MAX_AUTHORITY_CHAIN_DEPTH \<and>
              chain_loop P s leaf g now (visited @ [cur]) cache' (acc @ [(cur, e)]) (lr_lease_id p) = Inr r"
    using less.prems(1) unfolding chain_loop_Inr [of P s leaf g now visited] by blast
  note trust = validate_identity_chain_sound [OF ident less.prems(2)]
  show ?case
  proof (cases "lc_parent_lease (en_certificate e)")
    case None
    with body e trust less.prems(3) show ?thesis
      by (intro exI [of _ "[(cur, e)]"]) (auto intro: lease_path.lease_root)
  next
    case (Some p)
    with body have len: "length acc + 1 < MAX_AUTHORITY_CHAIN_DEPTH"
      and rest: "chain_loop P s leaf g now (visited @ [cur]) cache' (acc @ [(cur, e)]) (lr_lease_id p) = Inr r"
      by auto
    have "\<exists>es. r = (acc @ [(cur, e)]) @ es \<and> lease_path (map_of (as_leases s)) (lr_lease_id p) es
      \<and> length r \<le> MAX_AUTHORITY_CHAIN_DEPTH
      \<and> (\<forall>(l, e) \<in> set es. entry_live e now \<and> entry_certified P s e
         \<and> identity_trusted P (map_of (as_identities s)) (lc_agent_id (en_certificate e))
         \<and> (l = leaf \<longrightarrow> (\<forall>x. g = Some x \<longrightarrow> le_generation (en_record e) = x)))"
      using less.prems(4) trust len by (intro less.hyps [OF _ rest]) auto
    then obtain es where es: "r = (acc @ [(cur, e)]) @ es" "lease_path (map_of (as_leases s)) (lr_lease_id p) es"
      "length r \<le> MAX_AUTHORITY_CHAIN_DEPTH"
      "\<forall>(l, e) \<in> set es. entry_live e now \<and> entry_certified P s e
         \<and> identity_trusted P (map_of (as_identities s)) (lc_agent_id (en_certificate e))
         \<and> (l = leaf \<longrightarrow> (\<forall>x. g = Some x \<longrightarrow> le_generation (en_record e) = x))" by blast
    have "lease_path (map_of (as_leases s)) cur ((cur, e) # es)"
      using e(1) Some es(2) by (rule lease_path.lease_child)
    with es e trust show ?thesis by (intro exI [of _ "(cur, e) # es"]) auto
  qed
qed

lemma chain_loop_complete:
  assumes "lease_path (map_of (as_leases s)) cur es"
    and "length acc + length es \<le> MAX_AUTHORITY_CHAIN_DEPTH"
    and "set visited \<inter> fst ` set es = {}"
    and "\<forall>(l, e) \<in> set es. entry_live e now \<and> entry_certified P s e
         \<and> (l = leaf \<longrightarrow> (\<forall>x. g = Some x \<longrightarrow> le_generation (en_record e) = x))
         \<and> (\<exists>as. identity_path P (map_of (as_identities s)) (lc_agent_id (en_certificate e)) as
              \<and> length as \<le> MAX_AUTHORITY_CHAIN_DEPTH)"
  shows "chain_loop P s leaf g now visited cache acc cur = Inr (acc @ es)"
  using assms
proof (induction arbitrary: visited cache acc rule: lease_path.induct)
  case (lease_root l e)
  obtain as where "identity_path P (map_of (as_identities s)) (lc_agent_id (en_certificate e)) as"
      "length as \<le> MAX_AUTHORITY_CHAIN_DEPTH" using lease_root.prems(3) by auto
  then obtain cache' where "validate_identity_chain P s (lc_agent_id (en_certificate e)) cache = Inr cache'"
    using validate_identity_chain_complete by blast
  with lease_root show ?case by (subst chain_loop_Inr) auto
next
  case (lease_child l e p es)
  have dist: "distinct (map fst ((l, e) # es))"
    using lease_path.lease_child [OF lease_child.hyps] by (rule lease_path_distinct)
  obtain e' fs where es: "es = (lr_lease_id p, e') # fs" using lease_path_hd [OF lease_child.hyps(3)] by blast
  obtain as where "identity_path P (map_of (as_identities s)) (lc_agent_id (en_certificate e)) as"
      "length as \<le> MAX_AUTHORITY_CHAIN_DEPTH" using lease_child.prems(3) by auto
  then obtain cache' where ident: "validate_identity_chain P s (lc_agent_id (en_certificate e)) cache = Inr cache'"
    using validate_identity_chain_complete by blast
  have "chain_loop P s leaf g now (visited @ [l]) cache' (acc @ [(l, e)]) (lr_lease_id p)
      = Inr ((acc @ [(l, e)]) @ es)"
    using lease_child.prems dist by (intro lease_child.IH) auto
  moreover have "length acc + 1 < MAX_AUTHORITY_CHAIN_DEPTH" using lease_child.prems(1) es by simp
  ultimately show ?case
    using lease_child.prems lease_child.hyps ident by (subst chain_loop_Inr) auto
qed

text \<open>
  The abstract authority chain of a leaf: its path to a root, no longer than the depth bound, every
  lease live and certified, neighbours attenuated, and the expected generation on the leaf.
\<close>

definition authority_chain ::
  "'cap platform \<Rightarrow> 'cap authority_state \<Rightarrow> lease_id \<Rightarrow> u64 option \<Rightarrow> timestamp
   \<Rightarrow> (lease_id \<times> 'cap lease_entry) list \<Rightarrow> bool" where
  "authority_chain P s leaf g now es \<longleftrightarrow>
     lease_path (map_of (as_leases s)) leaf es \<and> length es \<le> MAX_AUTHORITY_CHAIN_DEPTH
     \<and> (\<forall>(l, e) \<in> set es. entry_live e now \<and> entry_certified P s e)
     \<and> (\<forall>x. g = Some x \<longrightarrow> le_generation (en_record (snd (hd es))) = x)
     \<and> successively (\<lambda>c p. attenuated_child P (snd p) (snd c)) es"

definition chain_observation ::
  "'cap platform \<Rightarrow> lease_id \<Rightarrow> (lease_id \<times> 'cap lease_entry) list \<Rightarrow> validated_authority \<Rightarrow> bool" where
  "chain_observation P leaf es v \<longleftrightarrow>
     va_leaf_lease_id v = leaf
     \<and> va_leaf_expires_at v = lc_expires_at (en_certificate (snd (hd es)))
     \<and> va_agent_identity_digest v = lc_agent_identity_digest (en_certificate (snd (hd es)))
     \<and> va_capability_manifest_digest v = lc_capability_manifest_digest (en_certificate (snd (hd es)))
     \<and> va_semantic_context_digest v = lc_semantic_context_digest (en_certificate (snd (hd es)))
     \<and> mapE (\<lambda>(_, e). make_lease_ref P (en_certificate e)) (rev es) = Inr (va_chain v)
     \<and> va_observed_generations v = map (\<lambda>(l, e). (l, le_generation (en_record e))) (rev es)"

lemma validate_chain_after_loop:
  assumes loop: "chain_loop P s leaf g now [] {} [] leaf = Inr es" and hd: "es = (leaf, e) # fs"
  shows "validate_chain P s leaf g m now = Inr v \<longleftrightarrow>
    successively (\<lambda>c p. attenuated_child P (snd p) (snd c)) es
    \<and> (\<exists>d. manifest_canonical_digest P (en_manifest e) = Inr d \<and> manifest_canonical_digest P m = Inr d)
    \<and> chain_observation P leaf es v"
proof -
  define ce where "ce = rev es"
  have ne: "ce \<noteq> []" and last: "last ce = (leaf, e)" by (simp_all add: ce_def hd)
  have windows: "successively (\<lambda>c p. attenuated_child P (snd p) (snd c)) es
      \<longleftrightarrow> successively (\<lambda>p c. attenuated_child P (snd p) (snd c)) ce"
    by (simp add: ce_def successively_rev)
  have hd_es: "hd es = (leaf, e)" by (simp add: hd)
  show ?thesis
    unfolding validate_chain_def loop bindE_Inr Let_def ce_def [symmetric] windows
      chain_observation_def hd_es
    by (cases v) (auto simp: result_simps ne last)
qed

lemma validate_chain_sound:
  assumes "validate_chain P s leaf g m now = Inr v"
  shows "\<exists>es. authority_chain P s leaf g now es \<and> chain_observation P leaf es v
    \<and> manifest_canonical_digest P m = Inr (va_capability_manifest_digest v)
    \<and> (\<forall>(l, e) \<in> set es. identity_trusted P (map_of (as_identities s)) (lc_agent_id (en_certificate e)))"
proof -
  from assms obtain r where loop: "chain_loop P s leaf g now [] {} [] leaf = Inr r"
    by (auto simp: validate_chain_def bindE_eq_Inr)
  have "\<exists>es. r = [] @ es \<and> lease_path (map_of (as_leases s)) leaf es
    \<and> length r \<le> MAX_AUTHORITY_CHAIN_DEPTH
    \<and> (\<forall>(l, e) \<in> set es. entry_live e now \<and> entry_certified P s e
         \<and> identity_trusted P (map_of (as_identities s)) (lc_agent_id (en_certificate e))
         \<and> (l = leaf \<longrightarrow> (\<forall>x. g = Some x \<longrightarrow> le_generation (en_record e) = x)))"
    using loop by (rule chain_loop_sound) (auto simp: MAX_AUTHORITY_CHAIN_DEPTH_def)
  then obtain es where es: "r = es" "lease_path (map_of (as_leases s)) leaf es"
    "length es \<le> MAX_AUTHORITY_CHAIN_DEPTH"
    "\<forall>(l, e) \<in> set es. entry_live e now \<and> entry_certified P s e
         \<and> identity_trusted P (map_of (as_identities s)) (lc_agent_id (en_certificate e))
         \<and> (l = leaf \<longrightarrow> (\<forall>x. g = Some x \<longrightarrow> le_generation (en_record e) = x))" by auto
  obtain e fs where hd: "es = (leaf, e) # fs" using lease_path_hd [OF es(2)] by blast
  have "successively (\<lambda>c p. attenuated_child P (snd p) (snd c)) es \<and> chain_observation P leaf es v
      \<and> manifest_canonical_digest P m = manifest_canonical_digest P (en_manifest e)"
    using assms loop unfolding es(1) validate_chain_after_loop [OF loop [unfolded es(1)] hd] by auto
  with es hd show ?thesis
    by (intro exI [of _ es])
      (auto simp: authority_chain_def chain_observation_def entry_certified_def)
qed

lemma validate_chain_complete:
  assumes chain: "authority_chain P s leaf g now es"
    and ident: "\<forall>(l, e) \<in> set es. \<exists>as. identity_path P (map_of (as_identities s))
      (lc_agent_id (en_certificate e)) as \<and> length as \<le> MAX_AUTHORITY_CHAIN_DEPTH"
    and manifest: "manifest_canonical_digest P m = manifest_canonical_digest P (en_manifest (snd (hd es)))"
    and refs: "\<forall>(l, e) \<in> set es. \<exists>r. make_lease_ref P (en_certificate e) = Inr r"
  shows "\<exists>v. validate_chain P s leaf g m now = Inr v"
proof -
  have path: "lease_path (map_of (as_leases s)) leaf es" using chain by (simp add: authority_chain_def)
  obtain e fs where hd: "es = (leaf, e) # fs" using lease_path_hd [OF path] by blast
  have gen: "l = leaf \<longrightarrow> (\<forall>x. g = Some x \<longrightarrow> le_generation (en_record e') = x)" if "(l, e') \<in> set es" for l e'
  proof
    assume "l = leaf"
    then have "e' = e" using that lease_path_entries [OF path] hd by (metis list.set_intros(1) option.inject)
    then show "\<forall>x. g = Some x \<longrightarrow> le_generation (en_record e') = x"
      using chain hd by (simp add: authority_chain_def)
  qed
  have "chain_loop P s leaf g now [] {} [] leaf = Inr ([] @ es)"
    using path by (rule chain_loop_complete) (use chain ident gen in \<open>auto simp: authority_chain_def\<close>)
  then have loop: "chain_loop P s leaf g now [] {} [] leaf = Inr es" by simp
  have "mapE (\<lambda>(_, e). make_lease_ref P (en_certificate e)) (rev es)
      = Inr (map (\<lambda>(_, e). projr (make_lease_ref P (en_certificate e))) (rev es))"
    using refs by (intro mapE_total) force
  then obtain v where "chain_observation P leaf es v"
    unfolding chain_observation_def by (metis validated_authority.select_convs)
  moreover have "manifest_canonical_digest P (en_manifest e)
      = Inr (lc_capability_manifest_digest (en_certificate e))"
    using chain hd by (auto simp: authority_chain_def entry_certified_def)
  ultimately show ?thesis
    using chain manifest hd
    by (auto simp: validate_chain_after_loop [OF loop hd] authority_chain_def)
qed

end
