(* ===== verification/LeaseTree.thy ===== *)
theory LeaseTree
  imports ChainValidation
begin

text \<open>
  The lease tree (\<open>descendants_including\<close> and \<open>revoke_descendants\<close> of
  \<open>authority_kernel/validation.rs\<close>): the breadth-first search over the parent references of all
  leases and the loop that revokes what it returns. The search is shown to terminate, to return each
  descendant once with the root first, and not to depend on the hash map's iteration order.
\<close>

section \<open>Children by parent\<close>

definition add_child ::
  "lease_id \<times> 'cap lease_entry \<Rightarrow> (lease_id, lease_id list) btree_map \<Rightarrow> (lease_id, lease_id list) btree_map" where
  "add_child le m = (case le of (lease_id, entry) \<Rightarrow>
     (case lc_parent_lease (en_certificate entry) of
        None \<Rightarrow> m
      | Some parent \<Rightarrow>
          bt_insert (lr_lease_id parent)
            ((case map_of m (lr_lease_id parent) of None \<Rightarrow> [] | Some cs \<Rightarrow> cs) @ [lease_id]) m))"

definition children_by_parent ::
  "(lease_id, 'cap lease_entry) hash_map \<Rightarrow> (lease_id, lease_id list) btree_map" where
  "children_by_parent leases = map (\<lambda>(parent, children). (parent, sort children)) (fold add_child leases [])"

section \<open>Breadth-first search\<close>

fun visit_children :: "'a list \<Rightarrow> 'a list \<Rightarrow> 'a list \<Rightarrow> 'a list \<times> 'a list" where
  "visit_children [] pending seen = (pending, seen)"
| "visit_children (child # children) pending seen =
     (if child \<in> set seen then visit_children children pending seen
      else visit_children children (pending @ [child]) (seen @ [child]))"

lemma visit_children_spec:
  assumes "visit_children cs pending seen = (pending', seen')"
  shows "\<exists>new. pending' = pending @ new \<and> seen' = seen @ new \<and> set new = set cs - set seen \<and> distinct new"
  using assms
proof (induction cs arbitrary: pending seen)
  case (Cons c cs)
  show ?case
  proof (cases "c \<in> set seen")
    case True
    with Cons.prems obtain new where "pending' = pending @ new" "seen' = seen @ new"
        "set new = set cs - set seen" "distinct new"
      using Cons.IH [of pending seen] by auto
    with True show ?thesis by (intro exI [of _ new]) auto
  next
    case False
    with Cons.prems obtain new where "pending' = (pending @ [c]) @ new" "seen' = (seen @ [c]) @ new"
        "set new = set cs - set (seen @ [c])" "distinct new"
      using Cons.IH [of "pending @ [c]" "seen @ [c]"] by auto
    with False show ?thesis by (intro exI [of _ "c # new"]) auto
  qed
qed auto

function bfs_loop ::
  "('a, 'a list) btree_map \<Rightarrow> 'a list \<Rightarrow> 'a list \<Rightarrow> 'a list \<Rightarrow> 'a list" where
  "bfs_loop children_map [] seen res = res"
| "bfs_loop children_map (parent # pending) seen res =
     (case map_of children_map parent of
        None \<Rightarrow> bfs_loop children_map pending seen (res @ [parent])
      | Some children \<Rightarrow>
          (case visit_children children pending seen of
             (pending', seen') \<Rightarrow> bfs_loop children_map pending' seen' (res @ [parent])))"
  by pat_completeness auto

text \<open>Each round takes one lease off the queue and only leases not seen before enter it.\<close>

lemma bfs_measure:
  assumes "visit_children cs pending seen = (pending', seen')" and "set cs \<subseteq> U" and "finite U"
  shows "card (U - set seen') + length pending' = card (U - set seen) + length pending"
proof -
  obtain new where new: "pending' = pending @ new" "seen' = seen @ new"
      "set new = set cs - set seen" "distinct new"
    using visit_children_spec [OF assms(1)] by blast
  have sub: "set new \<subseteq> U - set seen" using new(3) assms(2) by auto
  have "U - set seen' = (U - set seen) - set new" using new(2) by auto
  then have "card (U - set seen') = card (U - set seen) - length new"
    using sub assms(3) new(4) by (simp add: card_Diff_subset distinct_card)
  moreover have "length new \<le> card (U - set seen)"
    using sub assms(3) new(4) by (metis card_mono distinct_card finite_Diff)
  ultimately show ?thesis using new(1) by simp
qed

termination bfs_loop
proof (relation "measure (\<lambda>(m, pending, seen, res).
    card (\<Union> (set ` snd ` set m) - set seen) + length pending)", goal_cases)
  case 1
  show ?case by simp
next
  case (2 m parent pending seen res)
  then show ?case by simp
next
  case (3 m parent pending seen res children pending' seen')
  have "children \<in> snd ` set m" using 3(1) by (force dest: map_of_SomeD)
  then have sub: "set children \<subseteq> \<Union> (set ` snd ` set m)" by blast
  have "finite (\<Union> (set ` snd ` set m))" by auto
  with 3 sub show ?case
    using bfs_measure [of children pending seen pending' seen' "\<Union> (set ` snd ` set m)"] by simp
qed

definition descendants_including ::
  "(lease_id, 'cap lease_entry) hash_map \<Rightarrow> lease_id \<Rightarrow> lease_id list result" where
  "descendants_including leases root =
     (if map_of leases root = None then err LeaseInactive ''lease not found''
      else Inr (bfs_loop (children_by_parent leases) [root] [root] []))"

section \<open>Cascading revocation\<close>

definition live_state :: "lease_state \<Rightarrow> bool" where
  "live_state st \<longleftrightarrow> st = Active \<or> st = Paused"

definition revoked_record :: "string \<Rightarrow> timestamp \<Rightarrow> lease_record \<Rightarrow> lease_record" where
  "revoked_record reason now r = r\<lparr>le_state := Revoked, le_generation := le_generation r + 1,
     le_revoked_at := Some now, le_revocation_reason := Some reason\<rparr>"

text \<open>The loop body shared by \<open>revoke\<close> and \<open>revoke_descendants\<close>.\<close>

definition revoke_one ::
  "lease_id option \<Rightarrow> string \<Rightarrow> timestamp \<Rightarrow> lease_id \<Rightarrow> ('cap authority_state, runtime_error, unit) exec" where
  "revoke_one related reason now lease_id s =
     (case map_of (as_leases s) lease_id of
        None \<Rightarrow> (err LeaseInactive ''descendant lease disappeared'', s)
      | Some entry \<Rightarrow>
          if live_state (le_state (en_record entry))
          then (Inr (), push_event lease_id related LeaseRevoked now
                 (s\<lparr>as_leases := AList.update lease_id
                      (entry\<lparr>en_record := revoked_record reason now (en_record entry)\<rparr>) (as_leases s)\<rparr>))
          else (Inr (), s))"

fun revoke_loop ::
  "(lease_id \<Rightarrow> lease_id option) \<Rightarrow> string \<Rightarrow> timestamp \<Rightarrow> lease_id list
   \<Rightarrow> ('cap authority_state, runtime_error, unit) exec" where
  "revoke_loop related reason now [] s = (Inr (), s)"
| "revoke_loop related reason now (i # is) s =
     bindS (revoke_one (related i) reason now i) (\<lambda>_. revoke_loop related reason now is) s"

definition revoke_descendants ::
  "lease_id \<Rightarrow> string \<Rightarrow> timestamp \<Rightarrow> ('cap authority_state, runtime_error, unit) exec" where
  "revoke_descendants root reason now s =
     (case descendants_including (as_leases s) root of
        Inl e \<Rightarrow> (Inl e, s)
      | Inr descendants \<Rightarrow> revoke_loop (\<lambda>_. Some root) reason now (drop 1 descendants) s)"

section \<open>The search returns exactly the descendants\<close>

definition parent_id :: "'cap lease_entry \<Rightarrow> lease_id option" where
  "parent_id e = map_option lr_lease_id (lc_parent_lease (en_certificate e))"

definition child_ids :: "(lease_id, 'cap lease_entry) hash_map \<Rightarrow> lease_id \<Rightarrow> lease_id list" where
  "child_ids leases p = map fst (filter (\<lambda>(l, e). parent_id e = Some p) leases)"

lemma child_ids_Nil [simp]: "child_ids [] p = []"
  and child_ids_Cons [simp]: "child_ids ((l, e) # leases) p =
    (if parent_id e = Some p then l # child_ids leases p else child_ids leases p)"
  by (simp_all add: child_ids_def)

lemma add_child_root: "parent_id e = None \<Longrightarrow> add_child (l, e) m = m"
  and add_child_lookup: "parent_id e = Some p \<Longrightarrow> map_of (add_child (l, e) m) =
    (map_of m)(p \<mapsto> (case map_of m p of None \<Rightarrow> [] | Some cs \<Rightarrow> cs) @ [l])"
  by (auto simp: add_child_def parent_id_def map_of_bt_insert split: option.splits)

lemma fold_add_child_lookup:
  "map_of (fold add_child leases m) p =
     (case map_of m p of
        None \<Rightarrow> (if child_ids leases p = [] then None else Some (child_ids leases p))
      | Some cs \<Rightarrow> Some (cs @ child_ids leases p))"
proof (induction leases arbitrary: m)
  case Nil
  then show ?case by (simp split: option.splits)
next
  case (Cons le leases)
  obtain l e where le: "le = (l, e)" by (cases le)
  show ?case
    unfolding le fold_simps(2) Cons.IH
    by (cases "parent_id e") (auto simp: add_child_root add_child_lookup split: option.splits)
qed

lemma children_lookup:
  "map_of (children_by_parent leases) p =
     (if child_ids leases p = [] then None else Some (sort (child_ids leases p)))"
  by (simp add: children_by_parent_def map_of_map fold_add_child_lookup)

text \<open>The child relation of the lease table, and its reflexive-transitive closure.\<close>

definition child_rel :: "(lease_id \<rightharpoonup> 'cap lease_entry) \<Rightarrow> (lease_id \<times> lease_id) set" where
  "child_rel leases = {(p, c). \<exists>e. leases c = Some e \<and> parent_id e = Some p}"

definition descendants :: "(lease_id \<rightharpoonup> 'cap lease_entry) \<Rightarrow> lease_id \<Rightarrow> lease_id set" where
  "descendants leases root = (child_rel leases)\<^sup>* `` {root}"

lemma set_child_ids: "hm_ok leases \<Longrightarrow> set (child_ids leases p) = {c. (p, c) \<in> child_rel (map_of leases)}"
  by (force simp: child_ids_def child_rel_def hm.entries_lookup)

definition map_children :: "('a, 'a list) btree_map \<Rightarrow> ('a \<times> 'a) set" where
  "map_children m = {(p, c). \<exists>cs. map_of m p = Some cs \<and> c \<in> set cs}"

lemma map_children_by_parent:
  "hm_ok leases \<Longrightarrow> map_children (children_by_parent leases) = child_rel (map_of leases)"
  by (auto simp: map_children_def children_lookup set_child_ids split: if_splits)
    (metis empty_iff list.set(1) mem_Collect_eq set_child_ids)

text \<open>
  The loop invariant: what was seen is what was returned or is queued, all of it is reachable, and
  the children of everything returned have been seen.
\<close>

lemma bfs_loop_spec:
  assumes "set seen = set res \<union> set pending" and "distinct (res @ pending)"
    and "set seen \<subseteq> (map_children m)\<^sup>* `` {root}" and "root \<in> set seen"
    and "\<forall>p \<in> set res. map_children m `` {p} \<subseteq> set seen"
  shows "set (bfs_loop m pending seen res) = (map_children m)\<^sup>* `` {root}
    \<and> distinct (bfs_loop m pending seen res)
    \<and> (\<exists>new. bfs_loop m pending seen res = res @ pending @ new)"
  using assms
proof (induction m pending seen res rule: bfs_loop.induct)
  case (1 m seen res)
  have "(map_children m)\<^sup>* `` {root} \<subseteq> set seen"
  proof
    fix x assume "x \<in> (map_children m)\<^sup>* `` {root}"
    then have "(root, x) \<in> (map_children m)\<^sup>*" by simp
    then show "x \<in> set seen"
      by (induction rule: rtrancl_induct) (use 1(1,4,5) in auto)
  qed
  with 1 show ?case by auto
next
  case (2 m parent pending seen res)
  show ?case
  proof (cases "map_of m parent")
    case None
    have none: "map_children m `` {parent} = {}" using None by (auto simp: map_children_def)
    have "set (bfs_loop m pending seen (res @ [parent])) = (map_children m)\<^sup>* `` {root}
      \<and> distinct (bfs_loop m pending seen (res @ [parent]))
      \<and> (\<exists>new. bfs_loop m pending seen (res @ [parent]) = (res @ [parent]) @ pending @ new)"
      using 2(3-7) none by (intro 2(1) [OF None]) auto
    with None show ?thesis by simp
  next
    case (Some cs)
    obtain pending' seen' where v: "visit_children cs pending seen = (pending', seen')"
      by (cases "visit_children cs pending seen")
    obtain new where new: "pending' = pending @ new" "seen' = seen @ new"
        "set new = set cs - set seen" "distinct new"
      using visit_children_spec [OF v] by blast
    have kids: "map_children m `` {parent} = set cs" using Some by (auto simp: map_children_def)
    have reach: "set cs \<subseteq> (map_children m)\<^sup>* `` {root}"
    proof
      fix c assume "c \<in> set cs"
      then have "(parent, c) \<in> map_children m" using kids by auto
      moreover have "(root, parent) \<in> (map_children m)\<^sup>*" using 2(3,5) by auto
      ultimately show "c \<in> (map_children m)\<^sup>* `` {root}" by (auto intro: rtrancl_into_rtrancl)
    qed
    have "set (bfs_loop m pending' seen' (res @ [parent])) = (map_children m)\<^sup>* `` {root}
      \<and> distinct (bfs_loop m pending' seen' (res @ [parent]))
      \<and> (\<exists>more. bfs_loop m pending' seen' (res @ [parent]) = (res @ [parent]) @ pending' @ more)"
      using 2(3-7) new kids reach by (intro 2(2) [OF Some v [symmetric]]) auto
    with Some v new show ?thesis by auto
  qed
qed

lemma descendants_including_spec:
  assumes "hm_ok leases" and "descendants_including leases root = Inr ds"
  shows "set ds = descendants (map_of leases) root" and "distinct ds" and "\<exists>rest. ds = root # rest"
proof -
  let ?m = "children_by_parent leases"
  have ds: "ds = bfs_loop ?m [root] [root] []"
    using assms(2) by (auto simp: descendants_including_def split: if_splits)
  have "set (bfs_loop ?m [root] [root] []) = (map_children ?m)\<^sup>* `` {root}
    \<and> distinct (bfs_loop ?m [root] [root] [])
    \<and> (\<exists>new. bfs_loop ?m [root] [root] [] = [] @ [root] @ new)"
    by (rule bfs_loop_spec) auto
  then show "set ds = descendants (map_of leases) root" "distinct ds" "\<exists>rest. ds = root # rest"
    by (auto simp: ds descendants_def map_children_by_parent [OF assms(1)])
qed

lemma descendants_including_total:
  "map_of leases root \<noteq> None \<Longrightarrow> \<exists>ds. descendants_including leases root = Inr ds"
  by (simp add: descendants_including_def)

lemma child_ids_perm:
  "mset leases = mset leases' \<Longrightarrow> sort (child_ids leases p) = sort (child_ids leases' p)"
  by (intro properties_for_sort) (simp_all add: child_ids_def)

lemma children_by_parent_ok: "bt_ok (children_by_parent leases)"
proof -
  have "bt_ok m \<Longrightarrow> bt_ok (fold add_child leases m)" for m
    by (induction leases arbitrary: m) (auto simp: add_child_def bt_ok_insert split: option.splits)
  then have "bt_ok (fold add_child leases [])" by simp
  then show ?thesis
    by (simp add: bt_ok_def children_by_parent_def comp_def case_prod_beta)
qed

lemma children_by_parent_perm:
  assumes "mset leases = mset leases'"
  shows "children_by_parent leases = children_by_parent leases'"
proof (rule bt_unique)
  show "map_of (children_by_parent leases) = map_of (children_by_parent leases')"
  proof
    fix p
    have eq: "sort (child_ids leases p) = sort (child_ids leases' p)"
      using assms by (rule child_ids_perm)
    then have "child_ids leases p = [] \<longleftrightarrow> child_ids leases' p = []"
      by (metis length_0_conv length_sort)
    with eq show "map_of (children_by_parent leases) p = map_of (children_by_parent leases') p"
      by (simp add: children_lookup)
  qed
qed (simp_all add: children_by_parent_ok)

lemma descendants_including_perm:
  "hm_ok leases \<Longrightarrow> mset leases = mset leases' \<Longrightarrow>
   descendants_including leases root = descendants_including leases' root"
  using map_of_mset_cong [of leases leases'] children_by_parent_perm [of leases leases']
  by (simp add: descendants_including_def)

lemma descendants_self [simp]: "root \<in> descendants leases root"
  by (simp add: descendants_def)

lemma descendants_known:
  "leases root \<noteq> None \<Longrightarrow> l \<in> descendants leases root \<Longrightarrow> leases l \<noteq> None"
  unfolding descendants_def by (auto elim: rtranclE simp: child_rel_def)

lemma descendants_child:
  "p \<in> descendants leases root \<Longrightarrow> leases c = Some e \<Longrightarrow> parent_id e = Some p \<Longrightarrow>
   c \<in> descendants leases root"
  unfolding descendants_def by (auto simp: child_rel_def intro: rtrancl_into_rtrancl)

lemma child_rel_iff: "(p, c) \<in> child_rel leases \<longleftrightarrow> map_option parent_id (leases c) = Some (Some p)"
  by (cases "leases c") (auto simp: child_rel_def)

lemma child_rel_cong:
  "(\<And>l. map_option parent_id (leases l) = map_option parent_id (leases' l)) \<Longrightarrow>
   child_rel leases = child_rel leases'"
  by (rule set_eqI) (auto simp: child_rel_iff split_paired_all)

section \<open>What a revocation loop does\<close>

definition revoke_entry :: "string \<Rightarrow> timestamp \<Rightarrow> 'cap lease_entry \<Rightarrow> 'cap lease_entry" where
  "revoke_entry reason now e =
     (if live_state (le_state (en_record e))
      then e\<lparr>en_record := revoked_record reason now (en_record e)\<rparr> else e)"

lemma revoke_entry_simps [simp]:
  "en_certificate (revoke_entry reason now e) = en_certificate e"
  "en_manifest (revoke_entry reason now e) = en_manifest e"
  "\<not> live_state (le_state (en_record (revoke_entry reason now e)))"
  "parent_id (revoke_entry reason now e) = parent_id e"
  "le_lease_id (en_record (revoke_entry reason now e)) = le_lease_id (en_record e)"
  "le_renewed_by (en_record (revoke_entry reason now e)) = le_renewed_by (en_record e)"
  by (simp_all add: revoke_entry_def revoked_record_def live_state_def parent_id_def)

lemma revoke_entry_idem [simp]: "revoke_entry r n (revoke_entry r' n' e) = revoke_entry r' n' e"
  using revoke_entry_simps(3) [of r' n' e] by (simp add: revoke_entry_def [of r n])

text \<open>Everything of the state but lease records and events.\<close>

definition same_frame :: "'cap authority_state \<Rightarrow> 'cap authority_state \<Rightarrow> bool" where
  "same_frame s t \<longleftrightarrow> as_mission t = as_mission s \<and> as_root_lease_id t = as_root_lease_id s
     \<and> as_identities t = as_identities s \<and> as_custodians t = as_custodians s"

lemma push_event_simps [simp]:
  "as_mission (push_event l r k t s) = as_mission s"
  "as_root_lease_id (push_event l r k t s) = as_root_lease_id s"
  "as_identities (push_event l r k t s) = as_identities s"
  "as_custodians (push_event l r k t s) = as_custodians s"
  "as_leases (push_event l r k t s) = as_leases s"
  by (simp_all add: push_event_def)

lemma revoke_one_effect:
  assumes "map_of (as_leases s) i = Some e"
  shows "\<exists>t. revoke_one rel reason now i s = (Inr (), t)
    \<and> map_of (as_leases t) = (map_of (as_leases s))(i \<mapsto> revoke_entry reason now e)
    \<and> map fst (as_leases t) = map fst (as_leases s) \<and> same_frame s t"
proof (cases "live_state (le_state (en_record e))")
  case True
  with assms show ?thesis
    by (simp add: revoke_one_def revoke_entry_def same_frame_def update_conv')
next
  case False
  with assms show ?thesis
    by (simp add: revoke_one_def revoke_entry_def same_frame_def fun_upd_idem)
qed

lemma revoke_loop_effect:
  assumes "\<forall>i \<in> set is. map_of (as_leases s) i \<noteq> None"
  shows "\<exists>t. revoke_loop rel reason now is s = (Inr (), t)
    \<and> (\<forall>l. map_of (as_leases t) l =
         (if l \<in> set is then map_option (revoke_entry reason now) (map_of (as_leases s) l)
          else map_of (as_leases s) l))
    \<and> map fst (as_leases t) = map fst (as_leases s) \<and> same_frame s t"
  using assms
proof (induction "is" arbitrary: s)
  case Nil
  then show ?case by (simp add: same_frame_def)
next
  case (Cons i "is")
  obtain e where e: "map_of (as_leases s) i = Some e" using Cons.prems by auto
  obtain u where u: "revoke_one (rel i) reason now i s = (Inr (), u)"
    and lu: "map_of (as_leases u) = (map_of (as_leases s))(i \<mapsto> revoke_entry reason now e)"
    and ku: "map fst (as_leases u) = map fst (as_leases s)" and fu: "same_frame s u"
    using revoke_one_effect [OF e] by blast
  have "\<forall>j \<in> set is. map_of (as_leases u) j \<noteq> None" using Cons.prems lu by auto
  from Cons.IH [OF this] obtain t where t: "revoke_loop rel reason now is u = (Inr (), t)"
    and lt: "\<forall>l. map_of (as_leases t) l =
         (if l \<in> set is then map_option (revoke_entry reason now) (map_of (as_leases u) l)
          else map_of (as_leases u) l)"
    and kt: "map fst (as_leases t) = map fst (as_leases u)" and ft: "same_frame u t" by blast
  have "\<forall>l. map_of (as_leases t) l =
         (if l \<in> set (i # is) then map_option (revoke_entry reason now) (map_of (as_leases s) l)
          else map_of (as_leases s) l)"
    using lt lu e by (auto simp: fun_upd_def)
  with t u kt ku ft fu show ?case
    by (auto simp: bindS_def same_frame_def)
qed

end
