(* ===== verification/AuthorityKernel.thy ===== *)
theory AuthorityKernel
  imports LeaseTree
begin

text \<open>
  The operations of the authority kernel (\<open>authority_kernel.rs\<close>): bootstrap of the root lease,
  delegation, pause and resume, cascading revocation, expiry and renewal. Each operation works on
  the state behind the kernel's lock; \<open>read_state\<close> and \<open>write_state\<close> add the lock, whose
  poisoning every method reports. The clock and the random part of a fresh lease id are arguments.
\<close>

section \<open>Requests\<close>

record 'cap root_lease_request =
  rr_mission :: "'cap mission_envelope"
  rr_agent_id :: agent_id
  rr_granted_authority :: "'cap authority_set"
  rr_delegable_authority :: "'cap authority_set"
  rr_capability_manifest :: "'cap capability_manifest"
  rr_semantic_context_digest :: digest
  rr_expires_at :: timestamp

record 'cap delegation_request =
  dr_parent_lease_id :: lease_id
  dr_expected_parent_generation :: u64
  dr_child_agent_id :: agent_id
  dr_granted_authority :: "'cap authority_set"
  dr_delegable_authority :: "'cap authority_set"
  dr_capability_manifest :: "'cap capability_manifest"
  dr_semantic_context_digest :: digest
  dr_expires_at :: timestamp

record 'cap renewal_request =
  nr_lease_id :: lease_id
  nr_expected_generation :: u64
  nr_granted_authority :: "'cap authority_set"
  nr_delegable_authority :: "'cap authority_set"
  nr_capability_manifest :: "'cap capability_manifest"
  nr_semantic_context_digest :: digest
  nr_expires_at :: timestamp

record 'cap lease_snapshot =
  sn_certificate :: "'cap authority_lease_certificate"
  sn_record :: lease_record
  sn_manifest :: "'cap capability_manifest"

section \<open>Issuing certificates\<close>

record 'cap lease_draft =
  ld_lease_id :: lease_id
  ld_mission_id :: mission_id
  ld_agent_id :: agent_id
  ld_agent_identity_digest :: digest
  ld_parent_agent_id :: "agent_id option"
  ld_parent_lease :: "lease_ref option"
  ld_renewed_from :: "lease_ref option"
  ld_organization_version :: u64
  ld_policy_epoch :: u64
  ld_granted_authority :: "'cap authority_set"
  ld_delegable_authority :: "'cap authority_set"
  ld_capability_manifest_digest :: digest
  ld_semantic_context_digest :: digest
  ld_issued_at :: timestamp
  ld_expires_at :: timestamp

text \<open>The three drafts the operations write: a root lease, a child of a parent, a successor.\<close>

definition root_draft ::
  "'cap root_lease_request \<Rightarrow> lease_id \<Rightarrow> digest \<Rightarrow> digest \<Rightarrow> timestamp \<Rightarrow> 'cap lease_draft" where
  "root_draft request lease_id identity_digest manifest_digest now =
     \<lparr>ld_lease_id = lease_id, ld_mission_id = me_mission_id (rr_mission request),
         ld_agent_id = rr_agent_id request, ld_agent_identity_digest = identity_digest,
         ld_parent_agent_id = None, ld_parent_lease = None, ld_renewed_from = None,
         ld_organization_version = me_organization_version (rr_mission request),
         ld_policy_epoch = me_policy_epoch (rr_mission request),
         ld_granted_authority = rr_granted_authority request,
         ld_delegable_authority = rr_delegable_authority request,
         ld_capability_manifest_digest = manifest_digest,
         ld_semantic_context_digest = rr_semantic_context_digest request,
         ld_issued_at = now, ld_expires_at = rr_expires_at request\<rparr>"

definition delegation_draft ::
  "'cap delegation_request \<Rightarrow> 'cap authority_lease_certificate \<Rightarrow> lease_id \<Rightarrow> digest
   \<Rightarrow> lease_ref \<Rightarrow> digest \<Rightarrow> timestamp \<Rightarrow> 'cap lease_draft" where
  "delegation_draft request parent lease_id identity_digest parent_reference manifest_digest now =
     \<lparr>ld_lease_id = lease_id, ld_mission_id = lc_mission_id parent,
         ld_agent_id = dr_child_agent_id request, ld_agent_identity_digest = identity_digest,
         ld_parent_agent_id = Some (lc_agent_id parent), ld_parent_lease = Some parent_reference,
         ld_renewed_from = None,
         ld_organization_version = lc_organization_version parent,
         ld_policy_epoch = lc_policy_epoch parent,
         ld_granted_authority = dr_granted_authority request,
         ld_delegable_authority = dr_delegable_authority request,
         ld_capability_manifest_digest = manifest_digest,
         ld_semantic_context_digest = dr_semantic_context_digest request,
         ld_issued_at = now, ld_expires_at = dr_expires_at request\<rparr>"

definition renewal_draft ::
  "'cap renewal_request \<Rightarrow> 'cap authority_lease_certificate \<Rightarrow> lease_id
   \<Rightarrow> lease_ref \<Rightarrow> digest \<Rightarrow> timestamp \<Rightarrow> 'cap lease_draft" where
  "renewal_draft request old lease_id old_ref manifest_digest now =
     \<lparr>ld_lease_id = lease_id, ld_mission_id = lc_mission_id old,
         ld_agent_id = lc_agent_id old,
         ld_agent_identity_digest = lc_agent_identity_digest old,
         ld_parent_agent_id = lc_parent_agent_id old,
         ld_parent_lease = lc_parent_lease old, ld_renewed_from = Some old_ref,
         ld_organization_version = lc_organization_version old,
         ld_policy_epoch = lc_policy_epoch old,
         ld_granted_authority = nr_granted_authority request,
         ld_delegable_authority = nr_delegable_authority request,
         ld_capability_manifest_digest = manifest_digest,
         ld_semantic_context_digest = nr_semantic_context_digest request,
         ld_issued_at = now, ld_expires_at = nr_expires_at request\<rparr>"

declare root_draft_def [simp] delegation_draft_def [simp] renewal_draft_def [simp]

definition signed_identity ::
  "'cap platform \<Rightarrow> agent_id \<Rightarrow> key_custody \<Rightarrow> agent_id option \<Rightarrow> key_custody \<Rightarrow> timestamp
   \<Rightarrow> identity_certificate result" where
  "signed_identity P agent_id subject_custody issuer_agent_id issuer_custody now =
     (let identity = unsigned_identity agent_id (kc_key_id subject_custody)
            (kc_verifying_key subject_custody) issuer_agent_id (kc_key_id issuer_custody) now
      in bindE (identity_signing_payload P identity) (\<lambda>payload.
         bindE (kc_sign issuer_custody payload) (\<lambda>signature.
         let identity = identity\<lparr>ic_signature := signature\<rparr>
         in bindE (identity_verify_signature P identity (kc_verifying_key issuer_custody)) (\<lambda>_.
            Inr identity))))"

definition unsigned_lease ::
  "'cap lease_draft \<Rightarrow> digest \<Rightarrow> key_id \<Rightarrow> 'cap authority_lease_certificate" where
  "unsigned_lease draft issuer_identity_digest issuer_key_id =
     \<lparr>lc_lease_id = ld_lease_id draft, lc_mission_id = ld_mission_id draft,
      lc_agent_id = ld_agent_id draft, lc_parent_agent_id = ld_parent_agent_id draft,
      lc_agent_identity_digest = ld_agent_identity_digest draft,
      lc_issuer_identity_digest = issuer_identity_digest, lc_issuer_key_id = issuer_key_id,
      lc_parent_lease = ld_parent_lease draft, lc_renewed_from = ld_renewed_from draft,
      lc_organization_version = ld_organization_version draft, lc_policy_epoch = ld_policy_epoch draft,
      lc_granted_authority = ld_granted_authority draft,
      lc_delegable_authority = ld_delegable_authority draft,
      lc_capability_manifest_digest = ld_capability_manifest_digest draft,
      lc_semantic_context_digest = ld_semantic_context_digest draft,
      lc_issued_at = ld_issued_at draft, lc_expires_at = ld_expires_at draft, lc_signature = []\<rparr>"

definition signed_lease ::
  "'cap platform \<Rightarrow> 'cap lease_draft \<Rightarrow> digest \<Rightarrow> key_custody \<Rightarrow> 'cap authority_lease_certificate result" where
  "signed_lease P draft issuer_identity_digest issuer_custody =
     (let certificate = unsigned_lease draft issuer_identity_digest (kc_key_id issuer_custody)
      in bindE (lease_signing_payload P certificate) (\<lambda>payload.
         bindE (kc_sign issuer_custody payload) (\<lambda>signature.
         let certificate = certificate\<lparr>lc_signature := signature\<rparr>
         in bindE (lease_verify_signature P certificate (kc_verifying_key issuer_custody)) (\<lambda>_.
            Inr certificate))))"

definition new_lease_id :: "string \<Rightarrow> lease_id result" where
  "new_lease_id uuid = new_id ''lease id'' (''lease-'' @ uuid)"

section \<open>Request validation\<close>

definition validate_root_request ::
  "'cap platform \<Rightarrow> 'cap root_lease_request \<Rightarrow> timestamp \<Rightarrow> unit result" where
  "validate_root_request P request now =
     (if \<not> is_usable_at (rr_mission request) now
       \<or> rr_expires_at request \<le> now
       \<or> rr_expires_at request > me_expires_at (rr_mission request)
      then err LeaseInactive ''root lease lifetime is outside the active mission''
      else bindE (validate_authority_sets P (rr_granted_authority request)
             (rr_delegable_authority request)) (\<lambda>_.
        if \<not> authority_is_subset_of_capabilities P (rr_granted_authority request)
               (me_allowed_capabilities (rr_mission request))
        then err CapabilityOutsideAuthority ''root authority exceeds the mission envelope''
        else bindE (validate_manifest P (rr_capability_manifest request)
               (rr_granted_authority request)) (\<lambda>_.
          if list_ex (\<lambda>bound. \<not> list_ex (\<lambda>allowed. allowed = bt_tool_id bound)
               (me_allowed_tools (rr_mission request)))
               (cm_approved_tools (rr_capability_manifest request))
          then err ToolOutsideMission ''root manifest contains a tool outside the mission''
          else Inr ())))"

definition validate_delegation_request ::
  "'cap platform \<Rightarrow> 'cap authority_state \<Rightarrow> 'cap lease_entry \<Rightarrow> 'cap delegation_request \<Rightarrow> timestamp
   \<Rightarrow> unit result" where
  "validate_delegation_request P s parent request now =
     (if dr_expires_at request \<le> now
       \<or> dr_expires_at request > lc_expires_at (en_certificate parent)
       \<or> dr_expires_at request > me_expires_at (as_mission s)
      then err DelegationInvalid ''child lease lifetime exceeds its parent or mission''
      else bindE (validate_authority_sets P (dr_granted_authority request)
             (dr_delegable_authority request)) (\<lambda>_.
        if \<not> authority_is_subset_of P (dr_granted_authority request)
               (lc_delegable_authority (en_certificate parent))
        then err DelegationInvalid ''child granted authority exceeds parent delegable authority''
        else bindE (validate_manifest P (dr_capability_manifest request)
               (dr_granted_authority request)) (\<lambda>_.
          validate_manifest_attenuation (dr_capability_manifest request) (en_manifest parent))))"

definition validate_renewal_request ::
  "'cap platform \<Rightarrow> 'cap authority_state \<Rightarrow> 'cap lease_entry \<Rightarrow> 'cap renewal_request \<Rightarrow> timestamp
   \<Rightarrow> unit result" where
  "validate_renewal_request P s old request now =
     (if nr_expires_at request \<le> now \<or> nr_expires_at request > me_expires_at (as_mission s)
      then err DelegationInvalid ''renewed lease lifetime is outside the mission''
      else if nr_semantic_context_digest request \<noteq> lc_semantic_context_digest (en_certificate old)
      then err SemanticContextChanged ''renewal must preserve the exact semantic context digest''
      else bindE (validate_authority_sets P (nr_granted_authority request)
             (nr_delegable_authority request)) (\<lambda>_.
        if \<not> authority_is_subset_of P (nr_granted_authority request)
               (lc_granted_authority (en_certificate old))
          \<or> \<not> authority_is_subset_of P (nr_delegable_authority request)
               (lc_delegable_authority (en_certificate old))
        then err DelegationInvalid ''renewal cannot expand authority''
        else bindE (validate_manifest P (nr_capability_manifest request)
               (nr_granted_authority request)) (\<lambda>_.
          bindE (validate_manifest_attenuation (nr_capability_manifest request) (en_manifest old)) (\<lambda>_.
          case lc_parent_lease (en_certificate old) of
            None \<Rightarrow> Inr ()
          | Some parent_ref \<Rightarrow>
              bindE (ok_or DelegationInvalid ''renewal parent lease missing''
                (map_of (as_leases s) (lr_lease_id parent_ref))) (\<lambda>parent.
              bindE (validate_active_record parent None now) (\<lambda>_.
              if nr_expires_at request > lc_expires_at (en_certificate parent)
              then err DelegationInvalid ''renewed child cannot outlive its parent''
              else Inr ()))))))"

section \<open>Operations\<close>

definition bootstrap ::
  "'cap platform \<Rightarrow> 'cap root_lease_request \<Rightarrow> key_custody \<Rightarrow> string \<Rightarrow> timestamp
   \<Rightarrow> 'cap authority_state result" where
  "bootstrap P request root_custody uuid now =
     bindE (validate_root_request P request now) (\<lambda>_.
     bindE (signed_identity P (rr_agent_id request) root_custody None root_custody now) (\<lambda>root_identity.
     bindE (identity_canonical_digest P root_identity) (\<lambda>identity_digest.
     bindE (new_lease_id uuid) (\<lambda>lease_id.
     bindE (manifest_canonical_digest P (rr_capability_manifest request)) (\<lambda>manifest_digest.
     bindE (signed_lease P
        (root_draft request lease_id identity_digest manifest_digest now)
        identity_digest root_custody) (\<lambda>certificate.
     let s = \<lparr>as_mission = rr_mission request, as_root_lease_id = lease_id,
              as_identities = [(rr_agent_id request, root_identity)],
              as_custodians = [(rr_agent_id request, root_custody)],
              as_leases = [(lease_id, \<lparr>en_certificate = certificate,
                en_record = active_lease_record lease_id,
                en_manifest = rr_capability_manifest request\<rparr>)],
              as_events = []\<rparr>
     in Inr (push_event lease_id None LeaseIssued now
               (push_event lease_id None IdentityRegistered now s))))))))"

definition delegate ::
  "'cap platform \<Rightarrow> 'cap delegation_request \<Rightarrow> key_custody \<Rightarrow> string \<Rightarrow> timestamp
   \<Rightarrow> ('cap authority_state, runtime_error, lease_id) exec" where
  "delegate P request child_custody uuid now = atomicS (\<lambda>s.
     bindE (ok_or LeaseInactive ''parent lease not found''
       (map_of (as_leases s) (dr_parent_lease_id request))) (\<lambda>parent.
     bindE (validate_active_record parent (Some (dr_expected_parent_generation request)) now) (\<lambda>_.
     bindE (validate_chain P s (dr_parent_lease_id request)
       (Some (dr_expected_parent_generation request)) (en_manifest parent) now) (\<lambda>validated_parent.
     if length (va_chain validated_parent) \<ge> MAX_AUTHORITY_CHAIN_DEPTH
     then err DelegationInvalid ''delegation would exceed the maximum authority chain depth''
     else bindE (validate_delegation_request P s parent request now) (\<lambda>_.
     if map_of (as_identities s) (dr_child_agent_id request) \<noteq> None
     then err IdentityInvalid ''child agent identity is already registered''
     else if list_ex (\<lambda>(_, identity). ic_key_id identity = kc_key_id child_custody) (as_identities s)
     then err IdentityInvalid ''child key id is already bound to an agent''
     else let parent_agent = lc_agent_id (en_certificate parent)
     in bindE (ok_or IdentityInvalid ''parent key unavailable''
       (map_of (as_custodians s) parent_agent)) (\<lambda>parent_custody.
     bindE (signed_identity P (dr_child_agent_id request) child_custody (Some parent_agent)
       parent_custody now) (\<lambda>child_identity.
     bindE (identity_canonical_digest P child_identity) (\<lambda>child_identity_digest.
     bindE (ok_or IdentityInvalid ''parent identity missing''
       (map_of (as_identities s) parent_agent)) (\<lambda>parent_identity.
     bindE (make_lease_ref P (en_certificate parent)) (\<lambda>parent_reference.
     bindE (new_lease_id uuid) (\<lambda>child_lease_id.
     bindE (manifest_canonical_digest P (dr_capability_manifest request)) (\<lambda>manifest_digest.
     bindE (identity_canonical_digest P parent_identity) (\<lambda>parent_identity_digest.
     bindE (signed_lease P
        (delegation_draft request (en_certificate parent) child_lease_id child_identity_digest
        parent_reference manifest_digest now)
        parent_identity_digest parent_custody) (\<lambda>child_certificate.
     let s' = s\<lparr>as_identities := AList.update (dr_child_agent_id request) child_identity (as_identities s),
                as_custodians := AList.update (dr_child_agent_id request) child_custody (as_custodians s),
                as_leases := AList.update child_lease_id
                  \<lparr>en_certificate = child_certificate, en_record = active_lease_record child_lease_id,
                   en_manifest = dr_capability_manifest request\<rparr> (as_leases s)\<rparr>
     in Inr (child_lease_id,
          push_event child_lease_id (Some (dr_parent_lease_id request)) LeaseDelegated now
            (push_event child_lease_id (Some (dr_parent_lease_id request)) IdentityRegistered now s'))))))))))))))))"

definition validate_active_chain ::
  "'cap platform \<Rightarrow> 'cap authority_state \<Rightarrow> lease_id \<Rightarrow> u64 option \<Rightarrow> 'cap capability_manifest
   \<Rightarrow> timestamp \<Rightarrow> validated_authority result" where
  "validate_active_chain P s leaf_lease_id expected_leaf_generation current_manifest now =
     validate_chain P s leaf_lease_id expected_leaf_generation current_manifest now"

text \<open>
  The commit point: the closure runs under the read guard, so against the state that was validated.
  What the closure does to other components is the state \<open>'t\<close> it threads.
\<close>

definition commit_active_chain ::
  "'cap platform \<Rightarrow> 'cap authority_state \<Rightarrow> lease_id \<Rightarrow> u64 option \<Rightarrow> 'cap capability_manifest
   \<Rightarrow> timestamp \<Rightarrow> (validated_authority \<Rightarrow> ('t, runtime_error, 'a) exec) \<Rightarrow> ('t, runtime_error, 'a) exec" where
  "commit_active_chain P s leaf_lease_id expected_leaf_generation current_manifest now commit t =
     (case validate_chain P s leaf_lease_id expected_leaf_generation current_manifest now of
        Inl e \<Rightarrow> (Inl e, t)
      | Inr validated \<Rightarrow> commit validated t)"

definition transition ::
  "lease_id \<Rightarrow> u64 \<Rightarrow> lease_state \<Rightarrow> lease_state \<Rightarrow> authority_event_kind \<Rightarrow> timestamp
   \<Rightarrow> ('cap authority_state, runtime_error, lease_record) exec" where
  "transition lease_id expected_generation expected_state next_state event now = atomicS (\<lambda>s.
     bindE (ok_or LeaseInactive ''lease not found'' (map_of (as_leases s) lease_id)) (\<lambda>entry.
     bindE (require_generation (en_record entry) expected_generation) (\<lambda>_.
     if le_state (en_record entry) \<noteq> expected_state \<or> now \<ge> lc_expires_at (en_certificate entry)
     then err LeaseInactive ''lease state does not allow the requested transition''
     else
       let output = (en_record entry)\<lparr>le_state := next_state,
             le_generation := le_generation (en_record entry) + 1\<rparr>
       in Inr (output, push_event lease_id None event now
            (s\<lparr>as_leases := AList.update lease_id (entry\<lparr>en_record := output\<rparr>) (as_leases s)\<rparr>)))))"

definition pause :: "lease_id \<Rightarrow> u64 \<Rightarrow> timestamp \<Rightarrow> ('cap authority_state, runtime_error, lease_record) exec" where
  "pause lease_id expected_generation now =
     transition lease_id expected_generation Active Paused LeasePaused now"

definition resume :: "lease_id \<Rightarrow> u64 \<Rightarrow> timestamp \<Rightarrow> ('cap authority_state, runtime_error, lease_record) exec" where
  "resume lease_id expected_generation now =
     transition lease_id expected_generation Paused Active LeaseResumed now"

definition revoke ::
  "lease_id \<Rightarrow> u64 \<Rightarrow> string \<Rightarrow> timestamp \<Rightarrow> ('cap authority_state, runtime_error, lease_id list) exec" where
  "revoke lease_id expected_generation reason now s =
     (case bindE (ok_or LeaseInactive ''lease not found'' (map_of (as_leases s) lease_id)) (\<lambda>entry.
           bindE (require_generation (en_record entry) expected_generation) (\<lambda>_.
           if \<not> live_state (le_state (en_record entry))
           then err LeaseInactive ''only active or paused leases may be revoked''
           else descendants_including (as_leases s) lease_id)) of
        Inl e \<Rightarrow> (Inl e, s)
      | Inr affected \<Rightarrow>
          bindS (revoke_loop (\<lambda>affected_id. if affected_id \<noteq> lease_id then Some lease_id else None)
            reason now affected) (\<lambda>_. liftS (Inr affected)) s)"

definition due_leases :: "(lease_id, 'cap lease_entry) hash_map \<Rightarrow> timestamp \<Rightarrow> lease_id list" where
  "due_leases leases now = sort (map fst (filter (\<lambda>(_, entry).
     live_state (le_state (en_record entry)) \<and> now \<ge> lc_expires_at (en_certificate entry)) leases))"

fun expire_loop ::
  "timestamp \<Rightarrow> lease_id list \<Rightarrow> lease_id list \<Rightarrow> ('cap authority_state, runtime_error, lease_id list) exec" where
  "expire_loop now [] expired s = (Inr expired, s)"
| "expire_loop now (lease_id # due) expired s =
     (case map_of (as_leases s) lease_id of
        None \<Rightarrow> (err LeaseInactive ''expiring lease disappeared'', s)
      | Some entry \<Rightarrow>
          if live_state (le_state (en_record entry))
          then bindS (revoke_descendants lease_id ''ancestor lease expired'' now)
            (\<lambda>_. expire_loop now due (expired @ [lease_id]))
            (push_event lease_id None LeaseExpired now
              (s\<lparr>as_leases := AList.update lease_id
                 (entry\<lparr>en_record := (en_record entry)\<lparr>le_state := Expired,
                    le_generation := le_generation (en_record entry) + 1\<rparr>\<rparr>) (as_leases s)\<rparr>))
          else expire_loop now due expired s)"

definition refresh_expirations ::
  "timestamp \<Rightarrow> ('cap authority_state, runtime_error, lease_id list) exec" where
  "refresh_expirations now s = expire_loop now (due_leases (as_leases s) now) [] s"

definition renewed_certificate ::
  "'cap platform \<Rightarrow> 'cap renewal_request \<Rightarrow> string \<Rightarrow> timestamp \<Rightarrow> 'cap authority_state
   \<Rightarrow> ('cap lease_entry \<times> lease_id \<times> 'cap authority_lease_certificate) result" where
  "renewed_certificate P request uuid now s =
     bindE (ok_or LeaseInactive ''lease not found'' (map_of (as_leases s) (nr_lease_id request))) (\<lambda>old.
     bindE (validate_active_record old (Some (nr_expected_generation request)) now) (\<lambda>_.
     bindE (validate_chain P s (nr_lease_id request) (Some (nr_expected_generation request))
       (en_manifest old) now) (\<lambda>_.
     bindE (validate_renewal_request P s old request now) (\<lambda>_.
     let issuer_agent_id = (case lc_parent_agent_id (en_certificate old) of
           Some a \<Rightarrow> a | None \<Rightarrow> lc_agent_id (en_certificate old))
     in bindE (ok_or IdentityInvalid ''renewal issuer identity missing''
       (map_of (as_identities s) issuer_agent_id)) (\<lambda>issuer_identity.
     bindE (ok_or IdentityInvalid ''renewal key unavailable''
       (map_of (as_custodians s) issuer_agent_id)) (\<lambda>issuer_custody.
     bindE (new_lease_id uuid) (\<lambda>fresh_lease_id.
     bindE (make_lease_ref P (en_certificate old)) (\<lambda>old_ref.
     bindE (manifest_canonical_digest P (nr_capability_manifest request)) (\<lambda>manifest_digest.
     bindE (identity_canonical_digest P issuer_identity) (\<lambda>issuer_identity_digest.
     bindE (signed_lease P
        (renewal_draft request (en_certificate old) fresh_lease_id old_ref manifest_digest now)
        issuer_identity_digest issuer_custody) (\<lambda>certificate.
     Inr (old, fresh_lease_id, certificate))))))))))))"

definition retired_entry :: "lease_id \<Rightarrow> 'cap lease_entry \<Rightarrow> 'cap lease_entry" where
  "retired_entry fresh_lease_id old = old\<lparr>en_record := (en_record old)\<lparr>le_state := Retired,
     le_generation := le_generation (en_record old) + 1, le_renewed_by := Some fresh_lease_id\<rparr>\<rparr>"

definition renew ::
  "'cap platform \<Rightarrow> 'cap renewal_request \<Rightarrow> string \<Rightarrow> timestamp
   \<Rightarrow> ('cap authority_state, runtime_error, lease_id) exec" where
  "renew P request uuid now s =
     (case renewed_certificate P request uuid now s of
        Inl e \<Rightarrow> (Inl e, s)
      | Inr (old, fresh_lease_id, certificate) \<Rightarrow>
          bindS (revoke_descendants (nr_lease_id request) ''ancestor lease retired during renewal'' now)
            (\<lambda>_ t.
              let leases = AList.update fresh_lease_id
                    \<lparr>en_certificate = certificate, en_record = active_lease_record fresh_lease_id,
                     en_manifest = nr_capability_manifest request\<rparr> (as_leases t);
                  root = (if as_root_lease_id t = nr_lease_id request then fresh_lease_id
                          else as_root_lease_id t)
              in (Inr fresh_lease_id,
                  push_event fresh_lease_id (Some (nr_lease_id request)) LeaseRenewed now
                    (t\<lparr>as_leases := leases, as_root_lease_id := root\<rparr>)))
            (s\<lparr>as_leases := AList.update (nr_lease_id request) (retired_entry fresh_lease_id old)
                 (as_leases s)\<rparr>))"

section \<open>The lock and the accessors\<close>

record 'cap authority_kernel =
  ak_state :: "'cap authority_state"
  ak_poisoned :: bool

definition read_state :: "'cap authority_kernel \<Rightarrow> 'cap authority_state result" where
  "read_state k = (if ak_poisoned k then err Internal ''authority state lock poisoned'' else Inr (ak_state k))"

definition write_state ::
  "('cap authority_state, runtime_error, 'a) exec \<Rightarrow> ('cap authority_kernel, runtime_error, 'a) exec" where
  "write_state body k =
     (if ak_poisoned k then (err Internal ''authority state lock poisoned'', k)
      else case body (ak_state k) of (r, s) \<Rightarrow> (r, k\<lparr>ak_state := s\<rparr>))"

definition root_lease_id :: "'cap authority_kernel \<Rightarrow> lease_id result" where
  "root_lease_id k = bindE (read_state k) (\<lambda>s. Inr (as_root_lease_id s))"

definition get_identity_certificate ::
  "'cap authority_kernel \<Rightarrow> agent_id \<Rightarrow> identity_certificate result" where
  "get_identity_certificate k agent_id =
     bindE (read_state k) (\<lambda>s.
     ok_or IdentityInvalid ''agent identity not found'' (map_of (as_identities s) agent_id))"

definition snapshot :: "'cap lease_entry \<Rightarrow> 'cap lease_snapshot" where
  "snapshot entry = \<lparr>sn_certificate = en_certificate entry, sn_record = en_record entry,
     sn_manifest = en_manifest entry\<rparr>"

definition get_lease_snapshot :: "'cap authority_kernel \<Rightarrow> lease_id \<Rightarrow> 'cap lease_snapshot result" where
  "get_lease_snapshot k lease_id =
     bindE (read_state k) (\<lambda>s.
     bindE (ok_or LeaseInactive ''authority lease not found'' (map_of (as_leases s) lease_id)) (\<lambda>entry.
     Inr (snapshot entry)))"

definition authority_events :: "'cap authority_kernel \<Rightarrow> authority_event list result" where
  "authority_events k = bindE (read_state k) (\<lambda>s. Inr (as_events s))"

end
