(* ===== verification/KernelInvariant.thy ===== *)
theory KernelInvariant
  imports AuthorityKernel
begin

text \<open>
  What the operations of the authority kernel do to its state, and the invariant they keep. A state
  evolves when no lease is lost, certificates and manifests stay as issued and a lease that is no
  longer active or paused is frozen. Every operation evolves the state; the well-formedness of the
  lease table follows from evolution plus a check of the one entry that is new.
\<close>

section \<open>Evolution of the lease table\<close>

definition lease_advances :: "'cap lease_entry \<Rightarrow> 'cap lease_entry \<Rightarrow> bool" where
  "lease_advances e e' \<longleftrightarrow> en_certificate e' = en_certificate e \<and> en_manifest e' = en_manifest e
     \<and> le_lease_id (en_record e') = le_lease_id (en_record e)
     \<and> (\<not> live_state (le_state (en_record e)) \<longrightarrow> e' = e)"

lemma lease_advances_refl [simp]: "lease_advances e e"
  by (simp add: lease_advances_def)

lemma lease_advances_trans: "lease_advances a b \<Longrightarrow> lease_advances b c \<Longrightarrow> lease_advances a c"
  by (auto simp: lease_advances_def)

lemma revoke_entry_advances [simp]: "lease_advances e (revoke_entry reason now e)"
  by (simp add: lease_advances_def) (simp add: revoke_entry_def)

definition evolves :: "'cap authority_state \<Rightarrow> 'cap authority_state \<Rightarrow> bool" where
  "evolves s t \<longleftrightarrow> as_mission t = as_mission s
     \<and> (\<forall>l e. map_of (as_leases s) l = Some e \<longrightarrow>
          (\<exists>e'. map_of (as_leases t) l = Some e' \<and> lease_advances e e'))
     \<and> (\<forall>a i. map_of (as_identities s) a = Some i \<longrightarrow> map_of (as_identities t) a = Some i)"

lemma evolves_refl [simp]: "evolves s s"
  by (simp add: evolves_def)

lemma evolves_lease:
  assumes "evolves s t" and "map_of (as_leases s) l = Some e"
  obtains e' where "map_of (as_leases t) l = Some e'" and "lease_advances e e'"
  using assms unfolding evolves_def by blast

lemma evolves_trans:
  assumes st: "evolves s t" and tu: "evolves t u"
  shows "evolves s u"
  unfolding evolves_def
proof (intro conjI allI impI)
  show "as_mission u = as_mission s" using st tu by (simp add: evolves_def)
  show "map_of (as_identities u) a = Some i" if "map_of (as_identities s) a = Some i" for a i
    using that st tu by (simp add: evolves_def)
  fix l e assume e: "map_of (as_leases s) l = Some e"
  obtain e' where e': "map_of (as_leases t) l = Some e'" "lease_advances e e'"
    using evolves_lease [OF st e] .
  obtain e'' where "map_of (as_leases u) l = Some e''" "lease_advances e' e''"
    using evolves_lease [OF tu e'(1)] .
  with e'(2) show "\<exists>e''. map_of (as_leases u) l = Some e'' \<and> lease_advances e e''"
    using lease_advances_trans by blast
qed

text \<open>The operations that change lease records only.\<close>

definition record_only :: "'cap authority_state \<Rightarrow> 'cap authority_state \<Rightarrow> bool" where
  "record_only s t \<longleftrightarrow> same_frame s t \<and> map fst (as_leases t) = map fst (as_leases s)
     \<and> (\<forall>l. rel_option lease_advances (map_of (as_leases s) l) (map_of (as_leases t) l))"

lemma record_only_refl [simp]: "record_only s s"
  by (auto simp: record_only_def same_frame_def option.rel_refl)

lemma record_only_trans: "record_only s t \<Longrightarrow> record_only t u \<Longrightarrow> record_only s u"
proof -
  assume st: "record_only s t" and tu: "record_only t u"
  have "rel_option lease_advances (map_of (as_leases s) l) (map_of (as_leases u) l)" for l
  proof -
    have a: "rel_option lease_advances (map_of (as_leases s) l) (map_of (as_leases t) l)"
      and b: "rel_option lease_advances (map_of (as_leases t) l) (map_of (as_leases u) l)"
      using st tu by (simp_all add: record_only_def)
    from a show ?thesis
      by (rule option.rel_cases) (use b in \<open>auto simp: option_rel_Some1 intro: lease_advances_trans\<close>)
  qed
  with st tu show ?thesis by (simp add: record_only_def same_frame_def)
qed

lemma record_only_evolves: "record_only s t \<Longrightarrow> evolves s t"
  unfolding record_only_def evolves_def same_frame_def by (metis option_rel_Some1)

lemma record_only_update:
  assumes "map_of (as_leases s) l = Some e" and "lease_advances e e'"
    and "same_frame s t" and "as_leases t = AList.update l e' (as_leases s)"
  shows "record_only s t"
  using assms by (auto simp: record_only_def update_conv' option.rel_refl)

lemma record_only_push_event [simp]: "record_only s (push_event l r k n t) \<longleftrightarrow> record_only s t"
  by (simp add: record_only_def same_frame_def)

lemma evolves_push_event [simp]: "evolves s (push_event l r k n t) \<longleftrightarrow> evolves s t"
  by (simp add: evolves_def)

section \<open>Effects of the operations\<close>

lemma transition_effect:
  assumes "transition l g st st' k now s = (Inr out, t)"
  obtains e where "map_of (as_leases s) l = Some e" and "le_generation (en_record e) = g"
    and "le_state (en_record e) = st" and "now < lc_expires_at (en_certificate e)"
    and "out = (en_record e)\<lparr>le_state := st', le_generation := le_generation (en_record e) + 1\<rparr>"
    and "t = push_event l None k now
      (s\<lparr>as_leases := AList.update l (e\<lparr>en_record := out\<rparr>) (as_leases s)\<rparr>)"
  using assms by (auto simp: transition_def result_simps Let_def)

lemma transition_record_only:
  assumes "transition l g st st' k now s = (r, t)" and "live_state st"
  shows "record_only s t"
proof (cases r)
  case (Inl e)
  with assms show ?thesis by (auto simp: transition_def atomicS_Inl)
next
  case (Inr out)
  from assms(1) [unfolded Inr] show ?thesis
  proof (rule transition_effect)
    fix e assume e: "map_of (as_leases s) l = Some e" "le_state (en_record e) = st"
      "out = (en_record e)\<lparr>le_state := st', le_generation := le_generation (en_record e) + 1\<rparr>"
      "t = push_event l None k now (s\<lparr>as_leases := AList.update l (e\<lparr>en_record := out\<rparr>) (as_leases s)\<rparr>)"
    have "lease_advances e (e\<lparr>en_record := out\<rparr>)" using e assms(2) by (simp add: lease_advances_def)
    with e show ?thesis
      by (auto intro!: record_only_update simp: same_frame_def)
  qed
qed

lemma revoke_loop_result:
  assumes "\<forall>i \<in> set is. map_of (as_leases s) i \<noteq> None"
  obtains t where "revoke_loop rel reason now is s = (Inr (), t)" and "record_only s t"
    and "\<And>l. map_of (as_leases t) l =
      (if l \<in> set is then map_option (revoke_entry reason now) (map_of (as_leases s) l)
       else map_of (as_leases s) l)"
proof -
  obtain t where t: "revoke_loop rel reason now is s = (Inr (), t)"
    and l: "\<forall>l. map_of (as_leases t) l =
      (if l \<in> set is then map_option (revoke_entry reason now) (map_of (as_leases s) l)
       else map_of (as_leases s) l)"
    and k: "map fst (as_leases t) = map fst (as_leases s)" "same_frame s t"
    using revoke_loop_effect [OF assms] by blast
  have "rel_option lease_advances (map_of (as_leases s) l) (map_of (as_leases t) l)" for l
    using l by (cases "map_of (as_leases s) l") auto
  with t l k show ?thesis by (intro that) (auto simp: record_only_def)
qed

text \<open>The cascade below a lease, the lease itself excluded.\<close>

lemma revoke_descendants_result:
  assumes ok: "hm_ok (as_leases s)" and known: "map_of (as_leases s) root \<noteq> None"
  obtains t where "revoke_descendants root reason now s = (Inr (), t)" and "record_only s t"
    and "\<And>l. map_of (as_leases t) l =
      (if l \<in> descendants (map_of (as_leases s)) root - {root}
       then map_option (revoke_entry reason now) (map_of (as_leases s) l)
       else map_of (as_leases s) l)"
proof -
  obtain ds where ds: "descendants_including (as_leases s) root = Inr ds"
    using descendants_including_total [OF known] by blast
  note spec = descendants_including_spec [OF ok ds]
  obtain rest where rest: "ds = root # rest" using spec(3) by blast
  have set_rest: "set (drop 1 ds) = descendants (map_of (as_leases s)) root - {root}"
    using spec(1,2) rest by auto
  then have "\<forall>i \<in> set (drop 1 ds). map_of (as_leases s) i \<noteq> None"
    using descendants_known [where leases = "map_of (as_leases s)", OF known] by blast
  then obtain t where "revoke_loop (\<lambda>_. Some root) reason now (drop 1 ds) s = (Inr (), t)" "record_only s t"
    "\<And>l. map_of (as_leases t) l =
      (if l \<in> set (drop 1 ds) then map_option (revoke_entry reason now) (map_of (as_leases s) l)
       else map_of (as_leases s) l)"
    by (rule revoke_loop_result [where rel = "\<lambda>_. Some root" and reason = reason and now = now]) blast
  with ds set_rest show ?thesis by (intro that) (auto simp: revoke_descendants_def)
qed

lemma revoke_result:
  assumes ok: "hm_ok (as_leases s)" and e: "map_of (as_leases s) l = Some e"
    and g: "le_generation (en_record e) = g" and live: "live_state (le_state (en_record e))"
  obtains ds t where "revoke l g reason now s = (Inr ds, t)" and "record_only s t"
    and "set ds = descendants (map_of (as_leases s)) l" and "distinct ds" and "hd ds = l"
    and "\<And>k. map_of (as_leases t) k =
      (if k \<in> descendants (map_of (as_leases s)) l
       then map_option (revoke_entry reason now) (map_of (as_leases s) k)
       else map_of (as_leases s) k)"
proof -
  have known: "map_of (as_leases s) l \<noteq> None" using e by simp
  obtain ds where ds: "descendants_including (as_leases s) l = Inr ds"
    using descendants_including_total [OF known] by blast
  note spec = descendants_including_spec [OF ok ds]
  have "\<forall>i \<in> set ds. map_of (as_leases s) i \<noteq> None"
    using descendants_known [where leases = "map_of (as_leases s)", OF known] spec(1) by blast
  then obtain t where t: "revoke_loop (\<lambda>i. if i \<noteq> l then Some l else None) reason now ds s = (Inr (), t)"
    "record_only s t"
    "\<And>k. map_of (as_leases t) k =
      (if k \<in> set ds then map_option (revoke_entry reason now) (map_of (as_leases s) k)
       else map_of (as_leases s) k)"
    by (rule revoke_loop_result
        [where rel = "\<lambda>i. if i \<noteq> l then Some l else None" and reason = reason and now = now]) blast
  have "revoke l g reason now s = (Inr ds, t)"
    using e g live ds t(1) by (simp add: revoke_def require_generation_def bindS_Inr liftS_def)
  with t spec show ?thesis by (intro that) auto
qed

lemma revoke_Inl: "hm_ok (as_leases s) \<Longrightarrow> revoke l g reason now s = (Inl x, t) \<Longrightarrow> t = s"
proof -
  assume ok: "hm_ok (as_leases s)" and r: "revoke l g reason now s = (Inl x, t)"
  show ?thesis
  proof (cases "\<exists>e. map_of (as_leases s) l = Some e \<and> le_generation (en_record e) = g
      \<and> live_state (le_state (en_record e))")
    case True
    then obtain e where "map_of (as_leases s) l = Some e" "le_generation (en_record e) = g"
      "live_state (le_state (en_record e))" by blast
    from revoke_result [OF ok this, of reason now] r show ?thesis by (metis prod.inject sum.distinct(1))
  next
    case False
    with r show ?thesis
      by (cases "map_of (as_leases s) l") (auto simp: revoke_def require_generation_def split: if_splits)
  qed
qed

lemma revoke_guards:
  "revoke l g reason now s = (Inr ds, t) \<Longrightarrow>
   \<exists>e. map_of (as_leases s) l = Some e \<and> le_generation (en_record e) = g \<and> live_state (le_state (en_record e))"
  by (cases "map_of (as_leases s) l") (auto simp: revoke_def require_generation_def split: if_splits)

lemma revoke_record_only: "hm_ok (as_leases s) \<Longrightarrow> revoke l g reason now s = (r, t) \<Longrightarrow> record_only s t"
proof (cases r)
  case (Inl e)
  assume "hm_ok (as_leases s)" "revoke l g reason now s = (r, t)"
  with Inl revoke_Inl show ?thesis by fastforce
next
  case (Inr ds)
  assume ok: "hm_ok (as_leases s)" and "revoke l g reason now s = (r, t)"
  then have r: "revoke l g reason now s = (Inr ds, t)" using Inr by simp
  obtain e where "map_of (as_leases s) l = Some e" "le_generation (en_record e) = g"
    "live_state (le_state (en_record e))" using revoke_guards [OF r] by blast
  from revoke_result [OF ok this, of reason now] r show ?thesis by (metis prod.inject)
qed

text \<open>
  The expiry loop: every due lease it was given ends up neither active nor paused, what it reports
  is expired, and it touches nothing but the due leases and their descendants.
\<close>

definition expired_entry :: "'cap lease_entry \<Rightarrow> 'cap lease_entry" where
  "expired_entry e = e\<lparr>en_record := (en_record e)\<lparr>le_state := Expired,
     le_generation := le_generation (en_record e) + 1\<rparr>\<rparr>"

lemma expired_entry_simps [simp]:
  "en_certificate (expired_entry e) = en_certificate e" "en_manifest (expired_entry e) = en_manifest e"
  "le_state (en_record (expired_entry e)) = Expired" "parent_id (expired_entry e) = parent_id e"
  "live_state (le_state (en_record e)) \<Longrightarrow> lease_advances e (expired_entry e)"
  by (simp_all add: expired_entry_def parent_id_def lease_advances_def)

lemma dead_stays_dead:
  "record_only s t \<Longrightarrow> map_of (as_leases s) l = Some e \<Longrightarrow> \<not> live_state (le_state (en_record e)) \<Longrightarrow>
   map_of (as_leases t) l = Some e"
  unfolding record_only_def by (metis lease_advances_def option_rel_Some1)

lemma record_only_children: "record_only s t \<Longrightarrow> child_rel (map_of (as_leases t)) = child_rel (map_of (as_leases s))"
proof (rule child_rel_cong)
  fix l assume "record_only s t"
  then have "rel_option lease_advances (map_of (as_leases s) l) (map_of (as_leases t) l)"
    by (simp add: record_only_def)
  then show "map_option parent_id (map_of (as_leases t) l) = map_option parent_id (map_of (as_leases s) l)"
    by (cases rule: option.rel_cases) (auto simp: parent_id_def lease_advances_def)
qed

lemma record_only_descendants:
  "record_only s t \<Longrightarrow> descendants (map_of (as_leases t)) l = descendants (map_of (as_leases s)) l"
  by (simp add: descendants_def record_only_children)

lemma record_only_known: "record_only s t \<Longrightarrow> map_of (as_leases t) l = None \<longleftrightarrow> map_of (as_leases s) l = None"
  by (metis option.rel_distinct(1,2) option.exhaust record_only_def)

lemma record_only_hm_ok: "record_only s t \<Longrightarrow> hm_ok (as_leases t) \<longleftrightarrow> hm_ok (as_leases s)"
  by (simp add: record_only_def hm_ok_def)

lemma expire_round:
  assumes ok: "hm_ok (as_leases s)" and e: "map_of (as_leases s) l = Some e"
    and live: "live_state (le_state (en_record e))"
  obtains u where "record_only s u" and "map_of (as_leases u) l = Some (expired_entry e)"
    and "\<And>k. k \<notin> descendants (map_of (as_leases s)) l \<Longrightarrow> map_of (as_leases u) k = map_of (as_leases s) k"
    and "\<And>due acc. expire_loop now (l # due) acc s = expire_loop now due (acc @ [l]) u"
proof -
  let ?s = "push_event l None LeaseExpired now
    (s\<lparr>as_leases := AList.update l (expired_entry e) (as_leases s)\<rparr>)"
  have ro: "record_only s ?s"
    using e live by (auto intro!: record_only_update simp: same_frame_def)
  have ok': "hm_ok (as_leases ?s)" using record_only_hm_ok [OF ro] ok by simp
  have look: "map_of (as_leases ?s) = (map_of (as_leases s))(l \<mapsto> expired_entry e)"
    by (simp add: update_conv')
  then have known: "map_of (as_leases ?s) l \<noteq> None" by simp
  obtain u where u: "revoke_descendants l ''ancestor lease expired'' now ?s = (Inr (), u)" "record_only ?s u"
    and lu: "\<And>k. map_of (as_leases u) k =
      (if k \<in> descendants (map_of (as_leases ?s)) l - {l}
       then map_option (revoke_entry ''ancestor lease expired'' now) (map_of (as_leases ?s) k)
       else map_of (as_leases ?s) k)"
    using revoke_descendants_result [OF ok' known, where reason = "''ancestor lease expired''" and now = now]
    by metis
  show ?thesis
  proof
    show "record_only s u" using ro u(2) by (rule record_only_trans)
    show "map_of (as_leases u) l = Some (expired_entry e)" unfolding lu look by simp
    show "map_of (as_leases u) k = map_of (as_leases s) k"
      if "k \<notin> descendants (map_of (as_leases s)) l" for k
    proof -
      have "k \<noteq> l" using that descendants_self by metis
      moreover have "k \<notin> descendants (map_of (as_leases ?s)) l"
        using that record_only_descendants [OF ro, of l] by simp
      ultimately show ?thesis using lu [of k] look by simp
    qed
    show "expire_loop now (l # due) acc s = expire_loop now due (acc @ [l]) u" for due acc
      using e live u(1) by (simp add: bindS_Inr expired_entry_def)
  qed
qed

lemma expire_loop_result:
  assumes "hm_ok (as_leases s)" and "\<forall>l \<in> set due. map_of (as_leases s) l \<noteq> None"
  shows "\<exists>ex t. expire_loop now due acc s = (Inr (acc @ ex), t) \<and> record_only s t
    \<and> set ex \<subseteq> set due
    \<and> (\<forall>l \<in> set due. \<exists>e. map_of (as_leases t) l = Some e \<and> \<not> live_state (le_state (en_record e)))
    \<and> (\<forall>l \<in> set ex. \<exists>e. map_of (as_leases t) l = Some e \<and> le_state (en_record e) = Expired)
    \<and> (\<forall>k. k \<notin> (\<Union>l \<in> set due. descendants (map_of (as_leases s)) l) \<longrightarrow>
         map_of (as_leases t) k = map_of (as_leases s) k)"
  using assms
proof (induction due arbitrary: acc s)
  case Nil
  then show ?case by simp
next
  case (Cons l due)
  obtain e where e: "map_of (as_leases s) l = Some e" using Cons.prems(2) by auto
  show ?case
  proof (cases "live_state (le_state (en_record e))")
    case False
    obtain ex t where t: "expire_loop now due acc s = (Inr (acc @ ex), t)" "record_only s t"
      "set ex \<subseteq> set due"
      "\<forall>l \<in> set due. \<exists>e. map_of (as_leases t) l = Some e \<and> \<not> live_state (le_state (en_record e))"
      "\<forall>l \<in> set ex. \<exists>e. map_of (as_leases t) l = Some e \<and> le_state (en_record e) = Expired"
      "\<forall>k. k \<notin> (\<Union>l \<in> set due. descendants (map_of (as_leases s)) l) \<longrightarrow>
         map_of (as_leases t) k = map_of (as_leases s) k"
      using Cons.IH [OF Cons.prems(1), of acc] Cons.prems(2) by auto
    have "map_of (as_leases t) l = Some e" using dead_stays_dead [OF t(2) e False] .
    with t e False show ?thesis by (intro exI [of _ ex] exI [of _ t]) auto
  next
    case True
    obtain u where u: "record_only s u" "map_of (as_leases u) l = Some (expired_entry e)"
      "\<And>k. k \<notin> descendants (map_of (as_leases s)) l \<Longrightarrow> map_of (as_leases u) k = map_of (as_leases s) k"
      "expire_loop now (l # due) acc s = expire_loop now due (acc @ [l]) u"
      using expire_round [OF Cons.prems(1) e True] by metis
    have "hm_ok (as_leases u)" "\<forall>k \<in> set due. map_of (as_leases u) k \<noteq> None"
      using Cons.prems record_only_hm_ok [OF u(1)] record_only_known [OF u(1)] by auto
    from Cons.IH [OF this, of "acc @ [l]"] obtain ex t
      where t: "expire_loop now due (acc @ [l]) u = (Inr ((acc @ [l]) @ ex), t)" "record_only u t"
      "set ex \<subseteq> set due"
      "\<forall>l \<in> set due. \<exists>e. map_of (as_leases t) l = Some e \<and> \<not> live_state (le_state (en_record e))"
      "\<forall>l \<in> set ex. \<exists>e. map_of (as_leases t) l = Some e \<and> le_state (en_record e) = Expired"
      "\<forall>k. k \<notin> (\<Union>l \<in> set due. descendants (map_of (as_leases u)) l) \<longrightarrow>
         map_of (as_leases t) k = map_of (as_leases u) k" by blast
    have "map_of (as_leases t) l = Some (expired_entry e)"
      by (rule dead_stays_dead [OF t(2) u(2)]) (simp add: live_state_def)
    moreover have "record_only s t" using u(1) t(2) by (rule record_only_trans)
    ultimately show ?thesis
      using t u(3,4) record_only_descendants [OF u(1)]
      by (intro exI [of _ "l # ex"] exI [of _ t]) (auto simp: live_state_def)
  qed
qed

lemma set_due_leases:
  "hm_ok leases \<Longrightarrow> set (due_leases leases now) = {l. \<exists>e. map_of leases l = Some e
     \<and> live_state (le_state (en_record e)) \<and> lc_expires_at (en_certificate e) \<le> now}"
  by (force simp: due_leases_def hm.entries_lookup)

lemma refresh_expirations_result:
  assumes "hm_ok (as_leases s)"
  obtains ex t where "refresh_expirations now s = (Inr ex, t)" and "record_only s t"
    and "set ex \<subseteq> set (due_leases (as_leases s) now)"
    and "\<And>l. l \<in> set (due_leases (as_leases s) now) \<Longrightarrow>
      \<exists>e. map_of (as_leases t) l = Some e \<and> \<not> live_state (le_state (en_record e))"
    and "\<And>l. l \<in> set ex \<Longrightarrow> \<exists>e. map_of (as_leases t) l = Some e \<and> le_state (en_record e) = Expired"
    and "\<And>k. k \<notin> (\<Union>l \<in> set (due_leases (as_leases s) now). descendants (map_of (as_leases s)) l) \<Longrightarrow>
      map_of (as_leases t) k = map_of (as_leases s) k"
proof -
  have "\<forall>l \<in> set (due_leases (as_leases s) now). map_of (as_leases s) l \<noteq> None"
    using assms by (auto simp: set_due_leases)
  from expire_loop_result [OF assms this, of now "[]"] show ?thesis
    using that by (auto simp: refresh_expirations_def)
qed

end
