(* ===== verification/KernelIssue.thy ===== *)
theory KernelIssue
  imports KernelInvariant
begin

text \<open>
  The three operations that issue a lease (bootstrap, delegation and renewal), inverted: what has
  been checked, which certificate was signed, and the state that results.
\<close>

section \<open>Signing\<close>

lemma signed_identity_ok:
  assumes "signed_identity P a subject issuer issuer_custody now = Inr c"
  shows "ic_agent_id c = a" and "ic_key_id c = kc_key_id subject"
    and "ic_verifying_key_bytes c = kc_verifying_key subject" and "ic_issuer_agent_id c = issuer"
    and "ic_issuer_key_id c = kc_key_id issuer_custody"
    and "identity_verify_signature P c (kc_verifying_key issuer_custody) = Inr ()"
    and "key_from_bytes P (kc_verifying_key subject)"
proof -
  from assms obtain sig where
    c: "c = (unsigned_identity a (kc_key_id subject) (kc_verifying_key subject) issuer
          (kc_key_id issuer_custody) now)\<lparr>ic_signature := sig\<rparr>"
    and ver: "identity_verify_signature P c (kc_verifying_key issuer_custody) = Inr ()"
    by (auto simp: signed_identity_def Let_def bindE_eq_Inr)
  from c show "ic_agent_id c = a" "ic_key_id c = kc_key_id subject"
    "ic_verifying_key_bytes c = kc_verifying_key subject" "ic_issuer_agent_id c = issuer"
    "ic_issuer_key_id c = kc_key_id issuer_custody" by (simp_all add: unsigned_identity_def)
  show "identity_verify_signature P c (kc_verifying_key issuer_custody) = Inr ()" by (rule ver)
  then have "key_from_bytes P (ic_verifying_key_bytes c)" using identity_doc.verify_iff by blast
  then show "key_from_bytes P (kc_verifying_key subject)" by (simp add: c unsigned_identity_def)
qed

lemma signed_lease_ok:
  assumes "signed_lease P draft d custody = Inr c"
  shows "c\<lparr>lc_signature := []\<rparr> = unsigned_lease draft d (kc_key_id custody)"
    and "lease_verify_signature P c (kc_verifying_key custody) = Inr ()"
  using assms
  by (auto simp: signed_lease_def Let_def bindE_eq_Inr unsigned_lease_def)

lemma signed_lease_fields:
  assumes "signed_lease P draft d custody = Inr c"
  shows "lc_lease_id c = ld_lease_id draft" "lc_mission_id c = ld_mission_id draft"
    "lc_agent_id c = ld_agent_id draft" "lc_parent_agent_id c = ld_parent_agent_id draft"
    "lc_agent_identity_digest c = ld_agent_identity_digest draft"
    "lc_issuer_identity_digest c = d" "lc_issuer_key_id c = kc_key_id custody"
    "lc_parent_lease c = ld_parent_lease draft" "lc_renewed_from c = ld_renewed_from draft"
    "lc_organization_version c = ld_organization_version draft" "lc_policy_epoch c = ld_policy_epoch draft"
    "lc_granted_authority c = ld_granted_authority draft"
    "lc_delegable_authority c = ld_delegable_authority draft"
    "lc_capability_manifest_digest c = ld_capability_manifest_digest draft"
    "lc_semantic_context_digest c = ld_semantic_context_digest draft"
    "lc_issued_at c = ld_issued_at draft" "lc_expires_at c = ld_expires_at draft"
  using assms by (auto simp: signed_lease_def Let_def bindE_eq_Inr unsigned_lease_def)

section \<open>The requests that pass\<close>

lemma validate_root_request_ok [result_simps]:
  "validate_root_request P req now = Inr u \<longleftrightarrow>
     is_usable_at (rr_mission req) now \<and> now < rr_expires_at req
     \<and> rr_expires_at req \<le> me_expires_at (rr_mission req)
     \<and> validate_authority_sets P (rr_granted_authority req) (rr_delegable_authority req) = Inr ()
     \<and> authority_is_subset_of_capabilities P (rr_granted_authority req)
          (me_allowed_capabilities (rr_mission req))
     \<and> validate_manifest P (rr_capability_manifest req) (rr_granted_authority req) = Inr ()
     \<and> (\<forall>b \<in> set (cm_approved_tools (rr_capability_manifest req)).
          bt_tool_id b \<in> set (me_allowed_tools (rr_mission req)))"
  unfolding validate_root_request_def if_err_eq_Inr bindE_eq_Inr list_ex_iff by auto

lemma validate_delegation_request_ok [result_simps]:
  "validate_delegation_request P s parent req now = Inr u \<longleftrightarrow>
     now < dr_expires_at req \<and> dr_expires_at req \<le> lc_expires_at (en_certificate parent)
     \<and> dr_expires_at req \<le> me_expires_at (as_mission s)
     \<and> validate_authority_sets P (dr_granted_authority req) (dr_delegable_authority req) = Inr ()
     \<and> authority_is_subset_of P (dr_granted_authority req) (lc_delegable_authority (en_certificate parent))
     \<and> validate_manifest P (dr_capability_manifest req) (dr_granted_authority req) = Inr ()
     \<and> validate_manifest_attenuation (dr_capability_manifest req) (en_manifest parent) = Inr ()"
  unfolding validate_delegation_request_def if_err_eq_Inr bindE_eq_Inr by auto

lemma validate_renewal_request_ok [result_simps]:
  "validate_renewal_request P s old req now = Inr u \<longleftrightarrow>
     now < nr_expires_at req \<and> nr_expires_at req \<le> me_expires_at (as_mission s)
     \<and> nr_semantic_context_digest req = lc_semantic_context_digest (en_certificate old)
     \<and> validate_authority_sets P (nr_granted_authority req) (nr_delegable_authority req) = Inr ()
     \<and> authority_is_subset_of P (nr_granted_authority req) (lc_granted_authority (en_certificate old))
     \<and> authority_is_subset_of P (nr_delegable_authority req) (lc_delegable_authority (en_certificate old))
     \<and> validate_manifest P (nr_capability_manifest req) (nr_granted_authority req) = Inr ()
     \<and> validate_manifest_attenuation (nr_capability_manifest req) (en_manifest old) = Inr ()
     \<and> (\<forall>r. lc_parent_lease (en_certificate old) = Some r \<longrightarrow> (\<exists>p. map_of (as_leases s) (lr_lease_id r) = Some p
          \<and> entry_live p now \<and> nr_expires_at req \<le> lc_expires_at (en_certificate p)))"
  unfolding validate_renewal_request_def if_err_eq_Inr bindE_eq_Inr
  by (cases "lc_parent_lease (en_certificate old)") (auto simp: result_simps)

section \<open>Bootstrap\<close>

lemma bootstrap_effect:
  assumes "bootstrap P req custody uuid now = Inr s"
  obtains ident d l md cert where "validate_root_request P req now = Inr ()"
    and "signed_identity P (rr_agent_id req) custody None custody now = Inr ident"
    and "identity_canonical_digest P ident = Inr d" and "new_lease_id uuid = Inr l"
    and "manifest_canonical_digest P (rr_capability_manifest req) = Inr md"
    and "signed_lease P
        (root_draft req l d md now) d custody = Inr cert"
    and "s = push_event l None LeaseIssued now (push_event l None IdentityRegistered now
        \<lparr>as_mission = rr_mission req, as_root_lease_id = l,
         as_identities = [(rr_agent_id req, ident)], as_custodians = [(rr_agent_id req, custody)],
         as_leases = [(l, \<lparr>en_certificate = cert, en_record = active_lease_record l,
           en_manifest = rr_capability_manifest req\<rparr>)], as_events = []\<rparr>)"
  using assms unfolding bootstrap_def Let_def bindE_eq_Inr by auto

section \<open>Delegation\<close>

lemma delegate_Inl: "delegate P req custody uuid now s = (Inl x, t) \<Longrightarrow> t = s"
  by (simp add: delegate_def atomicS_Inl)

lemma delegate_effect:
  assumes "delegate P req custody uuid now s = (Inr l, t)"
  obtains parent v pcustody ident d pident pref md pd cert
    where "map_of (as_leases s) (dr_parent_lease_id req) = Some parent"
    and "validate_chain P s (dr_parent_lease_id req) (Some (dr_expected_parent_generation req))
           (en_manifest parent) now = Inr v"
    and "length (va_chain v) < MAX_AUTHORITY_CHAIN_DEPTH"
    and "validate_delegation_request P s parent req now = Inr ()"
    and "map_of (as_identities s) (dr_child_agent_id req) = None"
    and "\<forall>(a, i) \<in> set (as_identities s). ic_key_id i \<noteq> kc_key_id custody"
    and "map_of (as_custodians s) (lc_agent_id (en_certificate parent)) = Some pcustody"
    and "signed_identity P (dr_child_agent_id req) custody (Some (lc_agent_id (en_certificate parent)))
           pcustody now = Inr ident"
    and "identity_canonical_digest P ident = Inr d"
    and "map_of (as_identities s) (lc_agent_id (en_certificate parent)) = Some pident"
    and "make_lease_ref P (en_certificate parent) = Inr pref"
    and "new_lease_id uuid = Inr l"
    and "manifest_canonical_digest P (dr_capability_manifest req) = Inr md"
    and "identity_canonical_digest P pident = Inr pd"
    and "signed_lease P
        (delegation_draft req (en_certificate parent) l d pref md now) pd pcustody = Inr cert"
    and "t = push_event l (Some (dr_parent_lease_id req)) LeaseDelegated now
          (push_event l (Some (dr_parent_lease_id req)) IdentityRegistered now
          (s\<lparr>as_identities := AList.update (dr_child_agent_id req) ident (as_identities s),
             as_custodians := AList.update (dr_child_agent_id req) custody (as_custodians s),
             as_leases := AList.update l \<lparr>en_certificate = cert, en_record = active_lease_record l,
               en_manifest = dr_capability_manifest req\<rparr> (as_leases s)\<rparr>))"
  using assms
  unfolding delegate_def atomicS_eq_Inr Let_def bindE_eq_Inr if_err_eq_Inr ok_or_eq_Inr not_le
    sum.inject prod.inject not_not
  by (elim exE conjE, hypsubst) (rule that; (assumption | auto simp: list_ex_iff))

section \<open>Renewal\<close>

lemma renewed_certificate_effect:
  assumes "renewed_certificate P req uuid now s = Inr (old, l, cert)"
  obtains v iident icustody oref md d
    where "map_of (as_leases s) (nr_lease_id req) = Some old"
    and "validate_chain P s (nr_lease_id req) (Some (nr_expected_generation req))
           (en_manifest old) now = Inr v"
    and "validate_renewal_request P s old req now = Inr ()"
    and "map_of (as_identities s) (issuer_agent (en_certificate old)) = Some iident"
    and "map_of (as_custodians s) (issuer_agent (en_certificate old)) = Some icustody"
    and "new_lease_id uuid = Inr l" and "make_lease_ref P (en_certificate old) = Inr oref"
    and "manifest_canonical_digest P (nr_capability_manifest req) = Inr md"
    and "identity_canonical_digest P iident = Inr d"
    and "signed_lease P
        (renewal_draft req (en_certificate old) l oref md now) d icustody = Inr cert"
  using assms
  unfolding renewed_certificate_def Let_def bindE_eq_Inr ok_or_eq_Inr issuer_agent_def [symmetric]
  by auto

text \<open>The state between the cascade and the insertion of the fresh lease.\<close>

lemma retired_advances: "live_state (le_state (en_record e)) \<Longrightarrow> lease_advances e (retired_entry l e)"
  by (simp add: retired_entry_def lease_advances_def)

lemma retired_dead [simp]: "\<not> live_state (le_state (en_record (retired_entry l e)))"
  by (simp add: retired_entry_def live_state_def)

lemma validated_leaf_live:
  assumes "validate_chain P s l g m now = Inr v" and "map_of (as_leases s) l = Some e"
  shows "entry_live e now" and "\<forall>x. g = Some x \<longrightarrow> le_generation (en_record e) = x"
proof -
  obtain es where ch: "authority_chain P s l g now es" using validate_chain_sound [OF assms(1)] by blast
  then obtain e' fs where "es = (l, e') # fs" "map_of (as_leases s) l = Some e'"
    unfolding authority_chain_def using lease_path_hd by blast
  with ch assms(2) show "entry_live e now" "\<forall>x. g = Some x \<longrightarrow> le_generation (en_record e) = x"
    by (auto simp: authority_chain_def)
qed

lemma renew_result:
  assumes ok: "hm_ok (as_leases s)" and c: "renewed_certificate P req uuid now s = Inr (old, l, cert)"
  obtains u where "record_only s u"
    and "map_of (as_leases u) (nr_lease_id req) = Some (retired_entry l old)"
    and "\<And>k. k \<noteq> nr_lease_id req \<Longrightarrow> map_of (as_leases u) k =
      (if k \<in> descendants (map_of (as_leases s)) (nr_lease_id req)
       then map_option (revoke_entry ''ancestor lease retired during renewal'' now) (map_of (as_leases s) k)
       else map_of (as_leases s) k)"
    and "renew P req uuid now s = (Inr l, push_event l (Some (nr_lease_id req)) LeaseRenewed now
      (u\<lparr>as_leases := AList.update l \<lparr>en_certificate = cert, en_record = active_lease_record l,
           en_manifest = nr_capability_manifest req\<rparr> (as_leases u),
         as_root_lease_id := if as_root_lease_id s = nr_lease_id req then l else as_root_lease_id s\<rparr>))"
proof -
  let ?o = "nr_lease_id req" and ?why = "''ancestor lease retired during renewal''"
  let ?s = "s\<lparr>as_leases := AList.update ?o (retired_entry l old) (as_leases s)\<rparr>"
  obtain v where old: "map_of (as_leases s) ?o = Some old"
    and v: "validate_chain P s ?o (Some (nr_expected_generation req)) (en_manifest old) now = Inr v"
    using renewed_certificate_effect [OF c] .
  have live: "live_state (le_state (en_record old))"
    using validated_leaf_live(1) [OF v old] by (simp add: entry_live_def live_state_def)
  have ro: "record_only s ?s"
    using old retired_advances [OF live] by (auto intro!: record_only_update simp: same_frame_def)
  have look: "map_of (as_leases ?s) = (map_of (as_leases s))(?o \<mapsto> retired_entry l old)"
    by (simp add: update_conv')
  then have known: "map_of (as_leases ?s) ?o \<noteq> None" by simp
  have ok': "hm_ok (as_leases ?s)" using record_only_hm_ok [OF ro] ok by simp
  obtain u where u: "revoke_descendants ?o ?why now ?s = (Inr (), u)" "record_only ?s u"
    and lu: "\<And>k. map_of (as_leases u) k =
      (if k \<in> descendants (map_of (as_leases ?s)) ?o - {?o}
       then map_option (revoke_entry ?why now) (map_of (as_leases ?s) k)
       else map_of (as_leases ?s) k)"
    using revoke_descendants_result [OF ok' known, where reason = ?why and now = now] by metis
  have ds: "descendants (map_of (as_leases ?s)) ?o = descendants (map_of (as_leases s)) ?o"
    by (rule record_only_descendants [OF ro])
  have root: "as_root_lease_id u = as_root_lease_id s"
    using u(2) by (simp add: record_only_def same_frame_def)
  show ?thesis
  proof
    show "record_only s u" using ro u(2) by (rule record_only_trans)
    show "map_of (as_leases u) ?o = Some (retired_entry l old)" using lu [of ?o] look by simp
    show "map_of (as_leases u) k =
      (if k \<in> descendants (map_of (as_leases s)) ?o
       then map_option (revoke_entry ?why now) (map_of (as_leases s) k) else map_of (as_leases s) k)"
      if "k \<noteq> ?o" for k
      using that lu [of k] ds look by simp
    show "renew P req uuid now s = (Inr l, push_event l (Some ?o) LeaseRenewed now
      (u\<lparr>as_leases := AList.update l \<lparr>en_certificate = cert, en_record = active_lease_record l,
           en_manifest = nr_capability_manifest req\<rparr> (as_leases u),
         as_root_lease_id := if as_root_lease_id s = ?o then l else as_root_lease_id s\<rparr>))"
      using u(1) by (simp add: renew_def c bindS_Inr Let_def root)
  qed
qed

lemma renew_certificate: "renew P req uuid now s = (Inr l, t) \<Longrightarrow>
  hm_ok (as_leases s) \<Longrightarrow> \<exists>old cert. renewed_certificate P req uuid now s = Inr (old, l, cert)"
proof -
  assume r: "renew P req uuid now s = (Inr l, t)" and ok: "hm_ok (as_leases s)"
  then obtain old l' cert where c: "renewed_certificate P req uuid now s = Inr (old, l', cert)"
    by (auto simp: renew_def split: sum.splits)
  from renew_result [OF ok c] r have "l' = l" by (metis prod.inject sum.inject(2))
  with c show ?thesis by blast
qed

lemma renew_Inl: "renew P req uuid now s = (Inl x, t) \<Longrightarrow> hm_ok (as_leases s) \<Longrightarrow> t = s"
proof (cases "renewed_certificate P req uuid now s")
  case (Inl y)
  assume "renew P req uuid now s = (Inl x, t)"
  with Inl show ?thesis by (simp add: renew_def)
next
  case (Inr y)
  assume r: "renew P req uuid now s = (Inl x, t)" and ok: "hm_ok (as_leases s)"
  obtain old l cert where c: "renewed_certificate P req uuid now s = Inr (old, l, cert)"
    using Inr by (metis prod_cases3)
  from renew_result [OF ok c] r show ?thesis by (metis prod.inject sum.distinct(1))
qed

text \<open>The lease table after a renewal.\<close>

lemma renew_leases:
  assumes "hm_ok (as_leases s)" and "renewed_certificate P req uuid now s = Inr (old, l, cert)"
    and "renew P req uuid now s = (Inr l, t)"
  shows "map_of (as_leases t) k =
    (if k = l then Some \<lparr>en_certificate = cert, en_record = active_lease_record l,
       en_manifest = nr_capability_manifest req\<rparr>
     else if k = nr_lease_id req then Some (retired_entry l old)
     else if k \<in> descendants (map_of (as_leases s)) (nr_lease_id req)
     then map_option (revoke_entry ''ancestor lease retired during renewal'' now) (map_of (as_leases s) k)
     else map_of (as_leases s) k)"
  using assms(1,2)
proof (rule renew_result)
  fix u
  assume u: "map_of (as_leases u) (nr_lease_id req) = Some (retired_entry l old)"
    "\<And>k. k \<noteq> nr_lease_id req \<Longrightarrow> map_of (as_leases u) k =
      (if k \<in> descendants (map_of (as_leases s)) (nr_lease_id req)
       then map_option (revoke_entry ''ancestor lease retired during renewal'' now) (map_of (as_leases s) k)
       else map_of (as_leases s) k)"
    and r: "renew P req uuid now s = (Inr l, push_event l (Some (nr_lease_id req)) LeaseRenewed now
      (u\<lparr>as_leases := AList.update l \<lparr>en_certificate = cert, en_record = active_lease_record l,
           en_manifest = nr_capability_manifest req\<rparr> (as_leases u),
         as_root_lease_id := if as_root_lease_id s = nr_lease_id req then l else as_root_lease_id s\<rparr>))"
  from r assms(3) have "map_of (as_leases t) = (map_of (as_leases u))(l \<mapsto>
      \<lparr>en_certificate = cert, en_record = active_lease_record l, en_manifest = nr_capability_manifest req\<rparr>)"
    by (auto simp: update_conv')
  with u show ?thesis by simp
qed

end
