(* ===== verification/KernelSafety.thy ===== *)
theory KernelSafety
  imports KernelIssue
begin

text \<open>
  The invariant of the authority kernel, its preservation by every operation, and the states the
  kernel reaches from a bootstrap. Two properties of the platform are hypotheses where they are
  used: the capability order is transitive, and a JSON value can always be printed.
\<close>

section \<open>The invariant\<close>

definition cap_trans :: "'cap platform \<Rightarrow> bool" where
  "cap_trans P \<longleftrightarrow> (\<forall>a b c. cap_subset P a b \<longrightarrow> cap_subset P b c \<longrightarrow> cap_subset P a c)"

definition json_total :: "'cap platform \<Rightarrow> bool" where
  "json_total P \<longleftrightarrow> (\<forall>v. \<exists>b. json_to_vec P v = Inr b)"

lemma authority_subset_trans:
  "cap_trans P \<Longrightarrow> authority_is_subset_of P a b \<Longrightarrow> authority_is_subset_of_capabilities P b cs \<Longrightarrow>
   authority_is_subset_of_capabilities P a cs"
  unfolding cap_trans_def authority_is_subset_of_def authority_is_subset_of_capabilities_def
    list_all_iff list_ex_iff by meson

definition root_bounded :: "'cap platform \<Rightarrow> 'cap mission_envelope \<Rightarrow> 'cap lease_entry \<Rightarrow> bool" where
  "root_bounded P m e \<longleftrightarrow> lc_parent_agent_id (en_certificate e) = None
     \<and> authority_is_subset_of_capabilities P (lc_granted_authority (en_certificate e)) (me_allowed_capabilities m)
     \<and> validate_authority_sets P (lc_granted_authority (en_certificate e))
         (lc_delegable_authority (en_certificate e)) = Inr ()
     \<and> lc_expires_at (en_certificate e) \<le> me_expires_at m
     \<and> (\<forall>b \<in> set (cm_approved_tools (en_manifest e)). bt_tool_id b \<in> set (me_allowed_tools m))"

definition agent_of :: "lease_id \<times> 'cap lease_entry \<Rightarrow> agent_id" where
  "agent_of le = lc_agent_id (en_certificate (snd le))"

lemma agent_of_simp [simp]: "agent_of (l, e) = lc_agent_id (en_certificate e)"
  by (simp add: agent_of_def)

text \<open>The agents of a lease's ancestors are the issuers of its agent's identity, one by one.\<close>

definition lineage :: "'cap platform \<Rightarrow> 'cap authority_state \<Rightarrow> lease_id \<Rightarrow> 'cap lease_entry \<Rightarrow> bool" where
  "lineage P s l e \<longleftrightarrow> (\<exists>es. lease_path (map_of (as_leases s)) l es
     \<and> length es \<le> MAX_AUTHORITY_CHAIN_DEPTH
     \<and> identity_path P (map_of (as_identities s)) (lc_agent_id (en_certificate e)) (map agent_of es))"

definition parent_ok :: "'cap platform \<Rightarrow> 'cap authority_state \<Rightarrow> 'cap lease_entry \<Rightarrow> bool" where
  "parent_ok P s e \<longleftrightarrow> (case lc_parent_lease (en_certificate e) of
     None \<Rightarrow> root_bounded P (as_mission s) e
   | Some r \<Rightarrow> \<exists>p. map_of (as_leases s) (lr_lease_id r) = Some p \<and> attenuated_child P p e)"

definition entry_ok :: "'cap platform \<Rightarrow> 'cap authority_state \<Rightarrow> lease_id \<Rightarrow> 'cap lease_entry \<Rightarrow> bool" where
  "entry_ok P s l e \<longleftrightarrow> lc_lease_id (en_certificate e) = l \<and> le_lease_id (en_record e) = l
     \<and> entry_certified P s e \<and> lineage P s l e \<and> parent_ok P s e"

definition custody_ok :: "'cap authority_state \<Rightarrow> bool" where
  "custody_ok s \<longleftrightarrow> (\<forall>a k. map_of (as_custodians s) a = Some k \<longrightarrow>
     (\<exists>i. map_of (as_identities s) a = Some i \<and> ic_key_id i = kc_key_id k
        \<and> ic_verifying_key_bytes i = kc_verifying_key k))"

definition tables_ok :: "'cap authority_state \<Rightarrow> bool" where
  "tables_ok s \<longleftrightarrow> hm_ok (as_leases s) \<and> hm_ok (as_identities s) \<and> hm_ok (as_custodians s)"

definition root_ok :: "'cap authority_state \<Rightarrow> bool" where
  "root_ok s \<longleftrightarrow> (\<exists>e. map_of (as_leases s) (as_root_lease_id s) = Some e
     \<and> lc_parent_lease (en_certificate e) = None)"

definition kernel_inv :: "'cap platform \<Rightarrow> 'cap authority_state \<Rightarrow> bool" where
  "kernel_inv P s \<longleftrightarrow> tables_ok s \<and> custody_ok s \<and> root_ok s
     \<and> (\<forall>l e. map_of (as_leases s) l = Some e \<longrightarrow> entry_ok P s l e)"

lemma kernel_inv_entry: "kernel_inv P s \<Longrightarrow> map_of (as_leases s) l = Some e \<Longrightarrow> entry_ok P s l e"
  by (simp add: kernel_inv_def)

lemma kernel_inv_hm: "kernel_inv P s \<Longrightarrow> hm_ok (as_leases s)"
  by (simp add: kernel_inv_def tables_ok_def)

lemma custody_key:
  assumes "kernel_inv P s" and "map_of (as_custodians s) a = Some k" and "map_of (as_identities s) a = Some i"
  shows "ic_key_id i = kc_key_id k" and "ic_verifying_key_bytes i = kc_verifying_key k"
proof -
  have "custody_ok s" using assms(1) by (simp add: kernel_inv_def)
  then obtain j where "map_of (as_identities s) a = Some j" "ic_key_id j = kc_key_id k"
    "ic_verifying_key_bytes j = kc_verifying_key k" using assms(2) unfolding custody_ok_def by blast
  with assms(3) show "ic_key_id i = kc_key_id k" "ic_verifying_key_bytes i = kc_verifying_key k" by simp_all
qed

section \<open>The invariant of an entry survives evolution\<close>

lemma attenuated_child_advances:
  "lease_advances p p' \<Longrightarrow> lease_advances e e' \<Longrightarrow> attenuated_child P p e \<Longrightarrow> attenuated_child P p' e'"
  by (simp add: lease_advances_def attenuated_child_def)

lemma lease_path_evolves:
  assumes "lease_path (map_of (as_leases s)) l es" and "evolves s t"
  shows "\<exists>fs. lease_path (map_of (as_leases t)) l fs \<and> length fs = length es \<and> map agent_of fs = map agent_of es
    \<and> map fst fs = map fst es"
  using assms(1)
proof (induction rule: lease_path.induct)
  case (lease_root l e)
  obtain e' where "map_of (as_leases t) l = Some e'" "lease_advances e e'"
    using evolves_lease [OF assms(2) lease_root(1)] .
  with lease_root show ?case
    by (intro exI [of _ "[(l, e')]"]) (auto simp: lease_advances_def intro: lease_path.lease_root)
next
  case (lease_child l e r es)
  obtain e' where e': "map_of (as_leases t) l = Some e'" "lease_advances e e'"
    using evolves_lease [OF assms(2) lease_child.hyps(1)] .
  obtain fs where fs: "lease_path (map_of (as_leases t)) (lr_lease_id r) fs" "length fs = length es"
    "map agent_of fs = map agent_of es" "map fst fs = map fst es" using lease_child.IH by blast
  have "lc_parent_lease (en_certificate e') = Some r"
    using e'(2) lease_child.hyps(2) by (simp add: lease_advances_def)
  from lease_path.lease_child [where leases = "map_of (as_leases t)", OF e'(1) this fs(1)] fs e'(2) show ?case
    by (intro exI [of _ "(l, e') # fs"]) (simp add: lease_advances_def)
qed

lemma lineage_evolves:
  assumes "lineage P s l e" and "evolves s t" and "lease_advances e e'"
  shows "lineage P t l e'"
proof -
  obtain es where es: "lease_path (map_of (as_leases s)) l es" "length es \<le> MAX_AUTHORITY_CHAIN_DEPTH"
    "identity_path P (map_of (as_identities s)) (lc_agent_id (en_certificate e)) (map agent_of es)"
    using assms(1) by (auto simp: lineage_def)
  obtain fs where "lease_path (map_of (as_leases t)) l fs" "length fs = length es"
    "map agent_of fs = map agent_of es" using lease_path_evolves [OF es(1) assms(2)] by blast
  moreover have "identity_path P (map_of (as_identities t)) (lc_agent_id (en_certificate e)) (map agent_of es)"
    using es(3) by (rule identity_path_mono) (use assms(2) in \<open>simp add: evolves_def\<close>)
  ultimately show ?thesis using es(2) assms(3) by (auto simp: lineage_def lease_advances_def)
qed

lemma entry_certified_evolves:
  assumes "entry_certified P s e" and "evolves s t" and "lease_advances e e'"
  shows "entry_certified P t e'"
proof -
  have ids: "map_of (as_identities t) a = Some i" if "map_of (as_identities s) a = Some i" for a i
    using that assms(2) by (simp add: evolves_def)
  have cert: "en_certificate e' = en_certificate e" "en_manifest e' = en_manifest e"
    "as_mission t = as_mission s" using assms(2,3) by (simp_all add: lease_advances_def evolves_def)
  have "signed_by_issuer P (map_of (as_identities t)) (en_certificate e)"
    using assms(1) ids unfolding entry_certified_def signed_by_issuer_def by meson
  moreover have "renewal_bound P (map_of (as_leases t)) (en_certificate e)"
  proof (cases "lc_renewed_from (en_certificate e)")
    case None
    then show ?thesis by (simp add: renewal_bound_def)
  next
    case (Some r)
    then obtain p where p: "map_of (as_leases s) (lr_lease_id r) = Some p" "le_state (en_record p) = Retired"
      using assms(1) by (auto simp: entry_certified_def renewal_bound_def)
    obtain p' where "map_of (as_leases t) (lr_lease_id r) = Some p'" "lease_advances p p'"
      using evolves_lease [OF assms(2) p(1)] .
    with p have "map_of (as_leases t) (lr_lease_id r) = map_of (as_leases s) (lr_lease_id r)"
      by (simp add: lease_advances_def live_state_def)
    with assms(1) Some show ?thesis by (simp add: entry_certified_def renewal_bound_def)
  qed
  ultimately show ?thesis using assms(1) cert by (simp add: entry_certified_def)
qed

lemma parent_ok_evolves:
  assumes "parent_ok P s e" and "evolves s t" and "lease_advances e e'"
  shows "parent_ok P t e'"
proof (cases "lc_parent_lease (en_certificate e)")
  case None
  with assms show ?thesis by (simp add: parent_ok_def root_bounded_def lease_advances_def evolves_def)
next
  case (Some r)
  with assms(1) obtain p where p: "map_of (as_leases s) (lr_lease_id r) = Some p" "attenuated_child P p e"
    by (auto simp: parent_ok_def)
  obtain p' where "map_of (as_leases t) (lr_lease_id r) = Some p'" "lease_advances p p'"
    using evolves_lease [OF assms(2) p(1)] .
  with p(2) assms(3) Some show ?thesis
    using attenuated_child_advances by (fastforce simp: parent_ok_def lease_advances_def)
qed

lemma entry_ok_evolves:
  "entry_ok P s l e \<Longrightarrow> evolves s t \<Longrightarrow> lease_advances e e' \<Longrightarrow> entry_ok P t l e'"
  using lineage_evolves entry_certified_evolves parent_ok_evolves
  by (fastforce simp: entry_ok_def lease_advances_def)

text \<open>An evolution keeps the invariant when every new entry is in order.\<close>

lemma kernel_inv_evolves:
  assumes inv: "kernel_inv P s" and ev: "evolves s t" and "tables_ok t" and "custody_ok t" and "root_ok t"
    and new: "\<And>l e. map_of (as_leases t) l = Some e \<Longrightarrow> map_of (as_leases s) l = None \<Longrightarrow> entry_ok P t l e"
  shows "kernel_inv P t"
proof -
  have "entry_ok P t l e" if e: "map_of (as_leases t) l = Some e" for l e
  proof (cases "map_of (as_leases s) l")
    case None
    with new e show ?thesis by simp
  next
    case (Some d)
    then have "lease_advances d e" using evolves_lease [OF ev Some] e by auto
    with entry_ok_evolves [OF kernel_inv_entry [OF inv Some] ev] show ?thesis .
  qed
  with assms show ?thesis by (simp add: kernel_inv_def)
qed

lemma kernel_inv_record_only:
  assumes "kernel_inv P s" and "record_only s t"
  shows "kernel_inv P t"
proof (rule kernel_inv_evolves [OF assms(1) record_only_evolves [OF assms(2)]])
  have frame: "same_frame s t" using assms(2) by (simp add: record_only_def)
  show "tables_ok t" using assms record_only_hm_ok [OF assms(2)] frame
    by (simp add: kernel_inv_def tables_ok_def same_frame_def)
  show "custody_ok t" using assms(1) frame by (simp add: kernel_inv_def custody_ok_def same_frame_def)
  obtain e where e: "map_of (as_leases s) (as_root_lease_id s) = Some e"
    "lc_parent_lease (en_certificate e) = None" using assms(1) by (auto simp: kernel_inv_def root_ok_def)
  obtain e' where "map_of (as_leases t) (as_root_lease_id s) = Some e'" "lease_advances e e'"
    using evolves_lease [OF record_only_evolves [OF assms(2)] e(1)] .
  with e frame show "root_ok t" by (auto simp: root_ok_def same_frame_def lease_advances_def)
  show "entry_ok P t l e" if "map_of (as_leases t) l = Some e" "map_of (as_leases s) l = None" for l e
    using that record_only_known [OF assms(2), of l] by simp
qed

section \<open>Issuing keeps the invariant\<close>

lemma identity_path_key:
  "identity_path P ids a as \<Longrightarrow> ids a = Some i \<Longrightarrow> key_from_bytes P (ic_verifying_key_bytes i)"
  by (cases rule: identity_path.cases) (auto simp: issued_by_def identity_doc.verify_iff)

lemma lineage_identity:
  "lineage P s l e \<Longrightarrow> \<exists>as i. identity_path P (map_of (as_identities s)) (lc_agent_id (en_certificate e)) as
     \<and> map_of (as_identities s) (lc_agent_id (en_certificate e)) = Some i
     \<and> key_from_bytes P (ic_verifying_key_bytes i)"
  unfolding lineage_def by (metis identity_path.cases identity_path_key)

lemma bootstrap_inv:
  assumes "bootstrap P req custody uuid now = Inr s"
  shows "kernel_inv P s"
  using assms
proof (rule bootstrap_effect)
  fix ident d l md cert
  assume req: "validate_root_request P req now = Inr ()"
    and ident: "signed_identity P (rr_agent_id req) custody None custody now = Inr ident"
    and d: "identity_canonical_digest P ident = Inr d" and l: "new_lease_id uuid = Inr l"
    and md: "manifest_canonical_digest P (rr_capability_manifest req) = Inr md"
    and cert: "signed_lease P
        (root_draft req l d md now) d custody = Inr cert"
    and s: "s = push_event l None LeaseIssued now (push_event l None IdentityRegistered now
        \<lparr>as_mission = rr_mission req, as_root_lease_id = l,
         as_identities = [(rr_agent_id req, ident)], as_custodians = [(rr_agent_id req, custody)],
         as_leases = [(l, \<lparr>en_certificate = cert, en_record = active_lease_record l,
           en_manifest = rr_capability_manifest req\<rparr>)], as_events = []\<rparr>)"
  let ?e = "\<lparr>en_certificate = cert, en_record = active_lease_record l, en_manifest = rr_capability_manifest req\<rparr>"
  note sid = signed_identity_ok [OF ident] and f = signed_lease_fields [OF cert, simplified]
    and ver = signed_lease_ok(2) [OF cert]
  have self: "issued_by P ident ident" using sid by (simp add: issued_by_def)
  have path: "identity_path P (map_of (as_identities s)) (rr_agent_id req) [rr_agent_id req]"
    by (rule identity_path.path_root [of _ _ ident]) (simp_all add: s sid self)
  have "lineage P s l ?e" unfolding lineage_def
    by (rule exI [of _ "[(l, ?e)]"])
      (use path f in \<open>auto simp: s MAX_AUTHORITY_CHAIN_DEPTH_def intro: lease_path.lease_root\<close>)
  moreover have "entry_certified P s ?e"
    using f md d sid ver
    by (simp add: entry_certified_def bound_to_mission_def signed_by_issuer_def issuer_agent_def
        renewal_bound_def s)
  moreover have "parent_ok P s ?e"
    using req f by (simp add: parent_ok_def root_bounded_def validate_root_request_ok s)
  ultimately have "entry_ok P s l ?e" using f by (simp add: entry_ok_def active_lease_record_def)
  then show ?thesis
    using f sid by (auto simp: kernel_inv_def tables_ok_def custody_ok_def root_ok_def s)
qed

lemma evolves_insert:
  assumes "map_of (as_leases s) l = None" and "as_mission t = as_mission s"
    and "map_of (as_leases t) = (map_of (as_leases s))(l \<mapsto> e)"
    and "\<And>a i. map_of (as_identities s) a = Some i \<Longrightarrow> map_of (as_identities t) a = Some i"
  shows "evolves s t"
  using assms by (auto simp: evolves_def)

text \<open>The lineage of a delegated lease: its parent's, one longer.\<close>

lemma delegated_lineage:
  assumes lin: "lineage P s p parent" and ev: "evolves s t"
    and v: "validate_chain P s p g m now = Inr v" "length (va_chain v) < MAX_AUTHORITY_CHAIN_DEPTH"
    and e: "map_of (as_leases t) l = Some e" "lc_parent_lease (en_certificate e) = Some r" "lr_lease_id r = p"
    and child: "map_of (as_identities t) (lc_agent_id (en_certificate e)) = Some i"
      "ic_issuer_agent_id i = Some (lc_agent_id (en_certificate parent))"
    and issuer: "map_of (as_identities t) (lc_agent_id (en_certificate parent)) = Some j" "issued_by P i j"
  shows "lineage P t l e"
proof -
  obtain es where es: "lease_path (map_of (as_leases s)) p es"
    "identity_path P (map_of (as_identities s)) (lc_agent_id (en_certificate parent)) (map agent_of es)"
    using lin by (auto simp: lineage_def)
  obtain es' where "authority_chain P s p g now es'" "chain_observation P p es' v"
    using validate_chain_sound [OF v(1)] by blast
  then have len: "length es < MAX_AUTHORITY_CHAIN_DEPTH"
    using lease_path_unique [OF es(1)] v(2) by (auto simp: authority_chain_def chain_observation_def dest: mapE_length)
  obtain fs where fs: "lease_path (map_of (as_leases t)) p fs" "length fs = length es" "map agent_of fs = map agent_of es"
    using lease_path_evolves [OF es(1) ev] by blast
  have "identity_path P (map_of (as_identities t)) (lc_agent_id (en_certificate parent)) (map agent_of es)"
    using es(2) by (rule identity_path_mono) (use ev in \<open>simp add: evolves_def\<close>)
  with child issuer have "identity_path P (map_of (as_identities t)) (lc_agent_id (en_certificate e))
      (lc_agent_id (en_certificate e) # map agent_of es)" by (rule identity_path.path_issued)
  moreover have "lease_path (map_of (as_leases t)) l ((l, e) # fs)"
    using e(1,2) by (rule lease_path.lease_child) (simp add: e(3) fs(1))
  ultimately show ?thesis unfolding lineage_def using fs len by (intro exI [of _ "(l, e) # fs"]) auto
qed

lemma delegate_inv:
  fixes s :: "'cap authority_state"
  assumes inv: "kernel_inv P s" and fresh: "map_of (as_leases s) l = None"
    and del: "delegate P req custody uuid now s = (Inr l, t)"
  shows "kernel_inv P t \<and> evolves s t"
  using del
proof (rule delegate_effect)
  fix parent :: "'cap lease_entry" and v pcustody ident d pident pref md pd cert
  let ?pa = "lc_agent_id (en_certificate parent)"
  let ?e = "\<lparr>en_certificate = cert, en_record = active_lease_record l, en_manifest = dr_capability_manifest req\<rparr>"
  assume parent: "map_of (as_leases s) (dr_parent_lease_id req) = Some parent"
    and v: "validate_chain P s (dr_parent_lease_id req) (Some (dr_expected_parent_generation req))
           (en_manifest parent) now = Inr v" and depth: "length (va_chain v) < MAX_AUTHORITY_CHAIN_DEPTH"
    and req: "validate_delegation_request P s parent req now = Inr ()"
    and child: "map_of (as_identities s) (dr_child_agent_id req) = None"
    and pcustody: "map_of (as_custodians s) ?pa = Some pcustody"
    and ident: "signed_identity P (dr_child_agent_id req) custody (Some ?pa) pcustody now = Inr ident"
    and d: "identity_canonical_digest P ident = Inr d" and pident: "map_of (as_identities s) ?pa = Some pident"
    and pref: "make_lease_ref P (en_certificate parent) = Inr pref"
    and md: "manifest_canonical_digest P (dr_capability_manifest req) = Inr md"
    and pd: "identity_canonical_digest P pident = Inr pd"
    and cert: "signed_lease P
        (delegation_draft req (en_certificate parent) l d pref md now) pd pcustody = Inr cert"
    and t: "t = push_event l (Some (dr_parent_lease_id req)) LeaseDelegated now
          (push_event l (Some (dr_parent_lease_id req)) IdentityRegistered now
          (s\<lparr>as_identities := AList.update (dr_child_agent_id req) ident (as_identities s),
             as_custodians := AList.update (dr_child_agent_id req) custody (as_custodians s),
             as_leases := AList.update l ?e (as_leases s)\<rparr>))"
  note sid = signed_identity_ok [OF ident] and f = signed_lease_fields [OF cert, simplified]
    and ver = signed_lease_ok(2) [OF cert] and pok = kernel_inv_entry [OF inv parent]
  have leases: "map_of (as_leases t) = (map_of (as_leases s))(l \<mapsto> ?e)"
    and ids: "map_of (as_identities t) = (map_of (as_identities s))(dr_child_agent_id req \<mapsto> ident)"
    and cus: "map_of (as_custodians t) = (map_of (as_custodians s))(dr_child_agent_id req \<mapsto> custody)"
    and mis: "as_mission t = as_mission s" "as_root_lease_id t = as_root_lease_id s"
    by (simp_all add: t update_conv')
  have ev: "evolves s t" using fresh mis(1) leases by (rule evolves_insert) (use ids child in auto)
  have neq: "?pa \<noteq> dr_child_agent_id req" using child pident by auto
  note key = custody_key [OF inv pcustody pident]
  have prefid: "lr_lease_id pref = dr_parent_lease_id req"
    using make_lease_ref_id [OF pref] pok by (simp add: entry_ok_def)
  obtain as where "identity_path P (map_of (as_identities s)) ?pa as"
    using lineage_identity [of P s "dr_parent_lease_id req" parent] pok by (auto simp: entry_ok_def)
  then have keyok: "key_from_bytes P (ic_verifying_key_bytes pident)" using pident by (rule identity_path_key)
  have "lineage P s (dr_parent_lease_id req) parent" using pok by (simp add: entry_ok_def)
  then have "lineage P t l ?e" using ev v depth
    by (rule delegated_lineage [where r = pref and i = ident and j = pident])
      (use leases f prefid ids neq pident sid key keyok in \<open>auto simp: issued_by_def\<close>)
  moreover have "entry_certified P t ?e"
    using f md d pd sid ver ids neq pident key keyok pok mis
    by (simp add: entry_certified_def bound_to_mission_def signed_by_issuer_def issuer_agent_def
        renewal_bound_def entry_ok_def)
  moreover have "parent_ok P t ?e"
    using req f pref prefid parent leases fresh
    by (auto simp: parent_ok_def attenuated_child_def validate_delegation_request_ok)
  ultimately have new: "entry_ok P t l ?e" using f by (simp add: entry_ok_def active_lease_record_def)
  have "kernel_inv P t"
  proof (rule kernel_inv_evolves [OF inv ev])
    show "tables_ok t" using inv by (simp add: kernel_inv_def tables_ok_def t hm.ok_insert)
    show "custody_ok t" using inv ids cus sid by (auto simp: kernel_inv_def custody_ok_def)
    show "root_ok t" using inv leases mis fresh by (auto simp: kernel_inv_def root_ok_def)
    show "entry_ok P t k e" if "map_of (as_leases t) k = Some e" "map_of (as_leases s) k = None" for k e
      using that leases new by (auto split: if_splits)
  qed
  with ev show ?thesis by blast
qed

lemma attenuation_trans:
  "validate_manifest_attenuation a b = Inr () \<Longrightarrow> validate_manifest_attenuation b c = Inr () \<Longrightarrow>
   validate_manifest_attenuation a c = Inr ()"
  by (auto simp: validate_manifest_attenuation_ok)

text \<open>The renewed lease hangs where the old one did and claims no more than it.\<close>

lemma renewed_parent_ok:
  assumes inv: "kernel_inv P s" and trans: "cap_trans P"
    and c: "renewed_certificate P req uuid now s = Inr (old, l, cert)" and ev: "evolves s t"
  shows "parent_ok P t \<lparr>en_certificate = cert, en_record = r, en_manifest = nr_capability_manifest req\<rparr>"
proof -
  let ?e = "\<lparr>en_certificate = cert, en_record = r, en_manifest = nr_capability_manifest req\<rparr>"
  from c obtain iident icustody oref md d where old: "map_of (as_leases s) (nr_lease_id req) = Some old"
    and req: "validate_renewal_request P s old req now = Inr ()"
    and sl: "signed_lease P
        (renewal_draft req (en_certificate old) l oref md now) d icustody = Inr cert"
    by (rule renewed_certificate_effect)
  note f = signed_lease_fields [OF sl, simplified]
  have pok: "parent_ok P s old" using kernel_inv_entry [OF inv old] by (simp add: entry_ok_def)
  have "parent_ok P s ?e"
  proof (cases "lc_parent_lease (en_certificate old)")
    case None
    then show ?thesis
      using pok req f authority_subset_trans [OF trans]
      by (auto simp: parent_ok_def root_bounded_def validate_renewal_request_ok
          validate_manifest_attenuation_ok)
  next
    case (Some pr)
    then obtain p where p: "map_of (as_leases s) (lr_lease_id pr) = Some p" "attenuated_child P p old"
      using pok by (auto simp: parent_ok_def)
    have "authority_is_subset_of P (nr_granted_authority req) (lc_delegable_authority (en_certificate p))"
      using authority_subset_trans [OF trans] p(2) req
      by (auto simp: attenuated_child_def validate_renewal_request_ok authority_is_subset_of_def)
    then have "attenuated_child P p ?e"
      using p req f Some attenuation_trans
      by (auto simp: attenuated_child_def validate_renewal_request_ok)
    with p(1) f Some show ?thesis by (auto simp: parent_ok_def)
  qed
  then show ?thesis using ev lease_advances_refl by (rule parent_ok_evolves)
qed

lemma renewed_lineage:
  assumes lin: "lineage P s k old" and old: "map_of (as_leases s) k = Some old" and ev: "evolves s t"
    and e: "map_of (as_leases t) l = Some e"
    and f: "lc_parent_lease (en_certificate e) = lc_parent_lease (en_certificate old)"
      "lc_agent_id (en_certificate e) = lc_agent_id (en_certificate old)"
  shows "lineage P t l e"
proof -
  obtain es where es: "lease_path (map_of (as_leases s)) k es" "length es \<le> MAX_AUTHORITY_CHAIN_DEPTH"
    "identity_path P (map_of (as_identities s)) (lc_agent_id (en_certificate old)) (map agent_of es)"
    using lin by (auto simp: lineage_def)
  have ids: "identity_path P (map_of (as_identities t)) (lc_agent_id (en_certificate old)) (map agent_of es)"
    using es(3) by (rule identity_path_mono) (use ev in \<open>simp add: evolves_def\<close>)
  from es(1) show ?thesis
  proof (cases rule: lease_path.cases)
    case (lease_root e')
    then have "es = [(k, old)]" "lc_parent_lease (en_certificate e) = None" using old f by auto
    then show ?thesis unfolding lineage_def using ids f e es(2)
      by (intro exI [of _ "[(l, e)]"]) (auto intro: lease_path.lease_root)
  next
    case (lease_child e' r gs)
    then have es': "es = (k, old) # gs" and r: "lc_parent_lease (en_certificate e) = Some r"
      using old f by auto
    obtain fs where fs: "lease_path (map_of (as_leases t)) (lr_lease_id r) fs" "length fs = length gs"
      "map agent_of fs = map agent_of gs" using lease_path_evolves [OF lease_child(4) ev] by blast
    have "lease_path (map_of (as_leases t)) l ((l, e) # fs)" using e r fs(1) by (rule lease_path.lease_child)
    then show ?thesis unfolding lineage_def using ids f es(2) es' fs
      by (intro exI [of _ "(l, e) # fs"]) auto
  qed
qed

lemma renewed_certified:
  assumes inv: "kernel_inv P s" and c: "renewed_certificate P req uuid now s = Inr (old, l, cert)"
    and ids: "as_identities t = as_identities s" and mis: "as_mission t = as_mission s"
    and retired: "map_of (as_leases t) (nr_lease_id req) = Some (retired_entry l old)"
  shows "entry_certified P t \<lparr>en_certificate = cert, en_record = r, en_manifest = nr_capability_manifest req\<rparr>"
proof -
  from c obtain iident icustody oref md d where old: "map_of (as_leases s) (nr_lease_id req) = Some old"
    and iident: "map_of (as_identities s) (issuer_agent (en_certificate old)) = Some iident"
    and icustody: "map_of (as_custodians s) (issuer_agent (en_certificate old)) = Some icustody"
    and oref: "make_lease_ref P (en_certificate old) = Inr oref"
    and md: "manifest_canonical_digest P (nr_capability_manifest req) = Inr md"
    and d: "identity_canonical_digest P iident = Inr d"
    and sl: "signed_lease P (renewal_draft req (en_certificate old) l oref md now) d icustody = Inr cert"
    by (rule renewed_certificate_effect)
  note f = signed_lease_fields [OF sl, simplified] and ver = signed_lease_ok(2) [OF sl]
    and ook = kernel_inv_entry [OF inv old] and key = custody_key [OF inv icustody iident]
  have issuer: "issuer_agent cert = issuer_agent (en_certificate old)"
    using f by (simp add: issuer_agent_def split: option.splits)
  have orefid: "lr_lease_id oref = nr_lease_id req" using make_lease_ref_id [OF oref] ook by (simp add: entry_ok_def)
  obtain subject where subject: "map_of (as_identities s) (lc_agent_id (en_certificate old)) = Some subject"
    "identity_canonical_digest P subject = Inr (lc_agent_identity_digest (en_certificate old))"
    "key_from_bytes P (ic_verifying_key_bytes iident)"
    using ook iident by (auto simp: entry_ok_def entry_certified_def signed_by_issuer_def)
  have "signed_by_issuer P (map_of (as_identities t)) cert"
    using subject f d iident ver key issuer ids by (simp add: signed_by_issuer_def)
  moreover have "renewal_bound P (map_of (as_leases t)) cert"
    using f retired orefid oref by (simp add: renewal_bound_def retired_entry_def)
  moreover have "bound_to_mission (as_mission t) cert"
    using ook f mis by (simp add: entry_ok_def entry_certified_def bound_to_mission_def)
  ultimately show ?thesis using f md by (simp add: entry_certified_def)
qed

lemma renew_inv:
  assumes inv: "kernel_inv P s" and trans: "cap_trans P" and fresh: "map_of (as_leases s) l = None"
    and ren: "renew P req uuid now s = (Inr l, t)"
  shows "kernel_inv P t \<and> evolves s t"
proof -
  let ?o = "nr_lease_id req"
  obtain old cert where c: "renewed_certificate P req uuid now s = Inr (old, l, cert)"
    using renew_certificate [OF ren kernel_inv_hm [OF inv]] by blast
  let ?e = "\<lparr>en_certificate = cert, en_record = active_lease_record l, en_manifest = nr_capability_manifest req\<rparr>"
  obtain u where u: "record_only s u" "map_of (as_leases u) ?o = Some (retired_entry l old)"
    and r: "renew P req uuid now s = (Inr l, push_event l (Some ?o) LeaseRenewed now
      (u\<lparr>as_leases := AList.update l ?e (as_leases u),
         as_root_lease_id := if as_root_lease_id s = ?o then l else as_root_lease_id s\<rparr>))"
    using renew_result [OF kernel_inv_hm [OF inv] c] by metis
  from r ren have t: "t = push_event l (Some ?o) LeaseRenewed now
      (u\<lparr>as_leases := AList.update l ?e (as_leases u),
         as_root_lease_id := if as_root_lease_id s = ?o then l else as_root_lease_id s\<rparr>)" by simp
  from c obtain oref md d icustody where old: "map_of (as_leases s) ?o = Some old"
    and sl: "signed_lease P (renewal_draft req (en_certificate old) l oref md now) d icustody = Inr cert"
    by (rule renewed_certificate_effect)
  note f = signed_lease_fields [OF sl, simplified] and ook = kernel_inv_entry [OF inv old]
  have uinv: "kernel_inv P u" using inv u(1) by (rule kernel_inv_record_only)
  have freshu: "map_of (as_leases u) l = None" using record_only_known [OF u(1)] fresh by simp
  have frame: "as_mission u = as_mission s" "as_identities u = as_identities s"
    "as_custodians u = as_custodians s" using u(1) by (simp_all add: record_only_def same_frame_def)
  have leases: "map_of (as_leases t) = (map_of (as_leases u))(l \<mapsto> ?e)"
    and rest: "as_mission t = as_mission u" "as_identities t = as_identities u" "as_custodians t = as_custodians u"
    by (simp_all add: t update_conv')
  have evu: "evolves u t" using freshu rest(1) leases by (rule evolves_insert) (simp add: rest)
  have ev: "evolves s t" using record_only_evolves [OF u(1)] evu by (rule evolves_trans)
  have neq: "?o \<noteq> l" using old fresh by auto
  have "entry_certified P t ?e"
    using inv c by (rule renewed_certified) (use frame rest leases neq u(2) in simp_all)
  moreover have "lineage P t l ?e"
    by (rule renewed_lineage [of P s ?o old]) (use ook old ev leases f in \<open>simp_all add: entry_ok_def\<close>)
  moreover have "parent_ok P t ?e" using inv trans c ev by (rule renewed_parent_ok)
  ultimately have new: "entry_ok P t l ?e" using f by (simp add: entry_ok_def active_lease_record_def)
  have "kernel_inv P t"
  proof (rule kernel_inv_evolves [OF uinv evu])
    show "tables_ok t" using uinv by (simp add: kernel_inv_def tables_ok_def t hm.ok_insert)
    show "custody_ok t" using uinv by (simp add: kernel_inv_def custody_ok_def rest)
    show "root_ok t"
    proof (cases "as_root_lease_id s = ?o")
      case True
      then have "lc_parent_lease cert = None"
        using inv old f by (auto simp: kernel_inv_def root_ok_def)
      with True leases show ?thesis by (simp add: root_ok_def t)
    next
      case False
      with uinv leases freshu u(1) show ?thesis
        by (auto simp: kernel_inv_def root_ok_def t record_only_def same_frame_def)
    qed
    show "entry_ok P t k e" if "map_of (as_leases t) k = Some e" "map_of (as_leases u) k = None" for k e
      using that leases new by (auto split: if_splits)
  qed
  with ev show ?thesis by blast
qed

end
