(* ===== verification/KernelRuns.thy ===== *)
theory KernelRuns
  imports KernelSafety
begin

text \<open>
  Runs of the authority kernel: the operations as labels, the states reached from a bootstrap, and
  what holds in all of them. A random lease id is assumed not to be in use when it is drawn.
\<close>

section \<open>Operations and runs\<close>

datatype 'cap kernel_op =
    OpDelegate "'cap delegation_request" key_custody string timestamp
  | OpPause lease_id u64 timestamp
  | OpResume lease_id u64 timestamp
  | OpRevoke lease_id u64 string timestamp
  | OpRefreshExpirations timestamp
  | OpRenew "'cap renewal_request" string timestamp

text \<open>The state an operation leaves behind, whether it succeeded or returned early.\<close>

fun run_op :: "'cap platform \<Rightarrow> 'cap kernel_op \<Rightarrow> 'cap authority_state \<Rightarrow> 'cap authority_state" where
  "run_op P (OpDelegate req custody uuid now) s = snd (delegate P req custody uuid now s)"
| "run_op P (OpPause l g now) s = snd (pause l g now s)"
| "run_op P (OpResume l g now) s = snd (resume l g now s)"
| "run_op P (OpRevoke l g reason now) s = snd (revoke l g reason now s)"
| "run_op P (OpRefreshExpirations now) s = snd (refresh_expirations now s)"
| "run_op P (OpRenew req uuid now) s = snd (renew P req uuid now s)"

fun op_fresh :: "'cap authority_state \<Rightarrow> 'cap kernel_op \<Rightarrow> bool" where
  "op_fresh s (OpDelegate req custody uuid now) \<longleftrightarrow> map_of (as_leases s) (''lease-'' @ uuid) = None"
| "op_fresh s (OpRenew req uuid now) \<longleftrightarrow> map_of (as_leases s) (''lease-'' @ uuid) = None"
| "op_fresh s _ \<longleftrightarrow> True"

inductive kernel_run :: "'cap platform \<Rightarrow> 'cap authority_state \<Rightarrow> 'cap authority_state \<Rightarrow> bool" for P where
  run_refl: "kernel_run P s s"
| run_step: "kernel_run P s t \<Longrightarrow> op_fresh t op \<Longrightarrow> kernel_run P s (run_op P op t)"

definition reachable :: "'cap platform \<Rightarrow> 'cap authority_state \<Rightarrow> bool" where
  "reachable P s \<longleftrightarrow> (\<exists>req custody uuid now b. bootstrap P req custody uuid now = Inr b \<and> kernel_run P b s)"

lemma kernel_run_trans: "kernel_run P t u \<Longrightarrow> kernel_run P s t \<Longrightarrow> kernel_run P s u"
  by (induction rule: kernel_run.induct) (auto intro: run_step)

lemma reachable_run: "reachable P s \<Longrightarrow> kernel_run P s t \<Longrightarrow> reachable P t"
  unfolding reachable_def using kernel_run_trans by blast

lemma new_lease_id_eq: "new_lease_id uuid = Inr l \<Longrightarrow> l = ''lease-'' @ uuid"
  by (simp add: new_lease_id_def new_id_eq_Inr)

lemma run_delegate_inv:
  assumes inv: "kernel_inv P s" and fresh: "op_fresh s (OpDelegate req custody uuid now)"
    and r: "delegate P req custody uuid now s = (r, t)"
  shows "kernel_inv P t \<and> evolves s t"
proof (cases r)
  case (Inl x)
  with r delegate_Inl have "t = s" by blast
  with inv kernel_inv_record_only record_only_evolves show ?thesis by (metis record_only_refl)
next
  case (Inr l)
  have "new_lease_id uuid = Inr l" using r [unfolded Inr] by (rule delegate_effect)
  then have "map_of (as_leases s) l = None" using fresh new_lease_id_eq by auto
  with delegate_inv [OF inv] r Inr show ?thesis by fastforce
qed

lemma run_renew_inv:
  assumes inv: "kernel_inv P s" and trans: "cap_trans P" and fresh: "op_fresh s (OpRenew req uuid now)"
    and r: "renew P req uuid now s = (r, t)"
  shows "kernel_inv P t \<and> evolves s t"
proof (cases r)
  case (Inl x)
  with r renew_Inl kernel_inv_hm [OF inv] have "t = s" by blast
  with inv kernel_inv_record_only record_only_evolves show ?thesis by (metis record_only_refl)
next
  case (Inr l)
  obtain old cert where "renewed_certificate P req uuid now s = Inr (old, l, cert)"
    using renew_certificate r Inr kernel_inv_hm [OF inv] by blast
  then have "new_lease_id uuid = Inr l" by (rule renewed_certificate_effect)
  then have "map_of (as_leases s) l = None" using fresh new_lease_id_eq by auto
  with renew_inv [OF inv trans] r Inr show ?thesis by fastforce
qed

lemma run_op_inv:
  assumes inv: "kernel_inv P s" and trans: "cap_trans P" and fresh: "op_fresh s op"
  shows "kernel_inv P (run_op P op s) \<and> evolves s (run_op P op s)"
proof -
  have ro: ?thesis if "record_only s (run_op P op s)"
    using kernel_inv_record_only [OF inv that] record_only_evolves [OF that] by blast
  note ok = kernel_inv_hm [OF inv]
  show ?thesis
  proof (cases op)
    case (OpDelegate req custody uuid now)
    obtain r t where "delegate P req custody uuid now s = (r, t)" by fastforce
    with run_delegate_inv [OF inv] fresh OpDelegate show ?thesis by simp
  next
    case (OpPause l g now)
    obtain r t where "pause l g now s = (r, t)" by fastforce
    then have "record_only s t" unfolding pause_def by (rule transition_record_only) (simp add: live_state_def)
    with ro OpPause \<open>pause l g now s = (r, t)\<close> show ?thesis by simp
  next
    case (OpResume l g now)
    obtain r t where "resume l g now s = (r, t)" by fastforce
    then have "record_only s t" unfolding resume_def by (rule transition_record_only) (simp add: live_state_def)
    with ro OpResume \<open>resume l g now s = (r, t)\<close> show ?thesis by simp
  next
    case (OpRevoke l g reason now)
    obtain r t where "revoke l g reason now s = (r, t)" by fastforce
    with ro OpRevoke revoke_record_only [OF ok] show ?thesis by fastforce
  next
    case (OpRefreshExpirations now)
    with ro refresh_expirations_result [OF ok, of now] show ?thesis by (metis run_op.simps(5) snd_conv)
  next
    case (OpRenew req uuid now)
    obtain r t where "renew P req uuid now s = (r, t)" by fastforce
    with run_renew_inv [OF inv trans] fresh OpRenew show ?thesis by simp
  qed
qed

lemma kernel_run_inv:
  "kernel_run P s t \<Longrightarrow> kernel_inv P s \<Longrightarrow> cap_trans P \<Longrightarrow> kernel_inv P t \<and> evolves s t"
proof (induction rule: kernel_run.induct)
  case (run_refl s)
  then show ?case by simp
next
  case (run_step s t op)
  then have "kernel_inv P t" "evolves s t" by simp_all
  with run_op_inv [OF _ run_step.prems(2) run_step.hyps(2)] show ?case using evolves_trans by blast
qed

lemma reachable_inv: "reachable P s \<Longrightarrow> cap_trans P \<Longrightarrow> kernel_inv P s"
  unfolding reachable_def using bootstrap_inv kernel_run_inv by blast

section \<open>Ancestors\<close>

lemma lease_path_ancestors:
  "lease_path leases l es \<Longrightarrow> fst ` set es = {k. l \<in> descendants leases k}"
proof (induction rule: lease_path.induct)
  case (lease_root l e)
  have "k = l" if "(k, l) \<in> (child_rel leases)\<^sup>*" for k
    using that lease_root by (cases rule: rtranclE) (auto simp: child_rel_def parent_id_def)
  then show ?case by (auto simp: descendants_def)
next
  case (lease_child l e r es)
  have step: "(k, l) \<in> child_rel leases \<longleftrightarrow> k = lr_lease_id r" for k
    using lease_child.hyps(1,2) by (auto simp: child_rel_def parent_id_def)
  have "(k, l) \<in> (child_rel leases)\<^sup>* \<longleftrightarrow> k = l \<or> (k, lr_lease_id r) \<in> (child_rel leases)\<^sup>*" for k
    by (metis rtrancl.simps step)
  with lease_child.IH show ?case by (auto simp: descendants_def)
qed

lemma lease_path_mem:
  assumes "lease_path leases l es"
  shows "(k, e) \<in> set es \<longleftrightarrow> leases k = Some e \<and> l \<in> descendants leases k"
proof
  assume a: "(k, e) \<in> set es"
  then have "k \<in> fst ` set es" by force
  with a show "leases k = Some e \<and> l \<in> descendants leases k"
    using lease_path_entries [OF assms] lease_path_ancestors [OF assms] by blast
next
  assume a: "leases k = Some e \<and> l \<in> descendants leases k"
  then have "k \<in> fst ` set es" using lease_path_ancestors [OF assms] by simp
  then obtain d where "(k, d) \<in> set es" by force
  with lease_path_entries [OF assms this] a show "(k, e) \<in> set es" by simp
qed

lemma lease_path_live:
  assumes "lease_path leases l es"
  shows "(\<forall>(k, e) \<in> set es. Q e) \<longleftrightarrow> (\<forall>k e. leases k = Some e \<longrightarrow> l \<in> descendants leases k \<longrightarrow> Q e)"
  unfolding Ball_def split_paired_All prod.case lease_path_mem [OF assms] by blast

lemma descendants_trans:
  "a \<in> descendants leases b \<Longrightarrow> b \<in> descendants leases c \<Longrightarrow> a \<in> descendants leases c"
  by (auto simp: descendants_def)

text \<open>No lease is both above and below another one.\<close>

lemma descendants_antisym:
  assumes path: "lease_path leases a es" and "a \<in> descendants leases b" and "b \<in> descendants leases a"
  shows "a = b"
proof (rule ccontr)
  assume neq: "a \<noteq> b"
  have b: "b \<in> fst ` set es" using lease_path_ancestors [OF path] assms(2) by simp
  from path show False
  proof (cases rule: lease_path.cases)
    case (lease_root e)
    with b neq show False by simp
  next
    case (lease_child e r gs)
    with b neq have "b \<in> fst ` set gs" by auto
    then obtain fs where fs: "lease_path leases b fs" "length fs \<le> length gs"
      using lease_path_suffix [OF lease_child(4)] by blast
    have "a \<in> fst ` set fs" using lease_path_ancestors [OF fs(1)] assms(3) by simp
    then obtain hs where "lease_path leases a hs" "length hs \<le> length fs"
      using lease_path_suffix [OF fs(1)] by blast
    with path fs lease_child(1) show False using lease_path_unique by fastforce
  qed
qed

section \<open>When the checks of the chain succeed\<close>

lemma make_lease_ref_total:
  assumes "json_total P" and "lease_verify_signature P c k = Inr ()"
  shows "\<exists>r. make_lease_ref P c = Inr r"
proof -
  from assms(2) obtain fields where "lease_payload_fields P c = Inr fields"
    by (auto simp: lease_verify_signature_def lease_signing_payload_def result_simps)
  moreover obtain b where "json_to_vec P (canonicalize_json
      (json_struct (fields @ [(''signature'', signature_value (lc_signature c))]))) = Inr b"
    using assms(1) unfolding json_total_def by blast
  ultimately show ?thesis
    by (simp add: make_lease_ref_def lease_certificate_value_def canonical_digest_def
        canonical_encoding_def)
qed

lemma lease_path_attenuated:
  "lease_path (map_of (as_leases s)) l es \<Longrightarrow> kernel_inv P s \<Longrightarrow>
   successively (\<lambda>c p. attenuated_child P (snd p) (snd c)) es"
proof (induction rule: lease_path.induct)
  case (lease_root l e)
  then show ?case by simp
next
  case (lease_child l e r es)
  obtain p fs where es: "es = (lr_lease_id r, p) # fs" "map_of (as_leases s) (lr_lease_id r) = Some p"
    using lease_path_hd [OF lease_child.hyps(3)] by blast
  have "attenuated_child P p e"
    using kernel_inv_entry [OF lease_child.prems lease_child.hyps(1)] lease_child.hyps(2) es(2)
    by (auto simp: entry_ok_def parent_ok_def)
  with lease_child.IH lease_child.prems es show ?case by simp
qed

lemma validate_chain_exact:
  assumes inv: "kernel_inv P s" and json: "json_total P" and e: "map_of (as_leases s) l = Some e"
  shows "(\<exists>v. validate_chain P s l g m now = Inr v) \<longleftrightarrow>
    (\<forall>k d. map_of (as_leases s) k = Some d \<longrightarrow> l \<in> descendants (map_of (as_leases s)) k \<longrightarrow> entry_live d now)
    \<and> (\<forall>x. g = Some x \<longrightarrow> le_generation (en_record e) = x)
    \<and> manifest_canonical_digest P m = Inr (lc_capability_manifest_digest (en_certificate e))"
    (is "?ok \<longleftrightarrow> ?live \<and> ?gen \<and> ?man")
proof -
  obtain es where es: "lease_path (map_of (as_leases s)) l es" "length es \<le> MAX_AUTHORITY_CHAIN_DEPTH"
    using kernel_inv_entry [OF inv e] by (auto simp: entry_ok_def lineage_def)
  obtain fs where hd: "es = (l, e) # fs" using lease_path_hd [OF es(1)] e by auto
  have cert: "entry_certified P s d \<and> lineage P s k d" if "(k, d) \<in> set es" for k d
    using kernel_inv_entry [OF inv lease_path_entries [OF es(1) that]] by (simp add: entry_ok_def)
  show ?thesis
  proof
    assume ?ok
    then obtain v where v: "validate_chain P s l g m now = Inr v" by blast
    obtain es' where ch: "authority_chain P s l g now es'" "chain_observation P l es' v"
      "manifest_canonical_digest P m = Inr (va_capability_manifest_digest v)"
      using validate_chain_sound [OF v] by blast
    have "es' = es" using ch(1) lease_path_unique [OF es(1)] by (auto simp: authority_chain_def)
    with ch hd show "?live \<and> ?gen \<and> ?man"
      using lease_path_live [OF es(1), of "\<lambda>d. entry_live d now"]
      by (auto simp: authority_chain_def chain_observation_def)
  next
    assume a: "?live \<and> ?gen \<and> ?man"
    then have "authority_chain P s l g now es"
      using es cert hd lease_path_attenuated [OF es(1) inv] lease_path_live [OF es(1), of "\<lambda>d. entry_live d now"]
      by (auto simp: authority_chain_def)
    moreover have "\<forall>(k, d) \<in> set es. \<exists>as. identity_path P (map_of (as_identities s))
        (lc_agent_id (en_certificate d)) as \<and> length as \<le> MAX_AUTHORITY_CHAIN_DEPTH"
      using cert by (fastforce simp: lineage_def)
    moreover have "\<forall>(k, d) \<in> set es. \<exists>r. make_lease_ref P (en_certificate d) = Inr r"
      using cert make_lease_ref_total [OF json]
      by (fastforce simp: entry_certified_def signed_by_issuer_def)
    moreover have "manifest_canonical_digest P m = manifest_canonical_digest P (en_manifest (snd (hd es)))"
      using a cert [of l e] hd by (simp add: entry_certified_def)
    ultimately show ?ok using validate_chain_complete by blast
  qed
qed

section \<open>Confinement\<close>

text \<open>No lease of the table exceeds the mission, however deep it was delegated or often renewed.\<close>

definition confined :: "'cap platform \<Rightarrow> 'cap mission_envelope \<Rightarrow> 'cap lease_entry \<Rightarrow> bool" where
  "confined P m e \<longleftrightarrow>
     (\<forall>c \<in> set (capabilities (lc_granted_authority (en_certificate e))).
        c \<noteq> cap_all P \<and> (\<exists>a \<in> set (me_allowed_capabilities m). cap_subset P c a))
     \<and> lc_expires_at (en_certificate e) \<le> me_expires_at m
     \<and> (\<forall>b \<in> set (cm_approved_tools (en_manifest e)). bt_tool_id b \<in> set (me_allowed_tools m))"

lemma confined_iff:
  "confined P m e \<longleftrightarrow>
     authority_is_subset_of_capabilities P (lc_granted_authority (en_certificate e)) (me_allowed_capabilities m)
     \<and> cap_all P \<notin> set (capabilities (lc_granted_authority (en_certificate e)))
     \<and> lc_expires_at (en_certificate e) \<le> me_expires_at m
     \<and> (\<forall>b \<in> set (cm_approved_tools (en_manifest e)). bt_tool_id b \<in> set (me_allowed_tools m))"
  unfolding confined_def authority_is_subset_of_capabilities_def list_all_iff list_ex_iff by auto

lemma confined_child:
  assumes trans: "cap_trans P" and p: "confined P m p" and ch: "attenuated_child P p e"
    and del: "authority_is_subset_of P (lc_delegable_authority (en_certificate p))
      (lc_granted_authority (en_certificate p))"
  shows "confined P m e"
proof -
  have "authority_is_subset_of_capabilities P (lc_delegable_authority (en_certificate p)) (me_allowed_capabilities m)"
    using authority_subset_trans [OF trans del] p by (simp add: confined_iff)
  then have "authority_is_subset_of_capabilities P (lc_granted_authority (en_certificate e)) (me_allowed_capabilities m)"
    using authority_subset_trans [OF trans] ch by (auto simp: attenuated_child_def)
  with p ch show ?thesis
    by (auto simp: confined_iff attenuated_child_def validate_authority_sets_ok validate_manifest_attenuation_ok)
qed

lemma entry_delegable:
  "entry_ok P s l e \<Longrightarrow> authority_is_subset_of P (lc_delegable_authority (en_certificate e))
     (lc_granted_authority (en_certificate e))"
  by (auto simp: entry_ok_def parent_ok_def root_bounded_def attenuated_child_def validate_authority_sets_ok
      split: option.splits)

lemma lease_path_confined:
  "lease_path (map_of (as_leases s)) l es \<Longrightarrow> kernel_inv P s \<Longrightarrow> cap_trans P \<Longrightarrow>
   confined P (as_mission s) (snd (hd es))"
proof (induction rule: lease_path.induct)
  case (lease_root l e)
  with kernel_inv_entry [OF lease_root.prems(1) lease_root.hyps(1)] show ?case
    by (simp add: entry_ok_def parent_ok_def root_bounded_def confined_iff validate_authority_sets_ok)
next
  case (lease_child l e r es)
  obtain p fs where es: "es = (lr_lease_id r, p) # fs" "map_of (as_leases s) (lr_lease_id r) = Some p"
    using lease_path_hd [OF lease_child.hyps(3)] by blast
  have "attenuated_child P p e"
    using kernel_inv_entry [OF lease_child.prems(1) lease_child.hyps(1)] lease_child.hyps(2) es(2)
    by (auto simp: entry_ok_def parent_ok_def)
  moreover have "confined P (as_mission s) p" using lease_child es by simp
  ultimately show ?case
    using confined_child [OF lease_child.prems(2)]
      entry_delegable [OF kernel_inv_entry [OF lease_child.prems(1) es(2)]] by simp
qed

lemma kernel_inv_confined:
  assumes "kernel_inv P s" and "cap_trans P" and "map_of (as_leases s) l = Some e"
  shows "confined P (as_mission s) e"
proof -
  obtain es where "lease_path (map_of (as_leases s)) l es"
    using kernel_inv_entry [OF assms(1,3)] by (auto simp: entry_ok_def lineage_def)
  with lease_path_confined [OF this assms(1,2)] lease_path_hd [OF this] assms(3) show ?thesis by auto
qed

section \<open>A dead lease takes its subtree with it\<close>

lemma evolves_descendants: "evolves s t \<Longrightarrow> descendants (map_of (as_leases s)) l \<subseteq> descendants (map_of (as_leases t)) l"
proof -
  assume ev: "evolves s t"
  have "child_rel (map_of (as_leases s)) \<subseteq> child_rel (map_of (as_leases t))"
  proof
    fix x assume "x \<in> child_rel (map_of (as_leases s))"
    then obtain p c e where x: "x = (p, c)" "map_of (as_leases s) c = Some e" "parent_id e = Some p"
      by (auto simp: child_rel_def)
    obtain e' where "map_of (as_leases t) c = Some e'" "lease_advances e e'" using evolves_lease [OF ev x(2)] .
    with x show "x \<in> child_rel (map_of (as_leases t))"
      by (auto simp: child_rel_def parent_id_def lease_advances_def)
  qed
  then show ?thesis unfolding descendants_def by (meson Image_mono order_refl rtrancl_mono)
qed

lemma dead_subtree_refused:
  assumes dead: "map_of (as_leases s) l = Some e" "\<not> live_state (le_state (en_record e))"
    and ev: "evolves s t" and k: "k \<in> descendants (map_of (as_leases t)) l"
  shows "validate_chain P t k g m now \<noteq> Inr v"
proof
  assume "validate_chain P t k g m now = Inr v"
  then obtain es where es: "lease_path (map_of (as_leases t)) k es" "\<forall>(k, e) \<in> set es. entry_live e now"
    using validate_chain_sound [of P t k g m now v] by (auto simp: authority_chain_def)
  have "map_of (as_leases t) l = Some e"
    using evolves_lease [OF ev dead(1)] dead(2) by (auto simp: lease_advances_def)
  with es k have "entry_live e now" using lease_path_live [OF es(1), of "\<lambda>d. entry_live d now"] by blast
  with dead(2) show False by (simp add: entry_live_def live_state_def)
qed

section \<open>A lease that was just issued\<close>

lemma child_ancestors:
  assumes "leases l = Some e" and "parent_id e = Some p"
  shows "l \<in> descendants leases k \<longleftrightarrow> k = l \<or> p \<in> descendants leases k"
proof -
  have "(k, l) \<in> child_rel leases \<longleftrightarrow> k = p" for k using assms by (auto simp: child_rel_def)
  then show ?thesis unfolding descendants_def by (auto elim: rtranclE intro: rtrancl_into_rtrancl)
qed

lemma root_ancestors:
  "leases l = Some e \<Longrightarrow> parent_id e = None \<Longrightarrow> l \<in> descendants leases k \<longleftrightarrow> k = l"
  unfolding descendants_def by (auto simp: child_rel_def elim: rtranclE)

lemma evolves_ancestors:
  assumes "lease_path (map_of (as_leases s)) p es" and "evolves s t"
  shows "p \<in> descendants (map_of (as_leases t)) k \<longleftrightarrow> p \<in> descendants (map_of (as_leases s)) k"
proof -
  obtain fs where "lease_path (map_of (as_leases t)) p fs" "map fst fs = map fst es"
    using lease_path_evolves [OF assms] by blast
  then show ?thesis
    using lease_path_ancestors [OF assms(1)] lease_path_ancestors [of "map_of (as_leases t)" p fs]
    by (metis (no_types, lifting) list.set_map mem_Collect_eq)
qed

lemma validated_ancestors_live:
  assumes "validate_chain P s l g m now = Inr v"
  shows "\<exists>es. lease_path (map_of (as_leases s)) l es
    \<and> (\<forall>k d. map_of (as_leases s) k = Some d \<longrightarrow> l \<in> descendants (map_of (as_leases s)) k \<longrightarrow> entry_live d now)"
proof -
  obtain es where "lease_path (map_of (as_leases s)) l es" "\<forall>(k, e) \<in> set es. entry_live e now"
    using validate_chain_sound [OF assms] by (auto simp: authority_chain_def)
  then show ?thesis using lease_path_live [of "map_of (as_leases s)" l es "\<lambda>d. entry_live d now"] by blast
qed

end
