(* ===== verification/DemoPlatform.thy ===== *)
theory DemoPlatform
  imports KernelRuns
begin

text \<open>
  A concrete platform and a concrete mission, for the examples that show that the theorems apply.
  The printer keeps the text of a string and the kind of everything else, the hash keeps the length
  of its input, a signature repeats a byte of the key, and capabilities are path names ordered by
  the prefix relation.
\<close>

section \<open>The platform\<close>

definition demo_print :: "json \<Rightarrow> byte list" where
  "demo_print v = (case as_str v of Some s \<Rightarrow> 34 # str_bytes s | None \<Rightarrow> [123, 125])"

definition demo_hash :: "byte list \<Rightarrow> byte list" where
  "demo_hash bs = replicate 32 (of_nat (length bs))"

definition demo_sign :: "byte list \<Rightarrow> byte list \<Rightarrow> byte list" where
  "demo_sign key payload = replicate 64 (hd key)"

definition demo_platform :: "string platform" where
  "demo_platform = \<lparr>sha256 = demo_hash, json_to_vec = (\<lambda>v. Inr (demo_print v)),
     json_to_string = (\<lambda>v. Inr ''json''), json_display = (\<lambda>v. ''json''),
     json_stream = (\<lambda>s. \<lparr>js_members = (if s = ''call''
         then [(''kind'', JString ''tool_call''), (''tool_id'', JString ''echo''), (''arguments'', JObject [])]
         else [(''kind'', JString ''final''), (''result'', JString s)]),
       js_broken = None, js_trailing = None\<rparr>), rfc3339 = (\<lambda>t. replicate (nat t) CHR ''I''),
     key_from_bytes = (\<lambda>k. length k = 32), ed25519_verify = (\<lambda>k p s. s = demo_sign k p),
     cap_all = ''*'', cap_subset = (\<lambda>a b. take (length b) a = b),
     cap_to_value = (\<lambda>c. Inr (JString c)), cap_to_string = (\<lambda>c. Inr c), cap_from_str = (\<lambda>s. Inr s)\<rparr>"

lemma demo_platform_simps [simp]:
  "js_broken (json_stream demo_platform raw) = None" "js_trailing (json_stream demo_platform raw) = None"
  "js_members (json_stream demo_platform raw) = (if raw = ''call''
     then [(''kind'', JString ''tool_call''), (''tool_id'', JString ''echo''), (''arguments'', JObject [])]
     else [(''kind'', JString ''final''), (''result'', JString raw)])"
  "sha256 demo_platform = demo_hash" "json_to_vec demo_platform = (\<lambda>v. Inr (demo_print v))"
  "json_to_string demo_platform v = Inr ''json''" "json_display demo_platform v = ''json''"
  "key_from_bytes demo_platform k \<longleftrightarrow> length k = 32"
  "ed25519_verify demo_platform k p s \<longleftrightarrow> s = demo_sign k p"
  "cap_all demo_platform = ''*''" "cap_subset demo_platform a b \<longleftrightarrow> take (length b) a = b"
  "cap_to_value demo_platform = (\<lambda>c. Inr (JString c))" "cap_to_string demo_platform = (\<lambda>c. Inr c)"
  "cap_from_str demo_platform = (\<lambda>s. Inr s)"
  by (simp_all add: demo_platform_def)

lemma demo_cap_trans: "cap_trans demo_platform"
  unfolding cap_trans_def demo_platform_simps by (metis length_take min_def nat_le_linear take_all take_take)

lemma demo_json_total: "json_total demo_platform"
  by (simp add: json_total_def)

definition demo_dd :: "string \<Rightarrow> digest" where
  "demo_dd domain = Digest (replicate 32 (of_nat (length domain + 14)))"

lemma demo_print_struct [simp]: "demo_print (canonicalize_json (json_struct fs)) = [123, 125]"
  by (simp add: json_struct_def demo_print_def)

lemma demo_digests [simp]:
  "canonical_encoding demo_platform (Inr (json_struct fs)) = Inr [123, 125]"
  "d \<noteq> [] \<Longrightarrow> length d < 2 ^ 32 \<Longrightarrow> canonical_digest demo_platform d (Inr (json_struct fs)) = Inr (demo_dd d)"
  "d \<noteq> [] \<Longrightarrow> length d < 2 ^ 32 \<Longrightarrow>
     canonical_bytes demo_platform d (Inr (json_struct fs)) = Inr (frame d [123, 125])"
  by (simp_all add: canonical_encoding_def canonical_digest_def canonical_bytes_def demo_dd_def demo_hash_def
      frame_def)

lemma demo_caps [simp]:
  "mapE (cap_to_value demo_platform) cs = Inr (map JString cs)"
  "capability_key demo_platform c = Inr (34 # str_bytes c)"
proof -
  show "mapE (cap_to_value demo_platform) cs = Inr (map JString cs)" by (rule mapE_total) simp
  show "capability_key demo_platform c = Inr (34 # str_bytes c)"
    by (simp add: capability_key_def canonical_value_bytes_def demo_print_def)
qed

lemma demo_lease_fields: "\<exists>fs. lease_payload_fields demo_platform c = Inr fs"
  by (simp add: lease_payload_fields_def authority_set_value_def capabilities_value_def
      del: demo_platform_simps)

section \<open>Signing on it\<close>

lemma demo_identity [simp]:
  "identity_signing_payload demo_platform c = Inr (frame ''aeon-agent-identity-certificate-v1'' [123, 125])"
  "identity_canonical_digest demo_platform c = Inr (demo_dd ''aeon-agent-identity-certificate-v1'')"
  by (simp_all add: identity_signing_payload_def identity_canonical_digest_def identity_value_def)

lemma demo_lease [simp]:
  "lease_signing_payload demo_platform l = Inr (frame ''aeon-authority-lease-certificate-v2'' [123, 125])"
  "make_lease_ref demo_platform l = Inr \<lparr>lr_lease_id = lc_lease_id l,
     lr_certificate_digest = demo_dd ''aeon-authority-lease-certificate-record-v2''\<rparr>"
  using demo_lease_fields [of l]
  by (auto simp: lease_signing_payload_def make_lease_ref_def lease_certificate_value_def)

lemma demo_verify [simp]:
  "identity_verify_signature demo_platform c k = Inr () \<longleftrightarrow>
     length (ic_verifying_key_bytes c) = 32 \<and> ic_signature c = replicate 64 (hd k)"
  "lease_verify_signature demo_platform l k = Inr () \<longleftrightarrow> lc_signature l = replicate 64 (hd k)"
  by (auto simp: identity_doc.verify_iff lease_doc.verify_iff demo_sign_def)

definition demo_custody :: "key_id \<Rightarrow> byte \<Rightarrow> key_custody" where
  "demo_custody i b = in_memory_custody i (replicate 32 b) (demo_sign (replicate 32 b))"

lemma demo_custody_simps [simp]:
  "kc_key_id (demo_custody i b) = i" "kc_verifying_key (demo_custody i b) = replicate 32 b"
  "kc_sign (demo_custody i b) p = Inr (replicate 64 b)"
  by (simp_all add: demo_custody_def in_memory_custody_def demo_sign_def)

lemma demo_signed_identity [simp]:
  "signed_identity demo_platform a (demo_custody i b) issuer (demo_custody j c) now =
     Inr (unsigned_identity a i (replicate 32 b) issuer j now \<lparr>ic_signature := replicate 64 c\<rparr>)"
proof -
  let ?c = "unsigned_identity a i (replicate 32 b) issuer j now \<lparr>ic_signature := replicate 64 c\<rparr>"
  have "identity_verify_signature demo_platform ?c (replicate 32 c) = Inr ()"
    unfolding demo_verify by (simp add: unsigned_identity_def)
  then show ?thesis by (simp add: signed_identity_def Let_def del: demo_verify)
qed

lemma demo_signed_lease [simp]:
  "signed_lease demo_platform draft d (demo_custody j c) =
     Inr (unsigned_lease draft d j \<lparr>lc_signature := replicate 64 c\<rparr>)"
proof -
  let ?c = "unsigned_lease draft d j \<lparr>lc_signature := replicate 64 c\<rparr>"
  have "lease_verify_signature demo_platform ?c (replicate 32 c) = Inr ()"
    unfolding demo_verify by simp
  then show ?thesis by (simp add: signed_lease_def Let_def del: demo_verify)
qed

section \<open>A mission and its root lease\<close>

definition demo_digest :: digest where
  "demo_digest = Digest (replicate 32 7)"

definition demo_mission :: "string mission_envelope" where
  "demo_mission = \<lparr>me_mission_id = ''m1'', me_allowed_tools = [''echo''], me_allowed_capabilities = [''fs''],
     me_policy_epoch = 1, me_organization_version = 1, me_active = True, me_expires_at = 9, me_max_actions = 2\<rparr>"

definition demo_manifest :: "string capability_manifest" where
  "demo_manifest = \<lparr>cm_version = 1, cm_model_manifest_digest = demo_digest,
     cm_approved_tools = [BoundTool ''echo'' demo_digest], cm_permissions = \<lparr>ps_capabilities = [''fs'']\<rparr>,
     cm_runtime_config_digest = demo_digest, cm_tool_registry_root_digest = demo_digest\<rparr>"

definition demo_root_request :: "string root_lease_request" where
  "demo_root_request = \<lparr>rr_mission = demo_mission, rr_agent_id = ''a1'',
     rr_granted_authority = AuthoritySet [''fs''], rr_delegable_authority = AuthoritySet [''fs''],
     rr_capability_manifest = demo_manifest, rr_semantic_context_digest = demo_digest,
     rr_expires_at = 8\<rparr>"

lemma demo_manifest_digest [simp]:
  "manifest_canonical_digest demo_platform demo_manifest = Inr (demo_dd ''aeon-capability-manifest-v1'')"
  by (simp add: manifest_canonical_digest_def demo_manifest_def canonical_capabilities_def Let_def
      canonical_manifest_value_def permission_set_value_def capabilities_value_def del: demo_platform_simps)

lemma demo_validate_manifest [simp]:
  "validate_manifest demo_platform demo_manifest (AuthoritySet [''fs'']) = Inr ()"
  by (simp add: validate_manifest_def demo_manifest_def canonical_capabilities_def)

lemma demo_authority [simp]:
  "validate_authority_sets demo_platform (AuthoritySet [''fs'']) (AuthoritySet [''fs'']) = Inr ()"
  "authority_is_subset_of demo_platform (AuthoritySet [''fs'']) (AuthoritySet [''fs''])"
  "validate_manifest_attenuation demo_manifest demo_manifest = Inr ()"
  by (simp_all add: validate_authority_sets_ok authority_is_subset_of_iff validate_manifest_attenuation_ok)

lemma demo_lease_id [simp]: "new_lease_id ''u1'' = Inr ''lease-u1''" "new_lease_id ''u2'' = Inr ''lease-u2''"
  "new_lease_id ''u3'' = Inr ''lease-u3''"
  by code_simp+

definition demo_root_identity :: identity_certificate where
  "demo_root_identity = unsigned_identity ''a1'' ''k1'' (replicate 32 1) None ''k1'' 1
     \<lparr>ic_signature := replicate 64 1\<rparr>"

definition demo_state :: "string authority_state" where
  "demo_state = projr (bootstrap demo_platform demo_root_request (demo_custody ''k1'' 1) ''u1'' 1)"

definition demo_cert :: "string authority_lease_certificate" where
  "demo_cert = \<lparr>lc_lease_id = ''lease-u1'', lc_mission_id = ''m1'', lc_agent_id = ''a1'',
     lc_parent_agent_id = None,
     lc_agent_identity_digest = demo_dd ''aeon-agent-identity-certificate-v1'',
     lc_issuer_identity_digest = demo_dd ''aeon-agent-identity-certificate-v1'', lc_issuer_key_id = ''k1'',
     lc_parent_lease = None, lc_renewed_from = None, lc_organization_version = 1, lc_policy_epoch = 1,
     lc_granted_authority = AuthoritySet [''fs''], lc_delegable_authority = AuthoritySet [''fs''],
     lc_capability_manifest_digest = demo_dd ''aeon-capability-manifest-v1'',
     lc_semantic_context_digest = demo_digest, lc_issued_at = 1, lc_expires_at = 8,
     lc_signature = replicate 64 1\<rparr>"

definition demo_entry :: "string lease_entry" where
  "demo_entry = \<lparr>en_certificate = demo_cert, en_record = active_lease_record ''lease-u1'', en_manifest = demo_manifest\<rparr>"

lemma demo_root_ok: "validate_root_request demo_platform demo_root_request 1 = Inr ()"
  by (simp add: validate_root_request_ok demo_root_request_def demo_mission_def is_usable_at_def
      authority_is_subset_of_capabilities_def) (simp add: demo_manifest_def)

lemma demo_bootstrap: "bootstrap demo_platform demo_root_request (demo_custody ''k1'' 1) ''u1'' 1 = Inr demo_state"
  and demo_leases: "as_leases demo_state = [(''lease-u1'', demo_entry)]"
  and demo_frame: "as_mission demo_state = demo_mission" "as_root_lease_id demo_state = ''lease-u1''"
    "as_identities demo_state = [(''a1'', demo_root_identity)]" "as_custodians demo_state = [(''a1'', demo_custody ''k1'' 1)]"
proof -
  have "\<exists>s. bootstrap demo_platform demo_root_request (demo_custody ''k1'' 1) ''u1'' 1
      = Inr s \<and> as_leases s = [(''lease-u1'', demo_entry)] \<and> as_mission s = demo_mission
      \<and> as_root_lease_id s = ''lease-u1'' \<and> as_identities s = [(''a1'', demo_root_identity)]
      \<and> as_custodians s = [(''a1'', demo_custody ''k1'' 1)]"
    unfolding bootstrap_def using demo_root_ok
    by (simp add: Let_def)
      (simp add: demo_root_request_def unsigned_lease_def demo_entry_def demo_cert_def demo_mission_def
        demo_root_identity_def)
  then show "bootstrap demo_platform demo_root_request (demo_custody ''k1'' 1) ''u1'' 1 = Inr demo_state"
    "as_leases demo_state = [(''lease-u1'', demo_entry)]"
    "as_mission demo_state = demo_mission" "as_root_lease_id demo_state = ''lease-u1''"
    "as_identities demo_state = [(''a1'', demo_root_identity)]" "as_custodians demo_state = [(''a1'', demo_custody ''k1'' 1)]"
    by (auto simp: demo_state_def)
qed

lemma demo_reachable: "reachable demo_platform demo_state"
  unfolding reachable_def using demo_bootstrap run_refl by blast

lemma demo_inv: "kernel_inv demo_platform demo_state"
  using demo_reachable demo_cap_trans by (rule reachable_inv)

section \<open>A delegated lease\<close>

lemma demo_entry_simps [simp]:
  "en_certificate demo_entry = demo_cert" "en_record demo_entry = active_lease_record ''lease-u1''"
  "en_manifest demo_entry = demo_manifest" "lc_expires_at demo_cert = 8" "lc_agent_id demo_cert = ''a1''"
  "lc_delegable_authority demo_cert = AuthoritySet [''fs'']" "lc_granted_authority demo_cert = AuthoritySet [''fs'']"
  "lc_parent_lease demo_cert = None" "lc_capability_manifest_digest demo_cert = demo_dd ''aeon-capability-manifest-v1''"
  "lc_parent_agent_id demo_cert = None" "lc_lease_id demo_cert = ''lease-u1''"
  "lc_semantic_context_digest demo_cert = demo_digest" "lc_mission_id demo_cert = ''m1''"
  "ic_key_id demo_root_identity = ''k1''" "me_expires_at demo_mission = 9"
  "me_mission_id demo_mission = ''m1''"
  by (simp_all add: demo_entry_def demo_cert_def demo_root_identity_def unsigned_identity_def demo_mission_def)

lemma active_record_simps [simp]:
  "le_state (active_lease_record l) = Active" "le_generation (active_lease_record l) = 0"
  "le_lease_id (active_lease_record l) = l" "le_renewed_by (active_lease_record l) = None"
  by (simp_all add: active_lease_record_def)

lemma demo_validates:
  assumes "now < 8"
  obtains v where "validate_chain demo_platform demo_state ''lease-u1'' (Some 0) demo_manifest now = Inr v"
    and "length (va_chain v) = 1"
proof -
  have look: "map_of (as_leases demo_state) ''lease-u1'' = Some demo_entry" by (simp add: demo_leases)
  have "\<exists>v. validate_chain demo_platform demo_state ''lease-u1'' (Some 0) demo_manifest now = Inr v"
    unfolding validate_chain_exact [OF demo_inv demo_json_total look]
    using assms by (simp add: demo_leases entry_live_def)
  then obtain v where v: "validate_chain demo_platform demo_state ''lease-u1'' (Some 0) demo_manifest now = Inr v" ..
  obtain es where es: "lease_path (map_of (as_leases demo_state)) ''lease-u1'' es"
    "chain_observation demo_platform ''lease-u1'' es v"
    using validate_chain_sound [OF v] by (auto simp: authority_chain_def)
  have "lease_path (map_of (as_leases demo_state)) ''lease-u1'' [(''lease-u1'', demo_entry)]"
    using look by (rule lease_path.lease_root) simp
  then have one: "es = [(''lease-u1'', demo_entry)]" using es(1) lease_path_unique by blast
  have "mapE (\<lambda>(_, e). make_lease_ref demo_platform (en_certificate e)) (rev es) = Inr (va_chain v)"
    using es(2) by (simp only: chain_observation_def)
  then have "length (va_chain v) = length (rev es)" by (rule mapE_length)
  then have "length (va_chain v) = 1" by (simp add: one)
  with v that show ?thesis by blast
qed

definition demo_delegation :: "string delegation_request" where
  "demo_delegation = \<lparr>dr_parent_lease_id = ''lease-u1'', dr_expected_parent_generation = 0,
     dr_child_agent_id = ''a2'', dr_granted_authority = AuthoritySet [''fs''],
     dr_delegable_authority = AuthoritySet [''fs''], dr_capability_manifest = demo_manifest,
     dr_semantic_context_digest = demo_digest, dr_expires_at = 7\<rparr>"

definition demo_state2 :: "string authority_state" where
  "demo_state2 = snd (delegate demo_platform demo_delegation (demo_custody ''k2'' 2) ''u2'' 2 demo_state)"

definition demo_child :: "string lease_entry" where
  "demo_child = \<lparr>en_certificate = \<lparr>lc_lease_id = ''lease-u2'', lc_mission_id = ''m1'', lc_agent_id = ''a2'',
     lc_parent_agent_id = Some ''a1'',
     lc_agent_identity_digest = demo_dd ''aeon-agent-identity-certificate-v1'',
     lc_issuer_identity_digest = demo_dd ''aeon-agent-identity-certificate-v1'', lc_issuer_key_id = ''k1'',
     lc_parent_lease = Some \<lparr>lr_lease_id = ''lease-u1'',
       lr_certificate_digest = demo_dd ''aeon-authority-lease-certificate-record-v2''\<rparr>,
     lc_renewed_from = None, lc_organization_version = 1, lc_policy_epoch = 1,
     lc_granted_authority = AuthoritySet [''fs''], lc_delegable_authority = AuthoritySet [''fs''],
     lc_capability_manifest_digest = demo_dd ''aeon-capability-manifest-v1'',
     lc_semantic_context_digest = demo_digest, lc_issued_at = 2, lc_expires_at = 7,
     lc_signature = replicate 64 1\<rparr>, en_record = active_lease_record ''lease-u2'', en_manifest = demo_manifest\<rparr>"

lemma demo_delegate:
  "delegate demo_platform demo_delegation (demo_custody ''k2'' 2) ''u2'' 2 demo_state = (Inr ''lease-u2'', demo_state2)"
  and demo_leases2: "as_leases demo_state2 = [(''lease-u1'', demo_entry), (''lease-u2'', demo_child)]"
proof -
  obtain v where v: "validate_chain demo_platform demo_state ''lease-u1'' (Some 0) demo_manifest 2 = Inr v"
    "length (va_chain v) = 1" using demo_validates [of 2] by auto
  have req: "validate_delegation_request demo_platform demo_state demo_entry demo_delegation 2 = Inr ()"
    by (simp add: validate_delegation_request_ok demo_delegation_def demo_frame)
  have act: "validate_active_record demo_entry (Some 0) 2 = Inr ()"
    by (simp add: validate_active_record_ok entry_live_def)
  have "\<exists>t. delegate demo_platform demo_delegation (demo_custody ''k2'' 2) ''u2'' 2 demo_state = (Inr ''lease-u2'', t)
      \<and> as_leases t = [(''lease-u1'', demo_entry), (''lease-u2'', demo_child)]"
    unfolding delegate_def atomicS_def
    using v req act
    by (simp add: demo_delegation_def Let_def demo_leases demo_frame MAX_AUTHORITY_CHAIN_DEPTH_def)
      (simp add: unsigned_lease_def demo_child_def demo_cert_def)
  then show "delegate demo_platform demo_delegation (demo_custody ''k2'' 2) ''u2'' 2 demo_state = (Inr ''lease-u2'', demo_state2)"
    "as_leases demo_state2 = [(''lease-u1'', demo_entry), (''lease-u2'', demo_child)]"
    by (auto simp: demo_state2_def)
qed

lemma demo_run: "kernel_run demo_platform demo_state demo_state2"
  using run_step [OF run_refl, of demo_state "OpDelegate demo_delegation (demo_custody ''k2'' 2) ''u2'' 2" demo_platform]
  by (simp add: demo_leases demo_delegate)

lemma demo_reachable2: "reachable demo_platform demo_state2"
  using demo_reachable demo_run by (rule reachable_run)

lemma demo_inv2: "kernel_inv demo_platform demo_state2"
  using demo_reachable2 demo_cap_trans by (rule reachable_inv)

lemma demo_descendants2: "''lease-u2'' \<in> descendants (map_of (as_leases demo_state2)) ''lease-u1''"
  by (rule descendants_child [of "''lease-u1''" _ _ _ demo_child])
    (simp_all add: demo_leases2 parent_id_def demo_child_def)

lemma demo_root2:
  "hm_ok (as_leases demo_state2)" "map_of (as_leases demo_state2) ''lease-u1'' = Some demo_entry"
  "le_generation (en_record demo_entry) = 0" "live_state (le_state (en_record demo_entry))"
  by (rule kernel_inv_hm [OF demo_inv2]) (simp_all add: demo_leases2 live_state_def)

end
