(* ===== verification/EventLog.thy ===== *)
theory EventLog
  imports AeonPrelude "HOL-Library.Sublist"
begin

text \<open>
  The contract of the runtime's two evidence logs, the authority events of the kernel and the
  mission events of the store: an append puts one event at the end, numbered one above the length
  of the log. From it follow that logs only grow and that their numbers are contiguous from one.
\<close>

definition numbered :: "('e \<Rightarrow> u64) \<Rightarrow> 'e list \<Rightarrow> bool" where
  "numbered sequence_of es \<longleftrightarrow> list_all (\<lambda>(i, e). sequence_of e = of_nat i + 1) (enumerate 0 es)"

lemma numbered_Nil [simp]: "numbered q []"
  by (simp add: numbered_def)

lemma numbered_snoc [simp]: "numbered q (es @ [e]) \<longleftrightarrow> numbered q es \<and> q e = of_nat (length es) + 1"
  by (simp add: numbered_def enumerate_append_eq)

lemma numbered_nth: "numbered q es \<longleftrightarrow> (\<forall>i < length es. q (es ! i) = of_nat i + 1)"
  by (auto simp: numbered_def list_all_length nth_enumerate_eq)

definition log_extends :: "('e \<Rightarrow> u64) \<Rightarrow> 'e list \<Rightarrow> 'e list \<Rightarrow> bool" where
  "log_extends q es es' \<longleftrightarrow> prefix es es' \<and> (numbered q es \<longrightarrow> numbered q es')"

lemma log_extends_refl [simp]: "log_extends q es es"
  by (simp add: log_extends_def)

lemma log_extends_trans: "log_extends q a b \<Longrightarrow> log_extends q b c \<Longrightarrow> log_extends q a c"
  unfolding log_extends_def by (meson prefix_order.trans)

lemma log_extends_numbered: "log_extends q [] es \<Longrightarrow> numbered q es"
  by (simp add: log_extends_def)

locale event_log =
  fixes events_of :: "'s \<Rightarrow> 'e list"
    and sequence_of :: "'e \<Rightarrow> u64"
    and append_event :: "'x \<Rightarrow> 's \<Rightarrow> 's"
  assumes append_one: "\<exists>e. events_of (append_event x s) = events_of s @ [e]
    \<and> sequence_of e = of_nat (length (events_of s)) + 1"
begin

lemma append_extends: "log_extends sequence_of (events_of s) (events_of (append_event x s))"
  using append_one [of x s] by (auto simp: log_extends_def)

lemma append_strict: "length (events_of (append_event x s)) = Suc (length (events_of s))"
  using append_one [of x s] by auto

lemma appends_extend:
  "log_extends sequence_of (events_of s) (events_of (fold append_event xs s))"
proof (induction xs arbitrary: s)
  case Nil
  then show ?case by simp
next
  case (Cons x xs)
  have "log_extends sequence_of (events_of s) (events_of (append_event x s))" by (rule append_extends)
  from log_extends_trans [OF this Cons.IH] show ?case by simp
qed

end

end
