(* ===== verification/KernelLog.thy ===== *)
theory KernelLog
  imports KernelRuns EventLog
begin

text \<open>
  The authority events of the kernel fulfil the contract of an event log, and every operation,
  whether it succeeds or returns early, only extends the log.
\<close>

interpretation klog: event_log as_events ae_sequence "\<lambda>(l, r, k, n). push_event l r k n"
  by unfold_locales (auto simp: push_event_def)

lemma push_event_extends: "log_extends ae_sequence (as_events s) (as_events (push_event l r k n s))"
  using klog.append_extends [of s "(l, r, k, n)"] by simp

lemma push_event_extends_from:
  "as_events t = as_events s \<Longrightarrow> log_extends ae_sequence (as_events s) (as_events (push_event l r k n t))"
  by (metis push_event_extends)

lemma revoke_one_extends:
  "revoke_one rel reason now i s = (r, t) \<Longrightarrow> log_extends ae_sequence (as_events s) (as_events t)"
  by (auto simp: revoke_one_def intro: push_event_extends_from split: option.splits if_splits)

lemma revoke_loop_extends:
  "revoke_loop rel reason now is s = (r, t) \<Longrightarrow> log_extends ae_sequence (as_events s) (as_events t)"
proof (induction "is" arbitrary: s)
  case Nil
  then show ?case by simp
next
  case (Cons i "is")
  obtain q u where u: "revoke_one (rel i) reason now i s = (q, u)" by fastforce
  note one = revoke_one_extends [OF u]
  show ?case
  proof (cases q)
    case (Inl e)
    with Cons.prems u one show ?thesis by (simp add: bindS_def)
  next
    case (Inr x)
    with Cons.prems u have "revoke_loop rel reason now is u = (r, t)" by (simp add: bindS_def)
    from log_extends_trans [OF one Cons.IH [OF this]] show ?thesis .
  qed
qed

lemma revoke_descendants_extends:
  "revoke_descendants root reason now s = (r, t) \<Longrightarrow> log_extends ae_sequence (as_events s) (as_events t)"
  by (auto simp: revoke_descendants_def intro: revoke_loop_extends split: sum.splits)

lemma revoke_extends:
  "revoke l g reason now s = (r, t) \<Longrightarrow> log_extends ae_sequence (as_events s) (as_events t)"
  by (auto simp: revoke_def bindS_def liftS_def intro: revoke_loop_extends split: sum.splits prod.splits)

lemma transition_extends:
  "transition l g st st' k now s = (r, t) \<Longrightarrow> log_extends ae_sequence (as_events s) (as_events t)"
proof (cases r)
  case (Inl e)
  assume "transition l g st st' k now s = (r, t)"
  with Inl show ?thesis by (simp add: transition_def atomicS_Inl)
next
  case (Inr out)
  assume "transition l g st st' k now s = (r, t)"
  with Inr show ?thesis by (auto elim!: transition_effect intro: push_event_extends_from)
qed

lemma expire_loop_extends:
  "expire_loop now due acc s = (r, t) \<Longrightarrow> log_extends ae_sequence (as_events s) (as_events t)"
proof (induction due arbitrary: acc s)
  case Nil
  then show ?case by simp
next
  case (Cons l due)
  show ?case
  proof (cases "map_of (as_leases s) l")
    case None
    with Cons.prems show ?thesis by simp
  next
    case (Some e)
    show ?thesis
    proof (cases "live_state (le_state (en_record e))")
      case False
      with Cons Some show ?thesis by simp
    next
      case True
      let ?s = "push_event l None LeaseExpired now (s\<lparr>as_leases := AList.update l
        (e\<lparr>en_record := (en_record e)\<lparr>le_state := Expired, le_generation := le_generation (en_record e) + 1\<rparr>\<rparr>)
        (as_leases s)\<rparr>)"
      have one: "log_extends ae_sequence (as_events s) (as_events ?s)"
        by (rule push_event_extends_from) simp
      obtain q u where u: "revoke_descendants l ''ancestor lease expired'' now ?s = (q, u)" by fastforce
      note su = log_extends_trans [OF one revoke_descendants_extends [OF u]]
      have run: "bindS (revoke_descendants l ''ancestor lease expired'' now)
          (\<lambda>_. expire_loop now due (acc @ [l])) ?s = (r, t)" using Cons.prems Some True by simp
      show ?thesis
      proof (cases q)
        case (Inl x)
        with run u su show ?thesis by (simp add: bindS_def)
      next
        case (Inr x)
        with run u have "expire_loop now due (acc @ [l]) u = (r, t)" by (simp add: bindS_def)
        from log_extends_trans [OF su Cons.IH [OF this]] show ?thesis .
      qed
    qed
  qed
qed

lemma delegate_extends:
  "delegate P req custody uuid now s = (r, t) \<Longrightarrow> log_extends ae_sequence (as_events s) (as_events t)"
proof (cases r)
  case (Inl e)
  assume "delegate P req custody uuid now s = (r, t)"
  with Inl delegate_Inl show ?thesis by fastforce
next
  case (Inr l)
  assume "delegate P req custody uuid now s = (r, t)"
  then have d: "delegate P req custody uuid now s = (Inr l, t)" using Inr by simp
  show ?thesis
  proof (rule delegate_effect [OF d])
    fix ident cert
    assume "t = push_event l (Some (dr_parent_lease_id req)) LeaseDelegated now
          (push_event l (Some (dr_parent_lease_id req)) IdentityRegistered now
          (s\<lparr>as_identities := AList.update (dr_child_agent_id req) ident (as_identities s),
             as_custodians := AList.update (dr_child_agent_id req) custody (as_custodians s),
             as_leases := AList.update l \<lparr>en_certificate = cert, en_record = active_lease_record l,
               en_manifest = dr_capability_manifest req\<rparr> (as_leases s)\<rparr>))"
    then show ?thesis
      by (simp only:) (rule log_extends_trans [OF push_event_extends_from push_event_extends], simp)
  qed
qed

lemma renew_extends:
  "renew P req uuid now s = (r, t) \<Longrightarrow> log_extends ae_sequence (as_events s) (as_events t)"
proof (cases "renewed_certificate P req uuid now s")
  case (Inl e)
  assume "renew P req uuid now s = (r, t)"
  with Inl show ?thesis by (simp add: renew_def)
next
  case (Inr y)
  assume ren: "renew P req uuid now s = (r, t)"
  obtain old l cert where y: "y = (old, l, cert)" by (cases y)
  let ?s = "s\<lparr>as_leases := AList.update (nr_lease_id req) (retired_entry l old) (as_leases s)\<rparr>"
  obtain q u where u: "revoke_descendants (nr_lease_id req) ''ancestor lease retired during renewal'' now ?s
      = (q, u)" by fastforce
  have su: "log_extends ae_sequence (as_events s) (as_events u)" using revoke_descendants_extends [OF u] by simp
  show ?thesis
  proof (cases q)
    case (Inl x)
    with ren u su Inr y show ?thesis by (simp add: renew_def bindS_def)
  next
    case (Inr x)
    with ren u su \<open>renewed_certificate P req uuid now s = Inr y\<close> y show ?thesis
      by (auto simp: renew_def bindS_def Let_def
          intro: log_extends_trans [OF _ push_event_extends_from] split: if_splits)
  qed
qed

lemma run_op_extends: "log_extends ae_sequence (as_events s) (as_events (run_op P op s))"
proof (cases op)
  case (OpDelegate req custody uuid now)
  then show ?thesis using delegate_extends [of P req custody uuid now s] by (metis prod.collapse run_op.simps(1))
next
  case (OpPause l g now)
  then show ?thesis unfolding OpPause run_op.simps pause_def by (metis prod.collapse transition_extends)
next
  case (OpResume l g now)
  then show ?thesis unfolding OpResume run_op.simps resume_def by (metis prod.collapse transition_extends)
next
  case (OpRevoke l g reason now)
  then show ?thesis unfolding OpRevoke run_op.simps by (metis prod.collapse revoke_extends)
next
  case (OpRefreshExpirations now)
  then show ?thesis unfolding OpRefreshExpirations run_op.simps refresh_expirations_def
    by (metis prod.collapse expire_loop_extends)
next
  case (OpRenew req uuid now)
  then show ?thesis unfolding OpRenew run_op.simps by (metis prod.collapse renew_extends)
qed

lemma kernel_run_extends: "kernel_run P s t \<Longrightarrow> log_extends ae_sequence (as_events s) (as_events t)"
proof (induction rule: kernel_run.induct)
  case (run_refl s)
  then show ?case by simp
next
  case (run_step s t op)
  from log_extends_trans [OF run_step.IH run_op_extends] show ?case .
qed

lemma bootstrap_numbered: "bootstrap P req custody uuid now = Inr s \<Longrightarrow> numbered ae_sequence (as_events s)"
  by (erule bootstrap_effect) (simp add: push_event_def numbered_def)

end
