(* ===== verification/KernelHistory.thy ===== *)
theory KernelHistory
  imports KernelLog
begin

text \<open>
  The authority log accounts for the lease table. Replaying the events that were appended between two
  states of the kernel on the state and the generation a lease had gives the state and the generation
  it has, and a lease no event names has kept its entry: records change through logged events only,
  and every change advances the generation by one.
\<close>

section \<open>Replaying the log\<close>

definition event_about :: "lease_id \<Rightarrow> authority_event \<Rightarrow> bool" where
  "event_about l ev \<longleftrightarrow>
     ae_lease_id ev = l \<and> ae_kind ev \<in> {LeasePaused, LeaseResumed, LeaseRevoked, LeaseExpired}
     \<or> ae_related_lease_id ev = Some l \<and> ae_kind ev = LeaseRenewed"

fun state_after :: "authority_event_kind \<Rightarrow> lease_state" where
  "state_after LeasePaused = Paused"
| "state_after LeaseRevoked = Revoked"
| "state_after LeaseExpired = Expired"
| "state_after LeaseRenewed = Retired"
| "state_after _ = Active"

definition replay_event :: "lease_id \<Rightarrow> authority_event \<Rightarrow> lease_state \<times> u64 \<Rightarrow> lease_state \<times> u64" where
  "replay_event l ev sg = (if event_about l ev then (state_after (ae_kind ev), snd sg + 1) else sg)"

definition replay :: "lease_id \<Rightarrow> authority_event list \<Rightarrow> lease_state \<times> u64 \<Rightarrow> lease_state \<times> u64" where
  "replay l evs = fold (replay_event l) evs"

lemma replay_simps [simp]:
  "replay l [] sg = sg" "replay l (ev # evs) sg = replay l evs (replay_event l ev sg)"
  "replay l (xs @ ys) sg = replay l ys (replay l xs sg)"
  by (simp_all add: replay_def)

lemma replay_unnamed: "\<forall>ev \<in> set evs. \<not> event_about l ev \<Longrightarrow> replay l evs sg = sg"
  by (induction evs arbitrary: sg) (simp_all add: replay_event_def)

text \<open>The generation counts the events about the lease, whatever its state.\<close>

lemma replay_generation: "snd (replay l evs sg) = snd sg + of_nat (length (filter (event_about l) evs))"
  by (induction evs arbitrary: sg) (simp_all add: replay_event_def)

definition state_of :: "'cap lease_entry \<Rightarrow> lease_state \<times> u64" where
  "state_of e = (le_state (en_record e), le_generation (en_record e))"

definition told :: "lease_id \<Rightarrow> authority_event list \<Rightarrow> 'cap lease_entry \<Rightarrow> 'cap lease_entry \<Rightarrow> bool" where
  "told l evs e e' \<longleftrightarrow> state_of e' = replay l evs (state_of e)
     \<and> ((\<forall>ev \<in> set evs. \<not> event_about l ev) \<longrightarrow> e' = e)"

lemma told_append: "told l xs a b \<Longrightarrow> told l ys b c \<Longrightarrow> told l (xs @ ys) a c"
  by (auto simp: told_def)

definition accounted :: "'cap authority_state \<Rightarrow> 'cap authority_state \<Rightarrow> bool" where
  "accounted s t \<longleftrightarrow> (\<exists>evs. as_events t = as_events s @ evs
     \<and> (\<forall>l e. map_of (as_leases s) l = Some e \<longrightarrow> (\<exists>e'. map_of (as_leases t) l = Some e' \<and> told l evs e e')))"

lemma accounted_refl [simp]: "accounted s s"
  by (simp add: accounted_def told_def)

lemma accounted_trans:
  assumes "accounted s t" and "accounted t u"
  shows "accounted s u"
proof -
  obtain xs ys where xs: "as_events t = as_events s @ xs"
      "\<And>l e. map_of (as_leases s) l = Some e \<Longrightarrow> \<exists>e'. map_of (as_leases t) l = Some e' \<and> told l xs e e'"
    and ys: "as_events u = as_events t @ ys"
      "\<And>l e. map_of (as_leases t) l = Some e \<Longrightarrow> \<exists>e'. map_of (as_leases u) l = Some e' \<and> told l ys e e'"
    using assms unfolding accounted_def by blast
  have "\<exists>e'. map_of (as_leases u) l = Some e' \<and> told l (xs @ ys) e e'" if "map_of (as_leases s) l = Some e" for l e
    using xs(2) [OF that] ys(2) told_append by blast
  with xs(1) ys(1) show ?thesis unfolding accounted_def by (intro exI [of _ "xs @ ys"]) simp
qed

section \<open>Every operation accounts for what it changes\<close>

text \<open>One entry is changed and the change is logged.\<close>

lemma accounted_change:
  assumes e: "map_of (as_leases s) l = Some e"
    and k: "k \<in> {LeasePaused, LeaseResumed, LeaseRevoked, LeaseExpired}"
    and e': "state_of e' = (state_after k, le_generation (en_record e) + 1)"
  shows "accounted s (push_event l r k now (s\<lparr>as_leases := AList.update l e' (as_leases s)\<rparr>))"
proof -
  have "event_about a \<lparr>ae_sequence = n, ae_lease_id = l, ae_related_lease_id = r, ae_kind = k, ae_occurred_at = now\<rparr>
      \<longleftrightarrow> a = l" for a n using k by (auto simp: event_about_def)
  with e e' show ?thesis
    by (auto simp: accounted_def push_event_def update_conv' told_def replay_event_def state_of_def)
qed

text \<open>Events about no known lease may be appended, and new leases added.\<close>

lemma accounted_new:
  assumes "map_of (as_leases s) l = None" and "as_events t = as_events s"
    and "map_of (as_leases t) = (map_of (as_leases s))(l \<mapsto> e)" and "k \<in> {IdentityRegistered, LeaseDelegated}"
  shows "accounted s (push_event l r k now t)"
proof -
  have "\<not> event_about a \<lparr>ae_sequence = n, ae_lease_id = l, ae_related_lease_id = r, ae_kind = k, ae_occurred_at = now\<rparr>"
    for a n using assms(4) by (auto simp: event_about_def)
  with assms show ?thesis by (auto simp: accounted_def push_event_def told_def replay_event_def)
qed

lemma revoke_one_accounted: "revoke_one rel reason now i s = (r, t) \<Longrightarrow> accounted s t"
  by (auto simp: revoke_one_def state_of_def revoked_record_def intro!: accounted_change
      split: option.splits if_splits)

lemma revoke_loop_accounted: "revoke_loop rel reason now is s = (r, t) \<Longrightarrow> accounted s t"
proof (induction "is" arbitrary: s)
  case (Cons i "is")
  obtain q u where u: "revoke_one (rel i) reason now i s = (q, u)" by fastforce
  note one = revoke_one_accounted [OF u]
  show ?case
  proof (cases q)
    case (Inl e)
    with Cons.prems u one show ?thesis by (simp add: bindS_def)
  next
    case (Inr x)
    with Cons.prems u have "revoke_loop rel reason now is u = (r, t)" by (simp add: bindS_def)
    from accounted_trans [OF one Cons.IH [OF this]] show ?thesis .
  qed
qed simp

lemma revoke_descendants_accounted: "revoke_descendants root reason now s = (r, t) \<Longrightarrow> accounted s t"
  by (auto simp: revoke_descendants_def intro: revoke_loop_accounted split: sum.splits)

lemma revoke_accounted: "revoke l g reason now s = (r, t) \<Longrightarrow> accounted s t"
  by (auto simp: revoke_def bindS_def liftS_def intro: revoke_loop_accounted split: sum.splits prod.splits)

lemma transition_accounted:
  assumes "transition l g st st' k now s = (r, t)" and "(st', k) \<in> {(Paused, LeasePaused), (Active, LeaseResumed)}"
  shows "accounted s t"
proof (cases r)
  case (Inl e)
  with assms show ?thesis by (simp add: transition_def atomicS_Inl)
next
  case (Inr out)
  from assms(1) [unfolded Inr] show ?thesis
    by (rule transition_effect) (use assms(2) in \<open>auto simp: state_of_def intro!: accounted_change\<close>)
qed

lemma expire_loop_accounted: "expire_loop now due acc s = (r, t) \<Longrightarrow> accounted s t"
proof (induction due arbitrary: acc s)
  case (Cons l due)
  show ?case
  proof (cases "\<exists>e. map_of (as_leases s) l = Some e \<and> live_state (le_state (en_record e))")
    case False
    with Cons show ?thesis by (auto split: option.splits if_splits)
  next
    case True
    then obtain e where e: "map_of (as_leases s) l = Some e" "live_state (le_state (en_record e))" by blast
    let ?s = "push_event l None LeaseExpired now (s\<lparr>as_leases := AList.update l (expired_entry e) (as_leases s)\<rparr>)"
    obtain q u where u: "revoke_descendants l ''ancestor lease expired'' now ?s = (q, u)" by fastforce
    have "accounted s ?s" using e(1) by (intro accounted_change) (simp_all add: state_of_def expired_entry_def)
    from accounted_trans [OF this revoke_descendants_accounted [OF u]] have su: "accounted s u" .
    have run: "bindS (revoke_descendants l ''ancestor lease expired'' now) (\<lambda>_. expire_loop now due (acc @ [l])) ?s = (r, t)"
      using Cons.prems e by (simp add: expired_entry_def)
    show ?thesis
    proof (cases q)
      case (Inl x)
      with run u su show ?thesis by (simp add: bindS_def)
    next
      case (Inr x)
      with run u have "expire_loop now due (acc @ [l]) u = (r, t)" by (simp add: bindS_def)
      from accounted_trans [OF su Cons.IH [OF this]] show ?thesis .
    qed
  qed
qed simp

lemma delegate_accounted:
  assumes "delegate P req custody uuid now s = (r, t)" and fresh: "map_of (as_leases s) (''lease-'' @ uuid) = None"
  shows "accounted s t"
proof (cases r)
  case (Inl e)
  with assms delegate_Inl show ?thesis by fastforce
next
  case (Inr l)
  from assms(1) [unfolded Inr] show ?thesis
  proof (rule delegate_effect)
    fix ident cert
    let ?e = "\<lparr>en_certificate = cert, en_record = active_lease_record l, en_manifest = dr_capability_manifest req\<rparr>"
    let ?p = "Some (dr_parent_lease_id req)"
    let ?s = "s\<lparr>as_identities := AList.update (dr_child_agent_id req) ident (as_identities s),
             as_custodians := AList.update (dr_child_agent_id req) custody (as_custodians s),
             as_leases := AList.update l ?e (as_leases s)\<rparr>"
    assume l: "new_lease_id uuid = Inr l"
      and t: "t = push_event l ?p LeaseDelegated now (push_event l ?p IdentityRegistered now ?s)"
    have none: "map_of (as_leases s) l = None" using fresh new_lease_id_eq [OF l] by simp
    have one: "accounted s (push_event l ?p IdentityRegistered now ?s)"
      by (rule accounted_new [OF none]) (simp_all add: update_conv')
    have silent: "\<not> event_about a \<lparr>ae_sequence = n, ae_lease_id = l, ae_related_lease_id = ?p, ae_kind = LeaseDelegated,
        ae_occurred_at = now\<rparr>" for a n by (simp add: event_about_def)
    have "accounted u (push_event l ?p LeaseDelegated now u)" for u :: "'a authority_state"
      using silent by (auto simp: accounted_def push_event_def told_def replay_event_def)
    with one t show ?thesis using accounted_trans by blast
  qed
qed

text \<open>A renewal retires the old lease first and logs it last; in between only leases below it change.\<close>

lemma renew_accounted:
  assumes ok: "hm_ok (as_leases s)" and r: "renew P req uuid now s = (r, t)"
    and fresh: "map_of (as_leases s) (''lease-'' @ uuid) = None"
  shows "accounted s t"
proof (cases "renewed_certificate P req uuid now s")
  case (Inl e)
  with r show ?thesis by (simp add: renew_def)
next
  case (Inr y)
  obtain old l cert where y: "y = (old, l, cert)" by (cases y)
  let ?o = "nr_lease_id req" and ?why = "''ancestor lease retired during renewal''"
  let ?s = "s\<lparr>as_leases := AList.update ?o (retired_entry l old) (as_leases s)\<rparr>"
  note c = Inr [unfolded y]
  have old: "map_of (as_leases s) ?o = Some old" using c by (rule renewed_certificate_effect)
  have "new_lease_id uuid = Inr l" using c by (rule renewed_certificate_effect)
  then have none: "map_of (as_leases s) l = None" using fresh new_lease_id_eq by simp
  have look: "map_of (as_leases ?s) = (map_of (as_leases s))(?o \<mapsto> retired_entry l old)" by (simp add: update_conv')
  then have known: "map_of (as_leases ?s) ?o \<noteq> None" by simp
  have ok': "hm_ok (as_leases ?s)" using ok old by (simp add: hm_ok_def distinct_update)
  obtain u where u: "revoke_descendants ?o ?why now ?s = (Inr (), u)" and ro: "record_only ?s u"
    by (rule revoke_descendants_result [OF ok' known, where reason = ?why and now = now]) blast
  obtain evs where evs: "as_events u = as_events s @ evs"
    "\<And>k e. map_of (as_leases ?s) k = Some e \<Longrightarrow> \<exists>e'. map_of (as_leases u) k = Some e' \<and> told k evs e e'"
    using revoke_descendants_accounted [OF u] unfolding accounted_def by auto
  define ev where "ev = \<lparr>ae_sequence = of_nat (length (as_events u)) + 1, ae_lease_id = l,
    ae_related_lease_id = Some ?o, ae_kind = LeaseRenewed, ae_occurred_at = now\<rparr>"
  have about: "event_about k ev \<longleftrightarrow> k = ?o" for k by (auto simp: event_about_def ev_def)
  have t: "as_events t = as_events s @ evs @ [ev]" "\<And>k. k \<noteq> l \<Longrightarrow> map_of (as_leases t) k = map_of (as_leases u) k"
    using r Inr y u evs(1) by (auto simp: renew_def bindS_def Let_def push_event_def update_conv' ev_def)
  have "\<exists>e'. map_of (as_leases t) k = Some e' \<and> told k (evs @ [ev]) e e'" if e: "map_of (as_leases s) k = Some e" for k e
  proof (cases "k = ?o")
    case True
    then have "e = old" using e old by simp
    have dead: "map_of (as_leases u) ?o = Some (retired_entry l old)"
      by (rule dead_stays_dead [OF ro]) (simp_all add: update_conv')
    obtain d where d: "map_of (as_leases u) ?o = Some d" "told ?o evs (retired_entry l old) d"
      using evs(2) [of ?o] look by auto
    then have "state_of (retired_entry l old) = replay ?o evs (state_of (retired_entry l old))"
      using dead by (simp add: told_def)
    then have "of_nat (length (filter (event_about ?o) evs)) = (0 :: u64)"
      using replay_generation [of ?o evs "state_of (retired_entry l old)"] by simp
    then have "told ?o (evs @ [ev]) old (retired_entry l old)"
      using about replay_generation [of ?o evs "state_of old"]
      by (simp add: told_def replay_event_def state_of_def retired_entry_def ev_def)
    moreover have "k \<noteq> l" using none e by auto
    ultimately show ?thesis using dead t(2) True \<open>e = old\<close> by simp
  next
    case False
    then obtain d where "map_of (as_leases u) k = Some d" "told k evs e d" using evs(2) [of k e] look e by auto
    moreover have "told k [ev] d d" using about False by (simp add: told_def replay_event_def)
    moreover have "k \<noteq> l" using none e by auto
    ultimately show ?thesis using t(2) told_append by fastforce
  qed
  with t(1) show ?thesis unfolding accounted_def by (intro exI [of _ "evs @ [ev]"]) simp
qed

lemma run_op_accounted:
  assumes "hm_ok (as_leases s)" and "op_fresh s op"
  shows "accounted s (run_op P op s)"
proof (cases op)
  case (OpDelegate req custody uuid now)
  then show ?thesis using delegate_accounted [OF surjective_pairing] assms(2) by simp
next
  case (OpPause l g now)
  then show ?thesis using transition_accounted [OF surjective_pairing, of Paused LeasePaused] by (simp add: pause_def)
next
  case (OpResume l g now)
  then show ?thesis using transition_accounted [OF surjective_pairing, of Active LeaseResumed] by (simp add: resume_def)
next
  case (OpRevoke l g reason now)
  then show ?thesis using revoke_accounted [OF surjective_pairing] by simp
next
  case (OpRefreshExpirations now)
  then show ?thesis using expire_loop_accounted [OF surjective_pairing] by (simp add: refresh_expirations_def)
next
  case (OpRenew req uuid now)
  then show ?thesis using renew_accounted [OF assms(1) surjective_pairing] assms(2) by simp
qed

lemma kernel_run_accounted:
  "kernel_run P s t \<Longrightarrow> kernel_inv P s \<Longrightarrow> cap_trans P \<Longrightarrow> accounted s t"
proof (induction rule: kernel_run.induct)
  case (run_step s t op)
  then have "hm_ok (as_leases t)" using kernel_run_inv [OF run_step.hyps(1)] kernel_inv_hm by blast
  from run_op_accounted [OF this run_step.hyps(2)] run_step show ?case using accounted_trans by blast
qed simp

section \<open>Equal generations mean equal leases\<close>

text \<open>As long as fewer than \<open>2 ^ 64\<close> events were appended, a lease with the generation it had is the lease it was.\<close>

lemma same_generation_same_entry:
  assumes "accounted s t" and "length (as_events t) < length (as_events s) + 2 ^ 64"
    and "map_of (as_leases s) l = Some e" and "map_of (as_leases t) l = Some e'"
    and "le_generation (en_record e') = le_generation (en_record e)"
  shows "e' = e"
proof -
  obtain evs where evs: "as_events t = as_events s @ evs" "told l evs e e'"
    using assms(1,3,4) unfolding accounted_def by fastforce
  have "le_generation (en_record e') = le_generation (en_record e) + of_nat (length (filter (event_about l) evs))"
    using evs(2) replay_generation [of l evs "state_of e"] by (simp add: told_def state_of_def) (metis snd_conv)
  then have zero: "(of_nat (length (filter (event_about l) evs)) :: u64) = 0" using assms(5) by simp
  have "length (filter (event_about l) evs) < 2 ^ 64"
    using assms(2) evs(1) by (intro order.strict_trans1 [OF length_filter_le]) simp
  moreover have "2 ^ 64 dvd length (filter (event_about l) evs)" using zero by (simp add: word_of_nat_eq_0_iff)
  ultimately have "length (filter (event_about l) evs) = 0" using dvd_imp_le by (metis gr_zeroI not_le)
  with evs(2) show ?thesis by (simp add: told_def filter_empty_conv)
qed

lemma chain_observation_unique: "chain_observation P l es v \<Longrightarrow> chain_observation P l es v' \<Longrightarrow> v' = v"
  unfolding chain_observation_def by (intro validated_authority.equality) auto

text \<open>
  A lease and all above it are as they were and unexpired. What was validated then validates to the same
  observation, and nothing else has the observed generations.
\<close>

definition chain_unchanged ::
  "'cap authority_state \<Rightarrow> 'cap authority_state \<Rightarrow> lease_id \<Rightarrow> timestamp \<Rightarrow> bool" where
  "chain_unchanged s u k later \<longleftrightarrow>
     (\<forall>a e. map_of (as_leases s) a = Some e \<longrightarrow> k \<in> descendants (map_of (as_leases s)) a \<longrightarrow>
        map_of (as_leases u) a = Some e \<and> later < lc_expires_at (en_certificate e))"

lemma unchanged_validates:
  assumes inv: "kernel_inv P s" and trans: "cap_trans P" and json: "json_total P" and run: "kernel_run P s u"
    and v: "validate_chain P s k g m now = Inr v" and same: "chain_unchanged s u k later"
  shows "validate_chain P u k g m later = Inr v"
proof -
  have uinv: "kernel_inv P u" and ev: "evolves s u" using kernel_run_inv [OF run inv trans] by simp_all
  obtain es where es: "authority_chain P s k g now es" "chain_observation P k es v"
    "manifest_canonical_digest P m = Inr (va_capability_manifest_digest v)"
    using validate_chain_sound [OF v] by blast
  have path: "lease_path (map_of (as_leases s)) k es" using es(1) by (simp add: authority_chain_def)
  obtain e fs where hd: "es = (k, e) # fs" "map_of (as_leases s) k = Some e" using lease_path_hd [OF path] by blast
  obtain gs where gs: "lease_path (map_of (as_leases u)) k gs" "map fst gs = map fst es"
    using lease_path_evolves [OF path ev] by blast
  have entries: "map_of (as_leases u) a = Some d \<and> later < lc_expires_at (en_certificate d)" if "(a, d) \<in> set es" for a d
    using same that unfolding chain_unchanged_def lease_path_mem [OF path] by blast
  have eq: "gs = es"
  proof (rule nth_equalityI)
    show len: "length gs = length es" using gs(2) by (metis length_map)
    fix i assume i: "i < length gs"
    have "fst (gs ! i) = fst (es ! i)" using gs(2) i len by (metis nth_map)
    moreover have "map_of (as_leases u) (fst (gs ! i)) = Some (snd (gs ! i))"
      using lease_path_entries [OF gs(1), of "fst (gs ! i)" "snd (gs ! i)"] i by simp
    moreover have "map_of (as_leases u) (fst (es ! i)) = Some (snd (es ! i))"
      using entries [of "fst (es ! i)" "snd (es ! i)"] i len by simp
    ultimately show "gs ! i = es ! i" by (simp add: prod_eq_iff)
  qed
  have "entry_live d later" if "(a, d) \<in> set es" for a d
    using es(1) entries [OF that] that by (auto simp: authority_chain_def entry_live_def)
  then have "\<forall>a d. map_of (as_leases u) a = Some d \<longrightarrow> k \<in> descendants (map_of (as_leases u)) a \<longrightarrow> entry_live d later"
    using lease_path_mem [OF gs(1)] eq by blast
  moreover have "\<forall>x. g = Some x \<longrightarrow> le_generation (en_record e) = x"
    "manifest_canonical_digest P m = Inr (lc_capability_manifest_digest (en_certificate e))"
    using es hd by (auto simp: authority_chain_def chain_observation_def)
  moreover have e: "map_of (as_leases u) k = Some e" using entries [of k e] hd by simp
  ultimately obtain v' where v': "validate_chain P u k g m later = Inr v'"
    using validate_chain_exact [OF uinv json e, of g m later] by blast
  obtain hs where hs: "authority_chain P u k g later hs" "chain_observation P k hs v'"
    using validate_chain_sound [OF v'] by blast
  have "hs = es" using lease_path_unique [OF gs(1)] hs(1) eq by (auto simp: authority_chain_def)
  then show ?thesis using v' chain_observation_unique es(2) hs(2) by blast
qed

lemma same_observation_unchanged:
  assumes inv: "kernel_inv P s" and trans: "cap_trans P" and run: "kernel_run P s u"
    and few: "length (as_events u) < length (as_events s) + 2 ^ 64"
    and v: "validate_chain P s k g m now = Inr v" and v': "validate_chain P u k g m later = Inr v'"
    and obs: "va_observed_generations v' = va_observed_generations v"
  shows "chain_unchanged s u k later"
  unfolding chain_unchanged_def
proof (intro allI impI)
  fix a e assume a: "map_of (as_leases s) a = Some e" "k \<in> descendants (map_of (as_leases s)) a"
  obtain es where es: "lease_path (map_of (as_leases s)) k es" "chain_observation P k es v"
    using validate_chain_sound [OF v] by (auto simp: authority_chain_def)
  obtain gs where gs: "lease_path (map_of (as_leases u)) k gs" "chain_observation P k gs v'"
    "\<forall>(l, e) \<in> set gs. entry_live e later"
    using validate_chain_sound [OF v'] by (auto simp: authority_chain_def)
  have "(a, e) \<in> set es" using a lease_path_mem [OF es(1)] by blast
  then have "(a, le_generation (en_record e)) \<in> set (va_observed_generations v)"
    using es(2) by (force simp: chain_observation_def)
  then have "(a, le_generation (en_record e)) \<in> set (va_observed_generations v')" using obs by simp
  then obtain d where d: "(a, d) \<in> set gs" "le_generation (en_record d) = le_generation (en_record e)"
    using gs(2) by (auto simp: chain_observation_def)
  have look: "map_of (as_leases u) a = Some d" using lease_path_entries [OF gs(1) d(1)] .
  have "d = e" using same_generation_same_entry [OF kernel_run_accounted [OF run inv trans] few a(1) look d(2)] .
  with look gs(3) d(1) show "map_of (as_leases u) a = Some e \<and> later < lc_expires_at (en_certificate e)"
    by (auto simp: entry_live_def)
qed

end
