(* ===== verification/KernelProperties.thy ===== *)
theory KernelProperties
  imports DemoPlatform KernelHistory
begin

text \<open>
  The properties of the authority kernel, each with an example that applies it to a kernel that was
  bootstrapped and has delegated one lease.
\<close>

section \<open>Confinement of authority\<close>

text \<open>C1: In every state the kernel reaches, every lease it ever issued, at any depth of delegation
  and after any number of renewals, grants only capabilities covered by a capability of the mission
  and never \<open>Capability::All\<close>, expires no later than the mission, and binds only tools of
  the mission.\<close>

theorem authority_confined:
  assumes "reachable P s" and "cap_trans P" and "map_of (as_leases s) l = Some e"
  shows "(\<forall>c \<in> set (capabilities (lc_granted_authority (en_certificate e))).
      c \<noteq> cap_all P \<and> (\<exists>a \<in> set (me_allowed_capabilities (as_mission s)). cap_subset P c a))
    \<and> lc_expires_at (en_certificate e) \<le> me_expires_at (as_mission s)
    \<and> (\<forall>b \<in> set (cm_approved_tools (en_manifest e)). bt_tool_id b \<in> set (me_allowed_tools (as_mission s)))"
  using kernel_inv_confined [OF reachable_inv [OF assms(1,2)] assms(2,3)] unfolding confined_def .

theorem authority_confined_witness:
  "lc_expires_at (en_certificate demo_child) \<le> me_expires_at (as_mission demo_state2)"
  using authority_confined [OF demo_reachable2 demo_cap_trans, of "''lease-u2''" demo_child]
  by (simp add: demo_leases2)

text \<open>C2: In every state the kernel reaches, checking the authority chain of a lease succeeds exactly
  when every lease above it, itself included, is active and unexpired, the expected generation is
  the current one, and the presented manifest has the digest the certificate was issued for: the
  cryptographic and structural checks never refuse a chain the kernel itself has built.\<close>

theorem chain_validation_exact:
  assumes "reachable P s" and "cap_trans P" and "json_total P" and "map_of (as_leases s) l = Some e"
  shows "(\<exists>v. validate_chain P s l g m now = Inr v) \<longleftrightarrow>
    (\<forall>k d. map_of (as_leases s) k = Some d \<longrightarrow> l \<in> descendants (map_of (as_leases s)) k \<longrightarrow> entry_live d now)
    \<and> (\<forall>x. g = Some x \<longrightarrow> le_generation (en_record e) = x)
    \<and> manifest_canonical_digest P m = Inr (lc_capability_manifest_digest (en_certificate e))"
  using reachable_inv [OF assms(1,2)] assms(3,4) by (rule validate_chain_exact)

theorem chain_validation_exact_witness:
  "\<exists>v. validate_chain demo_platform demo_state2 ''lease-u2'' (Some 0) demo_manifest 3 = Inr v"
  using chain_validation_exact [OF demo_reachable2 demo_cap_trans demo_json_total,
      of "''lease-u2''" demo_child "Some 0" demo_manifest 3]
  by (simp add: demo_leases2 entry_live_def demo_child_def)

text \<open>C3: Whatever the state, a chain that validates is a chain of authority: a path of parent
  references from the leaf to a root within the depth bound, every lease on it active, unexpired,
  bound to the mission and its manifest and signed by its registered issuer, every agent on it
  identified by a path of verified certificates to a self-signed root, and every child attenuated
  from its parent.\<close>

theorem chain_validation_sound:
  assumes "validate_chain P s leaf g m now = Inr v"
  shows "\<exists>es. lease_path (map_of (as_leases s)) leaf es \<and> length es \<le> MAX_AUTHORITY_CHAIN_DEPTH
    \<and> (\<forall>(l, e) \<in> set es. entry_live e now \<and> entry_certified P s e
         \<and> identity_trusted P (map_of (as_identities s)) (lc_agent_id (en_certificate e)))
    \<and> successively (\<lambda>c p. attenuated_child P (snd p) (snd c)) es
    \<and> va_observed_generations v = map (\<lambda>(l, e). (l, le_generation (en_record e))) (rev es)
    \<and> manifest_canonical_digest P m = Inr (va_capability_manifest_digest v)"
  using validate_chain_sound [OF assms] by (fastforce simp: authority_chain_def chain_observation_def)

theorem chain_validation_sound_witness:
  "\<exists>v es. validate_chain demo_platform demo_state ''lease-u1'' (Some 0) demo_manifest 2 = Inr v
    \<and> lease_path (map_of (as_leases demo_state)) ''lease-u1'' es"
proof -
  obtain v where v: "validate_chain demo_platform demo_state ''lease-u1'' (Some 0) demo_manifest 2 = Inr v"
    using demo_validates [of 2] by auto
  from chain_validation_sound [OF v] v show ?thesis by blast
qed

section \<open>Revocation\<close>

text \<open>C4: A revocation takes effect on the lease and everything below it and on nothing else: it
  returns the lease first and each of its descendants once, marks exactly those of them that were
  active or paused as revoked with the next generation, the time and the reason, and leaves every
  other lease, the identities, the keys and the mission as they were.\<close>

theorem revoke_cascades:
  assumes "hm_ok (as_leases s)" and "map_of (as_leases s) l = Some e"
    and "le_generation (en_record e) = g" and "live_state (le_state (en_record e))"
  shows "\<exists>ds t. revoke l g reason now s = (Inr ds, t) \<and> hd ds = l \<and> distinct ds
    \<and> set ds = descendants (map_of (as_leases s)) l \<and> same_frame s t
    \<and> (\<forall>k. map_of (as_leases t) k =
         (if k \<in> set ds then map_option (revoke_entry reason now) (map_of (as_leases s) k)
          else map_of (as_leases s) k))"
proof -
  obtain ds t where r: "revoke l g reason now s = (Inr ds, t)" "record_only s t"
    "set ds = descendants (map_of (as_leases s)) l" "distinct ds" "hd ds = l"
    "\<And>k. map_of (as_leases t) k =
      (if k \<in> descendants (map_of (as_leases s)) l
       then map_option (revoke_entry reason now) (map_of (as_leases s) k)
       else map_of (as_leases s) k)"
    using revoke_result [OF assms, of reason now] by metis
  then show ?thesis by (intro exI [of _ ds] exI [of _ t]) (auto simp: record_only_def)
qed

theorem revoke_cascades_witness:
  "\<exists>ds t. revoke ''lease-u1'' 0 ''stop'' 3 demo_state2 = (Inr ds, t) \<and> ''lease-u2'' \<in> set ds
    \<and> map_of (as_leases t) ''lease-u2'' = Some (revoke_entry ''stop'' 3 demo_child)"
proof -
  from revoke_cascades [OF demo_root2, of "''stop''" 3] obtain ds t
    where r: "revoke ''lease-u1'' 0 ''stop'' 3 demo_state2 = (Inr ds, t)"
      "set ds = descendants (map_of (as_leases demo_state2)) ''lease-u1''"
      "map_of (as_leases t) ''lease-u2'' = (if ''lease-u2'' \<in> set ds
         then map_option (revoke_entry ''stop'' 3) (map_of (as_leases demo_state2) ''lease-u2'')
         else map_of (as_leases demo_state2) ''lease-u2'')" by blast
  have "''lease-u2'' \<in> set ds" using r(2) demo_descendants2 by blast
  with r show ?thesis by (simp add: demo_leases2)
qed

text \<open>C5: Revocation is final. Once a lease has been revoked in a reachable state, then after any
  further operations of the kernel no lease at or below it validates, at any time and with any
  expected generation and manifest, including leases that were below it when it was revoked.\<close>

theorem revocation_is_final:
  assumes "reachable P s" and "cap_trans P" and "revoke l g reason now s = (Inr ds, t)"
    and "kernel_run P t u"
    and "k \<in> set ds \<union> descendants (map_of (as_leases u)) l"
  shows "validate_chain P u k g' m later \<noteq> Inr v"
proof -
  have inv: "kernel_inv P s" using assms(1,2) by (rule reachable_inv)
  note ok = kernel_inv_hm [OF inv]
  obtain e where e: "map_of (as_leases s) l = Some e" "le_generation (en_record e) = g"
    "live_state (le_state (en_record e))" using revoke_guards [OF assms(3)] by blast
  obtain ds' t' where r: "revoke l g reason now s = (Inr ds', t')" "record_only s t'"
    "set ds' = descendants (map_of (as_leases s)) l"
    "\<And>k. map_of (as_leases t') k =
      (if k \<in> descendants (map_of (as_leases s)) l
       then map_option (revoke_entry reason now) (map_of (as_leases s) k)
       else map_of (as_leases s) k)"
    using revoke_result [OF ok e, of reason now] by metis
  have t: "t' = t" "ds' = ds" using r(1) assms(3) by simp_all
  have dead: "map_of (as_leases t) l = Some (revoke_entry reason now e)" using r(4) e(1) t by simp
  have tu: "evolves t u"
    using kernel_run_inv [OF assms(4) _ assms(2)] kernel_inv_record_only [OF inv r(2)] t by blast
  have "set ds \<subseteq> descendants (map_of (as_leases u)) l"
    using r(3) t record_only_descendants [OF r(2)] evolves_descendants [OF tu, of l] by simp
  then have "k \<in> descendants (map_of (as_leases u)) l" using assms(5) by blast
  with dead_subtree_refused [OF dead _ tu] show ?thesis by simp
qed

theorem revocation_is_final_witness:
  "\<forall>v. validate_chain demo_platform (snd (revoke ''lease-u1'' 0 ''stop'' 3 demo_state2))
     ''lease-u2'' None demo_manifest 4 \<noteq> Inr v"
proof -
  from revoke_result [OF demo_root2, of "''stop''" 3] obtain ds t
    where r: "revoke ''lease-u1'' 0 ''stop'' 3 demo_state2 = (Inr ds, t)"
      "set ds = descendants (map_of (as_leases demo_state2)) ''lease-u1''" by metis
  have "''lease-u2'' \<in> set ds \<union> descendants (map_of (as_leases t)) ''lease-u1''"
    using r(2) demo_descendants2 by blast
  from revocation_is_final [OF demo_reachable2 demo_cap_trans r(1) run_refl this] r(1) show ?thesis by simp
qed

section \<open>The life of a lease\<close>

text \<open>C6: Certificates and manifests are immutable, ended leases stay ended and records only advance,
  as the log tells. Whatever the kernel does after a reachable state, no lease disappears, its
  certificate, manifest and id stay as they were issued, and a lease that is revoked, expired or
  retired keeps its whole record. The state and the generation of every lease are what replaying the
  events appended in between on the old ones gives; its generation has advanced by the number of those
  events that are about it, and without such an event its whole record is the old one.\<close>

theorem leases_only_advance:
  assumes "reachable P s" and "cap_trans P" and "kernel_run P s t" and "map_of (as_leases s) l = Some e"
  shows "\<exists>e' evs. map_of (as_leases t) l = Some e' \<and> as_events t = as_events s @ evs
    \<and> en_certificate e' = en_certificate e \<and> en_manifest e' = en_manifest e
    \<and> le_lease_id (en_record e') = le_lease_id (en_record e)
    \<and> (le_state (en_record e) \<in> {Revoked, Expired, Retired} \<longrightarrow> en_record e' = en_record e)
    \<and> (le_state (en_record e'), le_generation (en_record e'))
        = replay l evs (le_state (en_record e), le_generation (en_record e))
    \<and> le_generation (en_record e') = le_generation (en_record e) + of_nat (length (filter (event_about l) evs))
    \<and> ((\<forall>ev \<in> set evs. \<not> event_about l ev) \<longrightarrow> en_record e' = en_record e)"
proof -
  have inv: "kernel_inv P s" using assms(1,2) by (rule reachable_inv)
  obtain evs e' where e': "as_events t = as_events s @ evs" "map_of (as_leases t) l = Some e'" "told l evs e e'"
    using kernel_run_accounted [OF assms(3) inv assms(2)] assms(4) unfolding accounted_def by blast
  have "evolves s t" using kernel_run_inv [OF assms(3) inv assms(2)] by blast
  then have "lease_advances e e'" using evolves_lease assms(4) e'(2) by (metis option.inject)
  moreover have "le_generation (en_record e') = le_generation (en_record e) + of_nat (length (filter (event_about l) evs))"
    using e'(3) replay_generation [of l evs "state_of e"] by (simp add: told_def state_of_def) (metis snd_conv)
  ultimately show ?thesis
    using e' by (intro exI [of _ e'] exI [of _ evs]) (auto simp: lease_advances_def live_state_def told_def state_of_def)
qed

theorem leases_only_advance_witness:
  "\<exists>e' evs. map_of (as_leases demo_state2) ''lease-u1'' = Some e' \<and> as_events demo_state2 = as_events demo_state @ evs
    \<and> (le_state (en_record e'), le_generation (en_record e')) = replay ''lease-u1'' evs (Active, 0)"
  using leases_only_advance [OF demo_reachable demo_cap_trans demo_run, of "''lease-u1''" demo_entry]
  by (auto simp: demo_leases)

text \<open>A chain that validates ends at a lease of the table; none validates through a lease that is not live,
  and whether one validates depends on the entries of its own leases only.\<close>

lemma validated_is_leased: "validate_chain P u k h m time = Inr v \<Longrightarrow> \<exists>d. map_of (as_leases u) k = Some d"
  using validate_chain_sound lease_path_hd by (fastforce simp: authority_chain_def)

lemma dead_ancestor_refused:
  assumes "kernel_inv P t" and "json_total P" and "map_of (as_leases t) l = Some e" and "\<not> entry_live e time"
    and "k \<in> descendants (map_of (as_leases t)) l"
  shows "\<exists>x. validate_chain P t k h m time = Inl x"
proof (cases "validate_chain P t k h m time")
  case (Inr v)
  then obtain d where "map_of (as_leases t) k = Some d" using validated_is_leased by blast
  from validate_chain_exact [OF assms(1,2) this, of h m time] Inr assms(3-5) show ?thesis by blast
qed simp

lemma same_ancestors_validate:
  assumes "kernel_inv P s" and "kernel_inv P t" and "json_total P"
    and "\<And>a. descendants (map_of (as_leases t)) a = descendants (map_of (as_leases s)) a"
    and same: "\<And>a. k \<in> descendants (map_of (as_leases s)) a \<Longrightarrow> map_of (as_leases t) a = map_of (as_leases s) a"
  shows "(\<exists>v. validate_chain P t k h m time = Inr v) = (\<exists>v. validate_chain P s k h m time = Inr v)"
proof (cases "map_of (as_leases s) k")
  case None
  moreover have "map_of (as_leases t) k = None" using None same [of k] by simp
  ultimately show ?thesis using validated_is_leased by fastforce
next
  case (Some d)
  then have Some': "map_of (as_leases t) k = Some d" using same [of k] by simp
  show ?thesis
    unfolding validate_chain_exact [OF assms(1,3) Some] validate_chain_exact [OF assms(2,3) Some'] assms(4)
    using same by metis
qed

text \<open>C7: Pausing a lease suspends its whole subtree and nothing else. After a successful pause no lease
  at or below the paused one validates, at any time and with any generation and manifest, while
  every lease outside the subtree keeps its entry and validates exactly when it did before.\<close>

theorem pause_suspends_subtree:
  assumes "reachable P s" and "cap_trans P" and "json_total P" and "pause l g now s = (Inr r, t)"
  shows "(\<forall>k \<in> descendants (map_of (as_leases s)) l. \<forall>h m time. \<exists>e. validate_chain P t k h m time = Inl e)
    \<and> (\<forall>k. k \<notin> descendants (map_of (as_leases s)) l \<longrightarrow> map_of (as_leases t) k = map_of (as_leases s) k
        \<and> (\<forall>h m time. (\<exists>v. validate_chain P t k h m time = Inr v) = (\<exists>v. validate_chain P s k h m time = Inr v)))"
proof -
  from assms(4) obtain e where e: "map_of (as_leases s) l = Some e"
    "t = push_event l None LeasePaused now (s\<lparr>as_leases := AList.update l (e\<lparr>en_record := r\<rparr>) (as_leases s)\<rparr>)"
    "r = (en_record e)\<lparr>le_state := Paused, le_generation := le_generation (en_record e) + 1\<rparr>"
    unfolding pause_def by (rule transition_effect)
  have look: "map_of (as_leases t) k = (if k = l then Some (e\<lparr>en_record := r\<rparr>) else map_of (as_leases s) k)" for k
    using e(2) by (simp add: update_conv')
  have "record_only s t" using assms(4) unfolding pause_def by (rule transition_record_only) (simp add: live_state_def)
  then have same: "descendants (map_of (as_leases t)) k = descendants (map_of (as_leases s)) k" for k
    by (rule record_only_descendants)
  have inv: "kernel_inv P s" using assms(1,2) by (rule reachable_inv)
  have "kernel_run P s t" using run_step [OF run_refl, of s "OpPause l g now" P] assms(4) by simp
  then have inv': "kernel_inv P t" using kernel_run_inv [OF _ inv assms(2)] by blast
  have dead: "\<not> entry_live (e\<lparr>en_record := r\<rparr>) time" for time by (simp add: entry_live_def e(3))
  have "\<exists>x. validate_chain P t k h m time = Inl x" if "k \<in> descendants (map_of (as_leases s)) l" for k h m time
    using that look [of l] same by (intro dead_ancestor_refused [OF inv' assms(3) _ dead]) auto
  moreover have "(\<exists>v. validate_chain P t k h m time = Inr v) = (\<exists>v. validate_chain P s k h m time = Inr v)"
    if "k \<notin> descendants (map_of (as_leases s)) l" for k h m time
    using that look by (intro same_ancestors_validate [OF inv inv' assms(3) same]) auto
  moreover have "map_of (as_leases t) k = map_of (as_leases s) k" if "k \<notin> descendants (map_of (as_leases s)) l" for k
    using that by (auto simp: look)
  ultimately show ?thesis by blast
qed

theorem pause_suspends_subtree_witness:
  "\<exists>r t. pause ''lease-u1'' 0 3 demo_state2 = (Inr r, t)
    \<and> (\<exists>e. validate_chain demo_platform t ''lease-u2'' (Some 0) demo_manifest 4 = Inl e)"
proof -
  obtain r t where p: "pause ''lease-u1'' 0 3 demo_state2 = (Inr r, t)"
    by (simp add: pause_def transition_def atomicS_def demo_leases2 require_generation_def Let_def)
  from pause_suspends_subtree [OF demo_reachable2 demo_cap_trans demo_json_total p] p demo_descendants2
  show ?thesis by blast
qed

text \<open>Whether a chain validates, at whatever generation of its leaf, depends on the certificates of its leases
  and on which of them are live.\<close>

lemma same_liveness_validate:
  assumes "kernel_inv P s" and "kernel_inv P t" and "json_total P"
    and desc: "\<And>a. descendants (map_of (as_leases t)) a = descendants (map_of (as_leases s)) a"
    and same: "\<And>a. rel_option (\<lambda>d d'. en_certificate d' = en_certificate d \<and> (\<forall>n. entry_live d' n = entry_live d n))
      (map_of (as_leases s) a) (map_of (as_leases t) a)"
  shows "(\<exists>v. validate_chain P t k None m time = Inr v) = (\<exists>v. validate_chain P s k None m time = Inr v)"
proof (cases "map_of (as_leases s) k")
  case None
  moreover have "map_of (as_leases t) k = None" using None same [of k] by simp
  ultimately show ?thesis using validated_is_leased by fastforce
next
  case (Some d)
  then obtain d' where d': "map_of (as_leases t) k = Some d'" "en_certificate d' = en_certificate d"
    using same [of k] by (auto simp: option_rel_Some1)
  have "(\<forall>a e. map_of (as_leases t) a = Some e \<longrightarrow> k \<in> descendants (map_of (as_leases s)) a \<longrightarrow> entry_live e time)
    \<longleftrightarrow> (\<forall>a e. map_of (as_leases s) a = Some e \<longrightarrow> k \<in> descendants (map_of (as_leases s)) a \<longrightarrow> entry_live e time)"
  proof (rule iff_allI)
    fix a
    from same [of a] show "(\<forall>e. map_of (as_leases t) a = Some e \<longrightarrow> k \<in> descendants (map_of (as_leases s)) a \<longrightarrow> entry_live e time)
      \<longleftrightarrow> (\<forall>e. map_of (as_leases s) a = Some e \<longrightarrow> k \<in> descendants (map_of (as_leases s)) a \<longrightarrow> entry_live e time)"
      by (cases rule: option.rel_cases) auto
  qed
  then show ?thesis
    unfolding validate_chain_exact [OF assms(1,3) Some] validate_chain_exact [OF assms(2,3) d'(1)] desc d'(2) by simp
qed

text \<open>C8: A lease that was paused can be resumed only with the generation the pause returned, and only
  before it expires: with every other generation the call is refused and changes nothing. After the
  resumption the generation is two above the first, every chain validates exactly when it did before
  the pause, apart from the generation a caller may expect of this lease, which must be the new one:
  a caller who still holds the generation of before the pause is refused.\<close>

theorem pause_resume_generations:
  assumes "reachable P s" and "cap_trans P" and "json_total P"
    and "pause l g now s = (Inr r, t)" and "map_of (as_leases s) l = Some e"
  shows "le_state r = Paused \<and> le_generation r = g + 1
    \<and> (\<forall>h time. (\<exists>r' u. resume l h time t = (Inr r', u)) \<longleftrightarrow> h = g + 1 \<and> time < lc_expires_at (en_certificate e))
    \<and> (\<forall>h time. h \<noteq> g + 1 \<longrightarrow>
         resume l h time t = (err LeaseGenerationMismatch ''lease generation does not match the expected value'', t))
    \<and> (\<forall>time r' u. resume l (g + 1) time t = (Inr r', u) \<longrightarrow> le_state r' = Active \<and> le_generation r' = g + 2
         \<and> (\<forall>k m later. (\<exists>v. validate_chain P u k None m later = Inr v) = (\<exists>v. validate_chain P s k None m later = Inr v))
         \<and> (\<forall>h m later v. validate_chain P u l (Some h) m later = Inr v \<longrightarrow> h = g + 2))"
proof -
  have inv: "kernel_inv P s" using assms(1,2) by (rule reachable_inv)
  from assms(4,5) have e: "le_generation (en_record e) = g" "le_state (en_record e) = Active"
    "r = (en_record e)\<lparr>le_state := Paused, le_generation := le_generation (en_record e) + 1\<rparr>"
    "t = push_event l None LeasePaused now (s\<lparr>as_leases := AList.update l (e\<lparr>en_record := r\<rparr>) (as_leases s)\<rparr>)"
    unfolding pause_def by (auto elim!: transition_effect)
  have look: "map_of (as_leases t) l = Some (e\<lparr>en_record := r\<rparr>)" using e(4) by (simp add: update_conv')
  have only: "(\<exists>r' u. resume l h time t = (Inr r', u)) \<longleftrightarrow> h = g + 1 \<and> time < lc_expires_at (en_certificate e)" for h time
    using e look by (auto simp: resume_def transition_def atomicS_def require_generation_def err_def Let_def)
  have refused: "resume l h time t = (err LeaseGenerationMismatch ''lease generation does not match the expected value'', t)"
    if "h \<noteq> g + 1" for h time
    using that e look by (simp add: resume_def transition_def atomicS_def require_generation_def err_def)
  have resumed: "le_state r' = Active \<and> le_generation r' = g + 2
      \<and> (\<forall>k m later. (\<exists>v. validate_chain P u k None m later = Inr v) = (\<exists>v. validate_chain P s k None m later = Inr v))
      \<and> (\<forall>h m later v. validate_chain P u l (Some h) m later = Inr v \<longrightarrow> h = g + 2)"
    if u: "resume l (g + 1) time t = (Inr r', u)" for time r' u
  proof -
    from u look e have r': "r' = (en_record e)\<lparr>le_state := Active, le_generation := g + 2\<rparr>"
      and lu: "\<And>k. map_of (as_leases u) k = (if k = l then Some (e\<lparr>en_record := r'\<rparr>) else map_of (as_leases s) k)"
      unfolding resume_def by (auto elim!: transition_effect simp: update_conv')
    have "kernel_run P s u"
      using run_step [OF run_step [OF run_refl, of s "OpPause l g now" P], of "OpResume l (g + 1) time"] assms(4) u by simp
    then have inv': "kernel_inv P u" using kernel_run_inv [OF _ inv assms(2)] by blast
    have "record_only s t" "record_only t u"
      using assms(4) u unfolding pause_def resume_def by (auto intro!: transition_record_only simp: live_state_def)
    then have same: "descendants (map_of (as_leases u)) k = descendants (map_of (as_leases s)) k" for k
      using record_only_descendants by metis
    have "rel_option (\<lambda>d d'. en_certificate d' = en_certificate d \<and> (\<forall>n. entry_live d' n = entry_live d n))
        (map_of (as_leases s) a) (map_of (as_leases u) a)" for a
      using assms(5) e(2) by (auto simp: lu r' entry_live_def option.rel_refl)
    note chains = same_liveness_validate [OF inv inv' assms(3) same this]
    have "h = g + 2" if "validate_chain P u l (Some h) m later = Inr v" for h m later v
      using validated_leaf_live(2) [OF that, of "e\<lparr>en_record := r'\<rparr>"] by (simp add: lu r')
    with chains r' show ?thesis by simp
  qed
  show ?thesis using e(1,3) only refused resumed by auto
qed

theorem pause_resume_generations_witness:
  "\<exists>r t r' u v. pause ''lease-u1'' 0 3 demo_state = (Inr r, t) \<and> resume ''lease-u1'' 1 4 t = (Inr r', u)
    \<and> le_generation r' = 2 \<and> validate_chain demo_platform u ''lease-u1'' None demo_manifest 4 = Inr v"
proof -
  obtain r t where p: "pause ''lease-u1'' 0 3 demo_state = (Inr r, t)"
    by (simp add: pause_def transition_def atomicS_def demo_leases require_generation_def Let_def)
  have e: "map_of (as_leases demo_state) ''lease-u1'' = Some demo_entry" by (simp add: demo_leases)
  note all = pause_resume_generations [OF demo_reachable demo_cap_trans demo_json_total p e]
  have "(4 :: int) < lc_expires_at (en_certificate demo_entry)" by simp
  with all obtain r' u where u: "resume ''lease-u1'' 1 4 t = (Inr r', u)" by fastforce
  moreover have "\<exists>v. validate_chain demo_platform demo_state ''lease-u1'' None demo_manifest 4 = Inr v"
    using validate_chain_exact [OF demo_inv demo_json_total e, of "Some 0" demo_manifest 4]
      validate_chain_exact [OF demo_inv demo_json_total e, of None demo_manifest 4] demo_validates [of 4] by auto
  ultimately show ?thesis using all p by fastforce
qed

section \<open>Expiry\<close>

text \<open>A lease is overdue at the instant it expires: an authority is good strictly before that time.\<close>

definition overdue :: "timestamp \<Rightarrow> 'cap lease_entry \<Rightarrow> bool" where
  "overdue now e \<longleftrightarrow> le_state (en_record e) \<in> {Active, Paused} \<and> lc_expires_at (en_certificate e) \<le> now"

lemma due_overdue:
  "hm_ok leases \<Longrightarrow> l \<in> set (due_leases leases now) \<longleftrightarrow> (\<exists>e. map_of leases l = Some e \<and> overdue now e)"
  by (auto simp: set_due_leases overdue_def live_state_def)

text \<open>C9: Refreshing expirations never fails. Afterwards no lease whose expiry has been reached is active
  or paused, at the very instant included, and nothing at or below one that was validates any more, at any
  time; what the call returns are leases that were overdue and are now marked expired, and leases that
  are neither overdue nor below an overdue one are untouched.\<close>

theorem refresh_leaves_nothing_due:
  assumes "kernel_inv P s"
  shows "\<exists>ex t. refresh_expirations now s = (Inr ex, t)
    \<and> (\<forall>l e. map_of (as_leases t) l = Some e \<longrightarrow> lc_expires_at (en_certificate e) \<le> now \<longrightarrow>
         le_state (en_record e) \<notin> {Active, Paused})
    \<and> (\<forall>l \<in> set ex. \<exists>d e. map_of (as_leases s) l = Some d \<and> overdue now d
         \<and> map_of (as_leases t) l = Some e \<and> le_state (en_record e) = Expired)
    \<and> (\<forall>l d k g m later v. map_of (as_leases s) l = Some d \<longrightarrow> overdue now d \<longrightarrow>
         k \<in> descendants (map_of (as_leases s)) l \<longrightarrow> validate_chain P t k g m later \<noteq> Inr v)
    \<and> (\<forall>k. (\<forall>l d. map_of (as_leases s) l = Some d \<longrightarrow> overdue now d \<longrightarrow> k \<notin> descendants (map_of (as_leases s)) l) \<longrightarrow>
         map_of (as_leases t) k = map_of (as_leases s) k)"
proof -
  note ok = kernel_inv_hm [OF assms]
  obtain ex t where r: "refresh_expirations now s = (Inr ex, t)" "record_only s t"
    and sub: "set ex \<subseteq> set (due_leases (as_leases s) now)"
    and dead: "\<And>l. l \<in> set (due_leases (as_leases s) now) \<Longrightarrow>
      \<exists>e. map_of (as_leases t) l = Some e \<and> \<not> live_state (le_state (en_record e))"
    and ex: "\<And>l. l \<in> set ex \<Longrightarrow> \<exists>e. map_of (as_leases t) l = Some e \<and> le_state (en_record e) = Expired"
    and rest: "\<And>k. k \<notin> (\<Union>l \<in> set (due_leases (as_leases s) now). descendants (map_of (as_leases s)) l) \<Longrightarrow>
      map_of (as_leases t) k = map_of (as_leases s) k"
    by (rule refresh_expirations_result [OF ok, of now]) blast
  have "le_state (en_record e) \<notin> {Active, Paused}"
    if e: "map_of (as_leases t) l = Some e" "lc_expires_at (en_certificate e) \<le> now" for l e
  proof
    assume live: "le_state (en_record e) \<in> {Active, Paused}"
    obtain d where d: "map_of (as_leases s) l = Some d" using record_only_known [OF r(2), of l] e(1) by auto
    have "lease_advances d e" using r(2) d e(1) by (metis option.rel_inject(2) record_only_def)
    with live e(2) d have "l \<in> set (due_leases (as_leases s) now)"
      by (auto simp: due_overdue [OF ok] overdue_def lease_advances_def live_state_def)
    with dead e live show False by (force simp: live_state_def)
  qed
  moreover have "validate_chain P t k g m later \<noteq> Inr v"
    if d: "map_of (as_leases s) l = Some d" "overdue now d" "k \<in> descendants (map_of (as_leases s)) l" for l d k g m later v
  proof -
    have "k \<in> descendants (map_of (as_leases t)) l" using d(3) record_only_descendants [OF r(2)] by simp
    moreover obtain e where "map_of (as_leases t) l = Some e" "\<not> live_state (le_state (en_record e))"
      using dead d(1,2) due_overdue [OF ok] by blast
    ultimately show ?thesis using dead_subtree_refused [of t l e t k] by simp
  qed
  moreover have "\<exists>d e. map_of (as_leases s) l = Some d \<and> overdue now d
      \<and> map_of (as_leases t) l = Some e \<and> le_state (en_record e) = Expired" if "l \<in> set ex" for l
    using sub ex that due_overdue [OF ok] by blast
  moreover have "map_of (as_leases t) k = map_of (as_leases s) k"
    if "\<forall>l d. map_of (as_leases s) l = Some d \<longrightarrow> overdue now d \<longrightarrow> k \<notin> descendants (map_of (as_leases s)) l" for k
    using rest that due_overdue [OF ok] by blast
  ultimately show ?thesis using r(1) by blast
qed

theorem refresh_leaves_nothing_due_witness:
  "\<exists>ex t. refresh_expirations 8 demo_state2 = (Inr ex, t)
    \<and> (\<forall>g m later v. validate_chain demo_platform t ''lease-u2'' g m later \<noteq> Inr v)"
proof -
  have "overdue 8 demo_entry" by (simp add: overdue_def)
  moreover have "map_of (as_leases demo_state2) ''lease-u1'' = Some demo_entry" by (simp add: demo_leases2)
  ultimately show ?thesis using refresh_leaves_nothing_due [OF demo_inv2, of 8] demo_descendants2 by metis
qed

section \<open>Issuing leases\<close>

text \<open>C10: What bootstrap returns is a working kernel: its root lease is active with generation zero
  and expires when the request says, after the time of the bootstrap. With the manifest of the request it
  validates at every time before it expires and never from then on, and only for generation zero.\<close>

theorem bootstrap_validates:
  assumes "bootstrap P req custody uuid now = Inr s" and "json_total P"
  shows "\<exists>e. map_of (as_leases s) (as_root_lease_id s) = Some e \<and> en_record e = active_lease_record (as_root_lease_id s)
    \<and> now < rr_expires_at req \<and> lc_expires_at (en_certificate e) = rr_expires_at req
    \<and> (\<forall>g time. (\<exists>v. validate_chain P s (as_root_lease_id s) (Some g) (rr_capability_manifest req) time = Inr v)
         \<longleftrightarrow> g = 0 \<and> time < rr_expires_at req)"
proof -
  have inv: "kernel_inv P s" using assms(1) by (rule bootstrap_inv)
  from assms(1) obtain ident d l md cert where req: "validate_root_request P req now = Inr ()"
    and "signed_identity P (rr_agent_id req) custody None custody now = Inr ident"
    and "identity_canonical_digest P ident = Inr d" and "new_lease_id uuid = Inr l"
    and md: "manifest_canonical_digest P (rr_capability_manifest req) = Inr md"
    and cert: "signed_lease P
        (root_draft req l d md now) d custody = Inr cert"
    and s: "s = push_event l None LeaseIssued now (push_event l None IdentityRegistered now
        \<lparr>as_mission = rr_mission req, as_root_lease_id = l,
         as_identities = [(rr_agent_id req, ident)], as_custodians = [(rr_agent_id req, custody)],
         as_leases = [(l, \<lparr>en_certificate = cert, en_record = active_lease_record l,
           en_manifest = rr_capability_manifest req\<rparr>)], as_events = []\<rparr>)"
    by (rule bootstrap_effect)
  let ?e = "\<lparr>en_certificate = cert, en_record = active_lease_record l, en_manifest = rr_capability_manifest req\<rparr>"
  note f = signed_lease_fields [OF cert, simplified]
  have root: "as_root_lease_id s = l" and only: "as_leases s = [(l, ?e)]" by (simp_all add: s)
  then have look: "map_of (as_leases s) l = Some ?e" by simp
  have "entry_live ?e time \<longleftrightarrow> time < rr_expires_at req" for time using f by (simp add: entry_live_def)
  then have "(\<exists>v. validate_chain P s l (Some g) (rr_capability_manifest req) time = Inr v)
      \<longleftrightarrow> g = 0 \<and> time < rr_expires_at req" for g time
    unfolding validate_chain_exact [OF inv assms(2) look] using f md descendants_self by (auto simp: only)
  then show ?thesis using look root f req by (intro exI [of _ ?e]) (simp add: validate_root_request_ok)
qed

theorem bootstrap_validates_witness:
  "(\<exists>v. validate_chain demo_platform demo_state (as_root_lease_id demo_state) (Some 0)
      (rr_capability_manifest demo_root_request) 7 = Inr v)
   \<and> (\<forall>v. validate_chain demo_platform demo_state (as_root_lease_id demo_state) (Some 0)
      (rr_capability_manifest demo_root_request) 8 \<noteq> Inr v)"
proof -
  have "rr_expires_at demo_root_request = 8" by (simp add: demo_root_request_def)
  with bootstrap_validates [OF demo_bootstrap demo_json_total] have "(\<exists>v. validate_chain demo_platform demo_state
      (as_root_lease_id demo_state) (Some 0) (rr_capability_manifest demo_root_request) time = Inr v) \<longleftrightarrow> time < 8" for time
    by auto
  from this [of 7] this [of 8] show ?thesis by simp
qed

text \<open>Above a fresh child of a validated lease everything is live when the child is.\<close>

lemma fresh_child_live:
  assumes ev: "evolves s t" and leases: "map_of (as_leases t) = (map_of (as_leases s))(l \<mapsto> e)"
    and v: "validate_chain P s p g m now = Inr v" and parent: "parent_id e = Some p" and e: "entry_live e now"
    and d: "map_of (as_leases t) k = Some d" and k: "l \<in> descendants (map_of (as_leases t)) k"
  shows "entry_live d now"
proof (cases "k = l")
  case False
  have look: "map_of (as_leases t) l = Some e" by (simp add: leases)
  obtain es where es: "lease_path (map_of (as_leases s)) p es"
    "\<forall>k d. map_of (as_leases s) k = Some d \<longrightarrow> p \<in> descendants (map_of (as_leases s)) k \<longrightarrow> entry_live d now"
    using validated_ancestors_live [OF v] by blast
  have "p \<in> descendants (map_of (as_leases t)) k"
    using False k child_ancestors [of "map_of (as_leases t)" l e p, OF look parent] by simp
  then have "p \<in> descendants (map_of (as_leases s)) k" using evolves_ancestors [OF es(1) ev] by simp
  with es(2) d leases False show ?thesis by simp
qed (use d e leases in simp)

text \<open>C11: Delegation issues a lease that works and is bounded by its parent: in a reachable state, with a
  lease id that is not in use, a successful delegation leaves every existing lease unchanged, adds an active child
  whose authority, lifetime and tools are within the parent's, and the child validates at once.\<close>

theorem delegate_validates:
  assumes "reachable P s" and "cap_trans P" and "json_total P"
    and "map_of (as_leases s) (''lease-'' @ uuid) = None"
    and "delegate P req custody uuid now s = (Inr l, t)"
  shows "\<exists>e p. map_of (as_leases t) = (map_of (as_leases s))(l \<mapsto> e)
    \<and> map_of (as_leases s) (dr_parent_lease_id req) = Some p \<and> attenuated_child P p e
    \<and> en_record e = active_lease_record l
    \<and> (\<exists>v. validate_chain P t l (Some 0) (dr_capability_manifest req) now = Inr v)"
proof -
  have inv: "kernel_inv P s" using assms(1,2) by (rule reachable_inv)
  from assms(5) obtain parent v pcustody ident d pref md pd cert
    where parent: "map_of (as_leases s) (dr_parent_lease_id req) = Some parent"
    and v: "validate_chain P s (dr_parent_lease_id req) (Some (dr_expected_parent_generation req))
           (en_manifest parent) now = Inr v"
    and req: "validate_delegation_request P s parent req now = Inr ()"
    and pref: "make_lease_ref P (en_certificate parent) = Inr pref" and l: "new_lease_id uuid = Inr l"
    and md: "manifest_canonical_digest P (dr_capability_manifest req) = Inr md"
    and cert: "signed_lease P
        (delegation_draft req (en_certificate parent) l d pref md now) pd pcustody = Inr cert"
    and t: "t = push_event l (Some (dr_parent_lease_id req)) LeaseDelegated now
          (push_event l (Some (dr_parent_lease_id req)) IdentityRegistered now
          (s\<lparr>as_identities := AList.update (dr_child_agent_id req) ident (as_identities s),
             as_custodians := AList.update (dr_child_agent_id req) custody (as_custodians s),
             as_leases := AList.update l \<lparr>en_certificate = cert, en_record = active_lease_record l,
               en_manifest = dr_capability_manifest req\<rparr> (as_leases s)\<rparr>))"
    by (rule delegate_effect)
  let ?e = "\<lparr>en_certificate = cert, en_record = active_lease_record l, en_manifest = dr_capability_manifest req\<rparr>"
  note f = signed_lease_fields [OF cert, simplified]
  have fresh: "map_of (as_leases s) l = None" using assms(4) new_lease_id_eq [OF l] by simp
  have tinv: "kernel_inv P t" and ev: "evolves s t" using delegate_inv [OF inv fresh assms(5)] by simp_all
  have leases: "map_of (as_leases t) = (map_of (as_leases s))(l \<mapsto> ?e)" by (simp add: t update_conv')
  then have look: "map_of (as_leases t) l = Some ?e" by simp
  have pid: "lr_lease_id pref = dr_parent_lease_id req"
    using make_lease_ref_id [OF pref] kernel_inv_entry [OF inv parent] by (simp add: entry_ok_def)
  have e: "entry_live ?e now" "parent_id ?e = Some (dr_parent_lease_id req)"
    using f pid req by (simp_all add: entry_live_def parent_id_def validate_delegation_request_ok)
  have "entry_live d now" if "map_of (as_leases t) k = Some d" "l \<in> descendants (map_of (as_leases t)) k" for k d
    using fresh_child_live [OF ev leases v e(2,1) that] .
  then have "\<exists>v. validate_chain P t l (Some 0) (dr_capability_manifest req) now = Inr v"
    unfolding validate_chain_exact [OF tinv assms(3) look] using f md by simp
  moreover have "attenuated_child P parent ?e"
    using f pref req by (simp add: attenuated_child_def validate_delegation_request_ok)
  ultimately show ?thesis using leases parent by (intro exI [of _ ?e] exI [of _ parent]) simp
qed

theorem delegate_validates_witness:
  "\<exists>v. validate_chain demo_platform demo_state2 ''lease-u2'' (Some 0)
     (dr_capability_manifest demo_delegation) 2 = Inr v"
  using delegate_validates [OF demo_reachable demo_cap_trans demo_json_total _ demo_delegate]
  by (auto simp: demo_leases)

section \<open>Renewal\<close>

text \<open>The leases above a renewed lease are not touched by the renewal.\<close>

lemma renew_ancestors_untouched:
  assumes inv: "kernel_inv P s" and c: "renewed_certificate P req uuid now s = Inr (old, l, cert)"
    and p: "parent_id old = Some p" and k: "p \<in> descendants (map_of (as_leases s)) k"
  shows "k \<noteq> nr_lease_id req \<and> k \<notin> descendants (map_of (as_leases s)) (nr_lease_id req)
    \<and> nr_lease_id req \<in> descendants (map_of (as_leases s)) k"
proof -
  let ?o = "nr_lease_id req" and ?D = "descendants (map_of (as_leases s))"
  have old: "map_of (as_leases s) ?o = Some old" using c by (rule renewed_certificate_effect)
  obtain es where es: "lease_path (map_of (as_leases s)) ?o es"
    using kernel_inv_entry [OF inv old] by (auto simp: entry_ok_def lineage_def)
  have below: "?o \<in> ?D p" by (rule descendants_child [of p _ p ?o old]) (use old p in simp_all)
  with k have ok: "?o \<in> ?D k" by (blast intro: descendants_trans)
  from es have "k \<noteq> ?o"
  proof (cases rule: lease_path.cases)
    case (lease_root e)
    with old p show ?thesis by (auto simp: parent_id_def)
  next
    case (lease_child e r gs)
    then have "p = lr_lease_id r" using old p by (auto simp: parent_id_def)
    then have "k \<in> fst ` set gs" using lease_path_ancestors [OF lease_child(4)] k by simp
    with lease_path_distinct [OF es] lease_child(1) show ?thesis by force
  qed
  moreover have "k \<notin> ?D ?o" using descendants_antisym [OF es ok] \<open>k \<noteq> ?o\<close> by auto
  ultimately show ?thesis using ok by simp
qed

lemma renewed_lease_live:
  assumes inv: "kernel_inv P s" and c: "renewed_certificate P req uuid now s = Inr (old, l, cert)"
    and fresh: "map_of (as_leases s) l = None" and ev: "evolves s t"
    and e: "map_of (as_leases t) l = Some e" "entry_live e now" "parent_id e = parent_id old"
    and same: "\<And>k. k \<noteq> l \<Longrightarrow> k \<noteq> nr_lease_id req \<Longrightarrow>
      k \<notin> descendants (map_of (as_leases s)) (nr_lease_id req) \<Longrightarrow>
      map_of (as_leases t) k = map_of (as_leases s) k"
    and d: "map_of (as_leases t) k = Some d" and k: "l \<in> descendants (map_of (as_leases t)) k"
  shows "entry_live d now"
proof (cases "k = l")
  case True
  with d e show ?thesis by simp
next
  case False
  let ?o = "nr_lease_id req"
  from c obtain v where old: "map_of (as_leases s) ?o = Some old"
    and v: "validate_chain P s ?o (Some (nr_expected_generation req)) (en_manifest old) now = Inr v"
    by (rule renewed_certificate_effect)
  obtain p where p: "parent_id old = Some p" and pk: "p \<in> descendants (map_of (as_leases t)) k"
    using False k e(1,3) child_ancestors [of "map_of (as_leases t)" l e] root_ancestors [of "map_of (as_leases t)" l e]
    by (cases "parent_id old") auto
  obtain pe where "map_of (as_leases s) p = Some pe"
    using kernel_inv_entry [OF inv old] p by (auto simp: entry_ok_def parent_ok_def parent_id_def)
  then obtain es where "lease_path (map_of (as_leases s)) p es"
    using kernel_inv_entry [OF inv] by (fastforce simp: entry_ok_def lineage_def)
  then have ps: "p \<in> descendants (map_of (as_leases s)) k" using evolves_ancestors ev pk by blast
  note above = renew_ancestors_untouched [OF inv c p ps]
  then have "map_of (as_leases s) k = Some d" using same [of k] d False by simp
  with above validated_ancestors_live [OF v] show ?thesis by blast
qed

text \<open>C12: Renewal replaces a lease without widening it. In a reachable state, with a lease id that is
  not in use, a successful renewal retires the old lease in favour of the new one, ends every lease below
  the old one, and the new lease is for the same agent, parent and semantic context, grants and
  delegates no more than the old one, and validates at once.\<close>

theorem renew_replaces:
  assumes "reachable P s" and "cap_trans P" and "json_total P"
    and "map_of (as_leases s) (''lease-'' @ uuid) = None"
    and "renew P req uuid now s = (Inr l, t)"
  shows "\<exists>old e. map_of (as_leases s) (nr_lease_id req) = Some old
    \<and> map_of (as_leases t) (nr_lease_id req) = Some (retired_entry l old) \<and> map_of (as_leases t) l = Some e
    \<and> (\<forall>k \<in> descendants (map_of (as_leases s)) (nr_lease_id req).
         \<exists>d. map_of (as_leases t) k = Some d \<and> \<not> live_state (le_state (en_record d)))
    \<and> lc_agent_id (en_certificate e) = lc_agent_id (en_certificate old)
    \<and> lc_parent_lease (en_certificate e) = lc_parent_lease (en_certificate old)
    \<and> lc_semantic_context_digest (en_certificate e) = lc_semantic_context_digest (en_certificate old)
    \<and> authority_is_subset_of P (lc_granted_authority (en_certificate e)) (lc_granted_authority (en_certificate old))
    \<and> authority_is_subset_of P (lc_delegable_authority (en_certificate e)) (lc_delegable_authority (en_certificate old))
    \<and> (\<exists>v. validate_chain P t l (Some 0) (nr_capability_manifest req) now = Inr v)"
proof -
  let ?o = "nr_lease_id req"
  have inv: "kernel_inv P s" using assms(1,2) by (rule reachable_inv)
  note ok = kernel_inv_hm [OF inv]
  obtain old cert where c: "renewed_certificate P req uuid now s = Inr (old, l, cert)"
    using renew_certificate [OF assms(5) ok] by blast
  let ?e = "\<lparr>en_certificate = cert, en_record = active_lease_record l, en_manifest = nr_capability_manifest req\<rparr>"
  from c obtain iident icustody oref md d where old: "map_of (as_leases s) ?o = Some old"
    and req: "validate_renewal_request P s old req now = Inr ()" and l: "new_lease_id uuid = Inr l"
    and md: "manifest_canonical_digest P (nr_capability_manifest req) = Inr md"
    and sl: "signed_lease P (renewal_draft req (en_certificate old) l oref md now) d icustody = Inr cert"
    by (rule renewed_certificate_effect)
  note f = signed_lease_fields [OF sl, simplified]
  have fresh: "map_of (as_leases s) l = None" using assms(4) new_lease_id_eq [OF l] by simp
  have tinv: "kernel_inv P t" and ev: "evolves s t" using renew_inv [OF inv assms(2) fresh assms(5)] by simp_all
  note tab = renew_leases [OF ok c assms(5)]
  have neq: "?o \<noteq> l" using old fresh by auto
  have look: "map_of (as_leases t) l = Some ?e" using tab by simp
  have live: "entry_live ?e now" using req f by (simp add: entry_live_def validate_renewal_request_ok)
  have "\<forall>k d. map_of (as_leases t) k = Some d \<longrightarrow> l \<in> descendants (map_of (as_leases t)) k \<longrightarrow> entry_live d now"
    using renewed_lease_live [OF inv c fresh ev look live] tab f by (auto simp: parent_id_def)
  then have "\<exists>v. validate_chain P t l (Some 0) (nr_capability_manifest req) now = Inr v"
    unfolding validate_chain_exact [OF tinv assms(3) look] using f md by simp
  moreover have "\<exists>d. map_of (as_leases t) k = Some d \<and> \<not> live_state (le_state (en_record d))"
    if k: "k \<in> descendants (map_of (as_leases s)) ?o" for k
  proof -
    have known: "map_of (as_leases s) k \<noteq> None"
      using descendants_known [of "map_of (as_leases s)" ?o k] old k by simp
    then have "k \<noteq> l" using fresh by auto
    with tab [of k] k known show ?thesis by auto
  qed
  ultimately show ?thesis
    using old tab look neq f req by (intro exI [of _ old] exI [of _ ?e]) (simp add: validate_renewal_request_ok)
qed

definition demo_renewal :: "string renewal_request" where
  "demo_renewal = \<lparr>nr_lease_id = ''lease-u1'', nr_expected_generation = 0,
     nr_granted_authority = AuthoritySet [''fs''], nr_delegable_authority = AuthoritySet [''fs''],
     nr_capability_manifest = demo_manifest, nr_semantic_context_digest = demo_digest, nr_expires_at = 9\<rparr>"

lemma demo_renewed: "\<exists>t. renew demo_platform demo_renewal ''u3'' 2 demo_state = (Inr ''lease-u3'', t)"
proof -
  obtain v where v: "validate_chain demo_platform demo_state ''lease-u1'' (Some 0) demo_manifest 2 = Inr v"
    using demo_validates [of 2] by auto
  have act: "validate_active_record demo_entry (Some 0) 2 = Inr ()"
    by (simp add: validate_active_record_ok entry_live_def)
  have req: "validate_renewal_request demo_platform demo_state demo_entry demo_renewal 2 = Inr ()"
    by (simp add: validate_renewal_request_ok demo_renewal_def demo_frame)
  have "\<exists>cert. renewed_certificate demo_platform demo_renewal ''u3'' 2 demo_state = Inr (demo_entry, ''lease-u3'', cert)"
    unfolding renewed_certificate_def using v act req
    by (simp add: demo_renewal_def demo_leases demo_frame)
  then show ?thesis using renew_result [OF kernel_inv_hm [OF demo_inv]] by metis
qed

theorem renew_replaces_witness:
  "\<exists>t v. renew demo_platform demo_renewal ''u3'' 2 demo_state = (Inr ''lease-u3'', t)
    \<and> validate_chain demo_platform t ''lease-u3'' (Some 0) demo_manifest 2 = Inr v"
proof -
  obtain t where t: "renew demo_platform demo_renewal ''u3'' 2 demo_state = (Inr ''lease-u3'', t)"
    using demo_renewed by blast
  have "nr_capability_manifest demo_renewal = demo_manifest" by (simp add: demo_renewal_def)
  with renew_replaces [OF demo_reachable demo_cap_trans demo_json_total _ t] t show ?thesis
    by (auto simp: demo_leases)
qed

section \<open>The log and the search\<close>

text \<open>C14: The authority events are an append-only log: their sequence numbers are one, two, three and so
  on in every reachable state, and whatever runs later only adds events at the end.\<close>

theorem authority_log_contiguous:
  assumes "reachable P s" and "kernel_run P s t"
  shows "(\<forall>i < length (as_events t). ae_sequence (as_events t ! i) = of_nat i + 1)
    \<and> prefix (as_events s) (as_events t)"
proof -
  obtain req custody uuid now b where b: "bootstrap P req custody uuid now = Inr b" "kernel_run P b s"
    using assms(1) by (auto simp: reachable_def)
  have "numbered ae_sequence (as_events s)"
    using bootstrap_numbered [OF b(1)] kernel_run_extends [OF b(2)] by (simp add: log_extends_def)
  with kernel_run_extends [OF assms(2)] show ?thesis by (simp add: log_extends_def numbered_nth)
qed

theorem authority_log_contiguous_witness:
  "prefix (as_events demo_state) (as_events demo_state2)"
  using authority_log_contiguous [OF demo_reachable demo_run] by blast

text \<open>C16: The search for descendants terminates with a result for every known lease: the lease first,
  then each lease below it exactly once, and the order in which the hash map lists its entries does
  not change it.\<close>

theorem descendants_search_exact:
  assumes "hm_ok leases" and "map_of leases root \<noteq> None" and "mset leases' = mset leases"
  shows "\<exists>rest. descendants_including leases root = Inr (root # rest) \<and> distinct (root # rest)
    \<and> set (root # rest) = descendants (map_of leases) root
    \<and> descendants_including leases' root = descendants_including leases root"
proof -
  obtain ds where ds: "descendants_including leases root = Inr ds"
    using descendants_including_total assms(2) by blast
  note spec = descendants_including_spec [OF assms(1) ds]
  then obtain rest where "ds = root # rest" by blast
  with spec ds descendants_including_perm [OF assms(1), of leases' root] assms(3) show ?thesis by auto
qed

theorem descendants_search_exact_witness:
  "\<exists>rest. descendants_including (rev (as_leases demo_state2)) ''lease-u1'' = Inr (''lease-u1'' # rest)"
  using descendants_search_exact [OF demo_root2(1), of "''lease-u1''" "rev (as_leases demo_state2)"]
  by (auto simp: demo_root2(2))

end
