(* ===== verification/AgentModel.thy ===== *)
theory AgentModel
  imports AuthorityModel
begin

text \<open>
  Agents (\<open>agent.rs\<close>): the declarative texts and the untrusted specification with its
  validation, the trusted semantic context with the digest of its material part, the check that a
  context continues an authorized one, and the runtime records.
\<close>

section \<open>Declarative texts\<close>

definition MAX_DECLARATIVE_TEXT_BYTES :: nat where
  "MAX_DECLARATIVE_TEXT_BYTES = 4096"

definition MAX_REQUESTED_TOOLS :: nat where
  "MAX_REQUESTED_TOOLS = 64"

definition MAX_REQUESTED_CAPABILITIES :: nat where
  "MAX_REQUESTED_CAPABILITIES = 64"

definition MAX_AGENT_STEPS :: u64 where
  "MAX_AGENT_STEPS = 256"

definition validate_declarative_text :: "string \<Rightarrow> string \<Rightarrow> unit result" where
  "validate_declarative_text kind value =
     (if trim_is_empty value \<or> length value > MAX_DECLARATIVE_TEXT_BYTES
      then err InvalidInput (kind @ '' must contain 1 to 4096 bytes'')
      else if list_ex is_control (chars value)
      then err InvalidInput (kind @ '' must not contain control characters'')
      else Inr ())"

text \<open>\<open>Role::new\<close>, \<open>Objective::new\<close> and \<open>Contract::new\<close>.\<close>

definition new_text :: "string \<Rightarrow> string \<Rightarrow> string result" where
  "new_text kind value = bindE (validate_declarative_text kind value) (\<lambda>_. Inr value)"

section \<open>The specification of an agent\<close>

record resource_request =
  rb_max_steps :: u64

record semantic_requirements =
  sq_requested_memory :: "memory_ref option"
  sq_requested_retrieval_index :: "retrieval_index_ref option"
  sq_requested_instruction_profile :: "instruction_profile_ref option"

record 'cap agent_spec =
  sp_role :: string
  sp_objective :: string
  sp_requested_model :: model_ref
  sp_requested_tools :: "tool_id list"
  sp_requested_authority :: "'cap authority_request"
  sp_output_contract :: string
  sp_resource_budget :: resource_request
  sp_semantic_requirements :: semantic_requirements

definition validate_spec :: "'cap platform \<Rightarrow> 'cap agent_spec \<Rightarrow> unit result" where
  "validate_spec P spec =
     (if length (sp_requested_tools spec) > MAX_REQUESTED_TOOLS
      then err InvalidInput ''requested tools must not exceed 64''
      else case first_repeat [] (sp_requested_tools spec) of
        Some tool_id \<Rightarrow> err DuplicateTool (''requested tool appears more than once: '' @ tool_id)
      | None \<Rightarrow>
          if length (ar_capabilities (sp_requested_authority spec)) > MAX_REQUESTED_CAPABILITIES
          then err InvalidInput ''requested capabilities must not exceed 64''
          else if list_ex (\<lambda>c. c = cap_all P) (ar_capabilities (sp_requested_authority spec))
          then err CapabilityAllForbidden ''Capability::All is forbidden for synthesized agents''
          else if first_repeat [] (ar_capabilities (sp_requested_authority spec)) \<noteq> None
          then err InvalidInput ''requested capabilities must not contain exact duplicates''
          else if \<not> (1 \<le> rb_max_steps (sp_resource_budget spec)
                   \<and> rb_max_steps (sp_resource_budget spec) \<le> MAX_AGENT_STEPS)
          then err BudgetExhausted ''agent max steps must contain 1 to 256''
          else Inr ())"

text \<open>A specification read from the wire is validated before anything else sees it.\<close>

definition spec_from_wire :: "'cap platform \<Rightarrow> 'cap agent_spec \<Rightarrow> 'cap agent_spec result" where
  "spec_from_wire P wire = bindE (validate_spec P wire) (\<lambda>_. Inr wire)"

section \<open>The semantic context\<close>

record semantic_context =
  sc_context_version :: u64
  sc_model_manifest_digest :: digest
  sc_resolved_system_instruction_digest :: digest
  sc_tool_registry_root_digest :: digest
  sc_bound_tool_digests :: "digest list"
  sc_protocol_schema_digest :: digest
  sc_policy_epoch :: u64
  sc_memory_generation :: "digest option"
  sc_retrieval_index_generation :: "digest option"

definition context_identity :: "semantic_context \<Rightarrow> (string \<times> json) list" where
  "context_identity c =
     [(''model_manifest_digest'', digest_value (sc_model_manifest_digest c)),
      (''resolved_system_instruction_digest'', digest_value (sc_resolved_system_instruction_digest c)),
      (''tool_registry_root_digest'', digest_value (sc_tool_registry_root_digest c)),
      (''bound_tool_digests'', JArray (map digest_value (sort_dedup (sc_bound_tool_digests c)))),
      (''protocol_schema_digest'', digest_value (sc_protocol_schema_digest c)),
      (''policy_epoch'', json_u64 (sc_policy_epoch c)),
      (''memory_generation'', json_option digest_value (sc_memory_generation c)),
      (''retrieval_index_generation'', json_option digest_value (sc_retrieval_index_generation c))]"

definition context_canonical_digest :: "'cap platform \<Rightarrow> semantic_context \<Rightarrow> digest result" where
  "context_canonical_digest P c =
     canonical_digest P ''aeon-semantic-context-v1'' (Inr (json_struct (context_identity c)))"

datatype context_transition = Exact

definition validate_context_continuation ::
  "'cap platform \<Rightarrow> digest \<Rightarrow> semantic_context \<Rightarrow> context_transition result" where
  "validate_context_continuation P original_digest current =
     bindE (context_canonical_digest P current) (\<lambda>d.
     if original_digest = d then Inr Exact
     else err SemanticContextChanged ''material semantic context differs from the authorized context'')"

section \<open>Runtime records\<close>

datatype agent_lifecycle =
    Proposed
  | Authorized
  | AgentActive
  | AgentPaused
  | AgentRevoked
  | Terminated
  | Compromised

record agent_identity =
  ai_agent_id :: agent_id
  ai_identity_digest :: digest

record agent_runtime_record =
  ag_spec_digest :: digest
  ag_identity :: agent_identity
  ag_lease_id :: lease_id
  ag_lifecycle :: agent_lifecycle
  ag_current_step :: u64
  ag_semantic_context :: semantic_context

datatype security_level = PublicLevel | InternalLevel | Confidential | Restricted

datatype memory_trust = Untrusted | Advisory | SourceVerified | SystemAttested

record memory_entry =
  my_content :: "byte list"
  my_checksum :: digest
  my_confidentiality :: security_level
  my_integrity :: security_level
  my_source_agent :: agent_id
  my_source_identity_digest :: digest
  my_created_at :: timestamp
  my_trust_class :: memory_trust
  my_ttl_seconds :: u32
  my_expires_at :: timestamp
  my_semantic_context_digest :: digest

section \<open>What the checks establish\<close>

lemma new_text_ok [result_simps]:
  "new_text kind v = Inr w \<longleftrightarrow> w = v \<and> \<not> trim_is_empty v \<and> length v \<le> MAX_DECLARATIVE_TEXT_BYTES
     \<and> (\<forall>c \<in> set (chars v). \<not> is_control c)"
  by (auto simp: new_text_def validate_declarative_text_def bindE_eq_Inr list_ex_iff)

lemma validate_spec_ok [result_simps]:
  "validate_spec P spec = Inr u \<longleftrightarrow>
     length (sp_requested_tools spec) \<le> MAX_REQUESTED_TOOLS \<and> distinct (sp_requested_tools spec)
     \<and> length (ar_capabilities (sp_requested_authority spec)) \<le> MAX_REQUESTED_CAPABILITIES
     \<and> distinct (ar_capabilities (sp_requested_authority spec))
     \<and> cap_all P \<notin> set (ar_capabilities (sp_requested_authority spec))
     \<and> 1 \<le> rb_max_steps (sp_resource_budget spec) \<and> rb_max_steps (sp_resource_budget spec) \<le> MAX_AGENT_STEPS"
proof (cases "first_repeat [] (sp_requested_tools spec)")
  case None
  then have "distinct (sp_requested_tools spec)" by simp
  then show ?thesis unfolding validate_spec_def None by (auto simp: list_ex_iff)
next
  case (Some t)
  then have "\<not> distinct (sp_requested_tools spec)" by (metis first_repeat_distinct option.distinct(1))
  then show ?thesis unfolding validate_spec_def Some by auto
qed

text \<open>The part of a context that determines behaviour: everything but the version.\<close>

definition same_material :: "semantic_context \<Rightarrow> semantic_context \<Rightarrow> bool" where
  "same_material a b \<longleftrightarrow> sc_model_manifest_digest a = sc_model_manifest_digest b
     \<and> sc_resolved_system_instruction_digest a = sc_resolved_system_instruction_digest b
     \<and> sc_tool_registry_root_digest a = sc_tool_registry_root_digest b
     \<and> set (sc_bound_tool_digests a) = set (sc_bound_tool_digests b)
     \<and> sc_protocol_schema_digest a = sc_protocol_schema_digest b
     \<and> sc_policy_epoch a = sc_policy_epoch b
     \<and> sc_memory_generation a = sc_memory_generation b
     \<and> sc_retrieval_index_generation a = sc_retrieval_index_generation b"

lemma context_identity_same: "same_material a b \<Longrightarrow> context_identity a = context_identity b"
  using sort_dedup_canonical [of "sc_bound_tool_digests a" "sc_bound_tool_digests b"]
  by (simp add: same_material_def context_identity_def)

lemma map_digest_value_inj: "map digest_value xs = map digest_value ys \<longleftrightarrow> xs = ys"
proof -
  have "inj digest_value" by (rule injI) simp
  then show ?thesis by simp
qed

lemma json_option_digest_inj [simp]: "json_option digest_value a = json_option digest_value b \<longleftrightarrow> a = b"
  by (rule json_option_inj) simp_all

lemma context_identity_binds:
  assumes eq: "\<forall>k. map_option canonicalize_json (map_of (context_identity a) k)
    = map_option canonicalize_json (map_of (context_identity b) k)"
  shows "same_material a b"
proof -
  have "sort_dedup (sc_bound_tool_digests a) = sort_dedup (sc_bound_tool_digests b)"
    using eq [rule_format, of "''bound_tool_digests''"]
    by (simp add: context_identity_def comp_def map_digest_value_inj)
  then have "set (sc_bound_tool_digests a) = set (sc_bound_tool_digests b)" by (simp add: sort_dedup_canonical)
  with eq [rule_format, of "''model_manifest_digest''"]
    eq [rule_format, of "''resolved_system_instruction_digest''"]
    eq [rule_format, of "''tool_registry_root_digest''"] eq [rule_format, of "''protocol_schema_digest''"]
    eq [rule_format, of "''policy_epoch''"] eq [rule_format, of "''memory_generation''"]
    eq [rule_format, of "''retrieval_index_generation''"]
  show ?thesis by (simp add: same_material_def context_identity_def)
qed

lemma context_digest_binds:
  assumes inj: "json_injective P"
    and a: "context_canonical_digest P a = Inr d" and b: "context_canonical_digest P b = Inr d"
  shows "same_material a b \<or> digest_collision P ''aeon-semantic-context-v1''
    (Inr (json_struct (context_identity a))) (Inr (json_struct (context_identity b)))"
proof -
  have "distinct (map fst (context_identity c))" for c by (simp add: context_identity_def)
  from struct_digest_binds [OF inj this this a [unfolded context_canonical_digest_def]
      b [unfolded context_canonical_digest_def]]
  show ?thesis using context_identity_binds by blast
qed

lemma validate_context_continuation_ok [result_simps]:
  "validate_context_continuation P d c = Inr r \<longleftrightarrow> context_canonical_digest P c = Inr d"
  by (cases r) (auto simp: validate_context_continuation_def bindE_eq_Inr)

end
