(* ===== verification/ActionModel.thy ===== *)
theory ActionModel
  imports AgentIdentityModel
begin

text \<open>
  Actions (\<open>action.rs\<close>): the target of an action, the canonical action and the reference that
  identifies it, authorization records and budgets, and the signed action certificate, the third
  signed document of the runtime.
\<close>

section \<open>Targets and canonical actions\<close>

definition MAX_ACTION_TARGET_BYTES :: nat where
  "MAX_ACTION_TARGET_BYTES = 128"

definition new_action_target :: "string \<Rightarrow> string result" where
  "new_action_target value =
     (if trim_is_empty value \<or> length value > MAX_ACTION_TARGET_BYTES
      then err InvalidInput ''action target must contain 1 to 128 bytes''
      else if list_ex is_control (chars value)
      then err InvalidInput ''action target must not contain control characters''
      else Inr value)"

datatype effect_class = ReadOnly | Idempotent | NonIdempotent

datatype semantic_scope = MissionScope | AgentScope | GlobalScope

fun effect_class_value :: "effect_class \<Rightarrow> json" where
  "effect_class_value ReadOnly = JString ''read_only''"
| "effect_class_value Idempotent = JString ''idempotent''"
| "effect_class_value NonIdempotent = JString ''non_idempotent''"

fun semantic_scope_value :: "semantic_scope \<Rightarrow> json" where
  "semantic_scope_value MissionScope = JString ''mission''"
| "semantic_scope_value AgentScope = JString ''agent''"
| "semantic_scope_value GlobalScope = JString ''global''"

text \<open>\<open>CanonicalJson\<close> canonicalizes on construction, so a value of it is a canonical value.\<close>

definition new_canonical_json :: "json \<Rightarrow> json" where
  "new_canonical_json v = canonicalize_json v"

record canonical_action =
  ca_mission_id :: mission_id
  ca_effect_kind :: effect_class
  ca_target :: string
  ca_normalized_parameters :: json
  ca_semantic_scope :: semantic_scope

definition action_fields :: "canonical_action \<Rightarrow> (string \<times> json) list" where
  "action_fields a =
     [(''mission_id'', JString (ca_mission_id a)),
      (''effect_kind'', effect_class_value (ca_effect_kind a)),
      (''target'', JString (ca_target a)),
      (''normalized_parameters'', ca_normalized_parameters a),
      (''semantic_scope'', semantic_scope_value (ca_semantic_scope a))]"

datatype action_ref = ActionRef (ref_digest: digest)

definition action_ref_of :: "'cap platform \<Rightarrow> canonical_action \<Rightarrow> action_ref result" where
  "action_ref_of P a =
     bindE (canonical_digest P ''aeon-canonical-action-v1'' (Inr (json_struct (action_fields a))))
       (\<lambda>d. Inr (ActionRef d))"

record execution_binding =
  eb_action_ref :: action_ref
  eb_agent_id :: agent_id
  eb_tool_id :: tool_id
  eb_tool_manifest_digest :: digest
  eb_organization_version :: u64
  eb_policy_epoch :: u64
  eb_semantic_context_digest :: digest
  eb_concrete_input_digest :: digest

section \<open>Authorizations\<close>

datatype authorization_state =
    Issued
  | Prepared
  | Consumed
  | AuthAborted
  | AuthRevoked
  | AuthExpired

datatype effect_state =
    NoEffect
  | Staged
  | CommitDecided
  | Released
  | Confirmed
  | UnknownOutcome
  | EffectAborted
  | Compensated

record budget =
  bu_actions :: u64

record authorization_record =
  az_record_id :: authorization_id
  az_action_ref :: action_ref
  az_authority_chain :: "lease_ref list"
  az_total_budget :: budget
  az_remaining_budget :: budget
  az_state :: authorization_state
  az_stable_idempotency_key :: string
  az_effect_class :: effect_class
  az_generation :: u64

record effect_record =
  er_action_ref :: action_ref
  er_authorization_id :: authorization_id
  er_state :: effect_state
  er_reconciliation_required :: bool
  er_escalation_target :: "string option"

section \<open>Action certificates\<close>

record action_certificate =
  ac_certificate_id :: certificate_id
  ac_mission_id :: mission_id
  ac_agent_identity_digest :: digest
  ac_authority_lease_id :: lease_id
  ac_organization_version :: u64
  ac_policy_epoch :: u64
  ac_semantic_context_digest :: digest
  ac_action_ref :: action_ref
  ac_tool_id :: tool_id
  ac_tool_manifest_digest :: digest
  ac_concrete_input_digest :: digest
  ac_authorization_record_id :: authorization_id
  ac_granted_uses :: u32
  ac_authorization_generation :: u64
  ac_issued_at :: timestamp
  ac_expires_at :: timestamp
  ac_signature :: signature_bytes

definition action_payload_fields :: "'cap platform \<Rightarrow> action_certificate \<Rightarrow> (string \<times> json) list" where
  "action_payload_fields P c =
     [(''certificate_id'', JString (ac_certificate_id c)),
      (''mission_id'', JString (ac_mission_id c)),
      (''agent_identity_digest'', digest_value (ac_agent_identity_digest c)),
      (''authority_lease_id'', JString (ac_authority_lease_id c)),
      (''organization_version'', json_u64 (ac_organization_version c)),
      (''policy_epoch'', json_u64 (ac_policy_epoch c)),
      (''semantic_context_digest'', digest_value (ac_semantic_context_digest c)),
      (''action_ref'', digest_value (ref_digest (ac_action_ref c))),
      (''tool_id'', JString (ac_tool_id c)),
      (''tool_manifest_digest'', digest_value (ac_tool_manifest_digest c)),
      (''concrete_input_digest'', digest_value (ac_concrete_input_digest c)),
      (''authorization_record_id'', JString (ac_authorization_record_id c)),
      (''granted_uses'', JNumber (PosInt (ucast (ac_granted_uses c)))),
      (''authorization_generation'', json_u64 (ac_authorization_generation c)),
      (''issued_at'', JString (rfc3339 P (ac_issued_at c))),
      (''expires_at'', JString (rfc3339 P (ac_expires_at c)))]"

definition action_signing_payload :: "'cap platform \<Rightarrow> action_certificate \<Rightarrow> byte list result" where
  "action_signing_payload P c =
     canonical_bytes P ''aeon-action-certificate-v1'' (Inr (json_struct (action_payload_fields P c)))"

section \<open>What an action reference binds\<close>

lemma effect_class_value_inj [simp]: "effect_class_value a = effect_class_value b \<longleftrightarrow> a = b"
  by (cases a; cases b) simp_all

lemma semantic_scope_value_inj [simp]: "semantic_scope_value a = semantic_scope_value b \<longleftrightarrow> a = b"
  by (cases a; cases b) simp_all

lemma canonicalize_enum [simp]:
  "canonicalize_json (effect_class_value e) = effect_class_value e"
  "canonicalize_json (semantic_scope_value s) = semantic_scope_value s"
  by (cases e; simp) (cases s; simp)

lemma action_ref_binds:
  assumes inj: "json_injective P"
    and a: "action_ref_of P a = Inr r" and b: "action_ref_of P b = Inr r"
  shows "(ca_mission_id a = ca_mission_id b \<and> ca_effect_kind a = ca_effect_kind b \<and> ca_target a = ca_target b
      \<and> canonicalize_json (ca_normalized_parameters a) = canonicalize_json (ca_normalized_parameters b)
      \<and> ca_semantic_scope a = ca_semantic_scope b)
    \<or> digest_collision P ''aeon-canonical-action-v1''
        (Inr (json_struct (action_fields a))) (Inr (json_struct (action_fields b)))"
proof -
  have dist: "distinct (map fst (action_fields c))" for c by (simp add: action_fields_def)
  obtain d where "canonical_digest P ''aeon-canonical-action-v1'' (Inr (json_struct (action_fields a))) = Inr d"
    "canonical_digest P ''aeon-canonical-action-v1'' (Inr (json_struct (action_fields b))) = Inr d"
    using a b unfolding action_ref_of_def bindE_eq_Inr by auto
  from struct_digest_binds [OF inj dist dist this] show ?thesis
  proof
    assume eq: "\<forall>k. map_option canonicalize_json (map_of (action_fields a) k)
      = map_option canonicalize_json (map_of (action_fields b) k)"
    from eq [rule_format, of "''mission_id''"] eq [rule_format, of "''effect_kind''"]
      eq [rule_format, of "''target''"] eq [rule_format, of "''normalized_parameters''"]
      eq [rule_format, of "''semantic_scope''"]
    show ?thesis by (simp add: action_fields_def)
  qed simp
qed

end
