(* ===== verification/MissionStore.thy ===== *)
theory MissionStore
  imports AgentModel ActionModel EventLog
begin

text \<open>
  The in-memory mission store (\<open>store.rs\<close>): the mission events with their attempts, the
  single-use authorization records, and the check that the recorded history is complete. Every
  field behind its own mutex is a value with a poisoning flag.
\<close>

section \<open>State\<close>

datatype mission_event_kind =
    MissionCreated
  | ContextResolved
  | MissionLeaseIssued
  | AgentActivated
  | is_EvModelFailed: EvModelFailed error_code
  | ProtocolAccepted
  | is_ProtocolRejected: ProtocolRejected error_code
  | PlanAccepted
  | ActionAuthorized
  | is_ActionRejected: ActionRejected error_code
  | AuthorizationIssued
  | AuthorizationConsumed
  | ExecutionStarted
  | is_ExecutionRejectedBeforeNexus: ExecutionRejectedBeforeNexus error_code
  | is_EvExecutionFailed: EvExecutionFailed error_code
  | ExecutionCompleted
  | FinalProduced
  | is_FinalRejected: FinalRejected error_code

record mission_event =
  ev_sequence :: u64
  ev_mission_id :: mission_id
  ev_attempt_id :: "u64 option"
  ev_kind :: mission_event_kind
  ev_occurred_at :: timestamp

record 'a mutex =
  mx_value :: 'a
  mx_poisoned :: bool

definition new_mutex :: "'a \<Rightarrow> 'a mutex" where
  "new_mutex v = \<lparr>mx_value = v, mx_poisoned = False\<rparr>"

definition lock :: "string \<Rightarrow> 'a mutex \<Rightarrow> 'a result" where
  "lock text m = (if mx_poisoned m then err Internal text else Inr (mx_value m))"

record 'cap mission_store =
  ms_mission :: "'cap mission_envelope"
  ms_events :: "mission_event list mutex"
  ms_next_attempt_id :: u64
  ms_agent_record :: "agent_runtime_record option mutex"
  ms_lease :: "('cap authority_lease_certificate \<times> lease_record) option mutex"
  ms_authorization_records :: "authorization_record list mutex"
  ms_authorization_attempts :: "(authorization_id, u64) btree_map mutex"

definition new_store :: "'cap mission_envelope \<Rightarrow> 'cap mission_store" where
  "new_store mission =
     \<lparr>ms_mission = mission, ms_events = new_mutex [], ms_next_attempt_id = 0,
      ms_agent_record = new_mutex None, ms_lease = new_mutex None,
      ms_authorization_records = new_mutex [], ms_authorization_attempts = new_mutex []\<rparr>"

section \<open>Events and attempts\<close>

definition push_mission_event ::
  "mission_id \<Rightarrow> u64 option \<Rightarrow> mission_event_kind \<Rightarrow> timestamp \<Rightarrow> mission_event list \<Rightarrow> mission_event list" where
  "push_mission_event mission_id attempt_id kind now events =
     events @ [\<lparr>ev_sequence = of_nat (length events) + 1, ev_mission_id = mission_id,
       ev_attempt_id = attempt_id, ev_kind = kind, ev_occurred_at = now\<rparr>]"

definition append_event ::
  "u64 option \<Rightarrow> mission_event_kind \<Rightarrow> timestamp \<Rightarrow> ('cap mission_store, runtime_error, unit) exec" where
  "append_event attempt_id kind now = atomicS (\<lambda>s.
     bindE (lock ''mission event lock poisoned'' (ms_events s)) (\<lambda>events.
     Inr ((), s\<lparr>ms_events := (ms_events s)\<lparr>mx_value :=
       push_mission_event (me_mission_id (ms_mission s)) attempt_id kind now events\<rparr>\<rparr>)))"

definition append_mission ::
  "mission_event_kind \<Rightarrow> timestamp \<Rightarrow> ('cap mission_store, runtime_error, unit) exec" where
  "append_mission kind now = append_event None kind now"

definition append_for_attempt ::
  "u64 \<Rightarrow> mission_event_kind \<Rightarrow> timestamp \<Rightarrow> ('cap mission_store, runtime_error, unit) exec" where
  "append_for_attempt attempt_id kind now = append_event (Some attempt_id) kind now"

definition begin_attempt :: "'cap mission_store \<Rightarrow> u64 \<times> 'cap mission_store" where
  "begin_attempt s = (ms_next_attempt_id s + 1, s\<lparr>ms_next_attempt_id := ms_next_attempt_id s + 1\<rparr>)"

definition mission_events :: "'cap mission_store \<Rightarrow> mission_event list result" where
  "mission_events s = lock ''mission event lock poisoned'' (ms_events s)"

definition event_kinds :: "'cap mission_store \<Rightarrow> mission_event_kind list result" where
  "event_kinds s = bindE (mission_events s) (\<lambda>events. Inr (map ev_kind events))"

definition set_agent_record ::
  "agent_runtime_record \<Rightarrow> ('cap mission_store, runtime_error, unit) exec" where
  "set_agent_record r = atomicS (\<lambda>s.
     bindE (lock ''agent record lock poisoned'' (ms_agent_record s)) (\<lambda>_.
     Inr ((), s\<lparr>ms_agent_record := (ms_agent_record s)\<lparr>mx_value := Some r\<rparr>\<rparr>)))"

definition agent_record :: "'cap mission_store \<Rightarrow> agent_runtime_record option result" where
  "agent_record s = lock ''agent record lock poisoned'' (ms_agent_record s)"

definition set_lease ::
  "'cap authority_lease_certificate \<Rightarrow> lease_record \<Rightarrow> ('cap mission_store, runtime_error, unit) exec" where
  "set_lease c r = atomicS (\<lambda>s.
     bindE (lock ''lease record lock poisoned'' (ms_lease s)) (\<lambda>_.
     Inr ((), s\<lparr>ms_lease := (ms_lease s)\<lparr>mx_value := Some (c, r)\<rparr>\<rparr>)))"

definition stored_lease ::
  "'cap mission_store \<Rightarrow> ('cap authority_lease_certificate \<times> lease_record) option result" where
  "stored_lease s = lock ''lease record lock poisoned'' (ms_lease s)"

section \<open>Authorization records\<close>

definition insert_authorization_inner ::
  "authorization_record \<Rightarrow> u64 option \<Rightarrow> ('cap mission_store, runtime_error, unit) exec" where
  "insert_authorization_inner record attempt_id = atomicS (\<lambda>s.
     bindE (lock ''authorization store lock poisoned'' (ms_authorization_records s)) (\<lambda>records.
     if list_ex (\<lambda>existing. az_record_id existing = az_record_id record) records
     then err AuthorizationInvalid ''authorization record already exists''
     else case attempt_id of
        None \<Rightarrow> Inr ((), s\<lparr>ms_authorization_records := (ms_authorization_records s)\<lparr>mx_value := records @ [record]\<rparr>\<rparr>)
      | Some attempt \<Rightarrow>
          bindE (lock ''authorization attempt lock poisoned'' (ms_authorization_attempts s)) (\<lambda>attempts.
          Inr ((), s\<lparr>ms_authorization_attempts := (ms_authorization_attempts s)\<lparr>mx_value :=
                   bt_insert (az_record_id record) attempt attempts\<rparr>,
                 ms_authorization_records := (ms_authorization_records s)\<lparr>mx_value := records @ [record]\<rparr>\<rparr>))))"

definition insert_authorization ::
  "authorization_record \<Rightarrow> ('cap mission_store, runtime_error, unit) exec" where
  "insert_authorization record = insert_authorization_inner record None"

definition insert_authorization_for_attempt ::
  "u64 \<Rightarrow> authorization_record \<Rightarrow> ('cap mission_store, runtime_error, unit) exec" where
  "insert_authorization_for_attempt attempt_id record s =
     (if attempt_id = 0
      then (err InvalidInput ''authorization attempt identifier must be nonzero'', s)
      else insert_authorization_inner record (Some attempt_id) s)"

definition authorization_records :: "'cap mission_store \<Rightarrow> authorization_record list result" where
  "authorization_records s = lock ''authorization store lock poisoned'' (ms_authorization_records s)"

definition authorization_count :: "'cap mission_store \<Rightarrow> nat result" where
  "authorization_count s =
     bindE (lock ''authorization store lock poisoned'' (ms_authorization_records s)) (\<lambda>records.
     Inr (length records))"

definition validate_available_record :: "authorization_record \<Rightarrow> u64 \<Rightarrow> unit result" where
  "validate_available_record record expected_generation =
     (if az_state record \<noteq> Issued \<or> az_generation record \<noteq> expected_generation
       \<or> bu_actions (az_remaining_budget record) = 0
      then err AuthorizationInvalid ''authorization state, generation, or remaining budget is stale''
      else Inr ())"

definition consumed_record :: "authorization_record \<Rightarrow> authorization_record" where
  "consumed_record r = r\<lparr>az_remaining_budget :=
       (az_remaining_budget r)\<lparr>bu_actions := bu_actions (az_remaining_budget r) - 1\<rparr>,
     az_state := Consumed, az_generation := az_generation r + 1\<rparr>"

text \<open>The record found by its id is updated in place.\<close>

fun update_record ::
  "authorization_id \<Rightarrow> (authorization_record \<Rightarrow> authorization_record) \<Rightarrow> authorization_record list
   \<Rightarrow> authorization_record list" where
  "update_record i f [] = []"
| "update_record i f (r # rs) = (if az_record_id r = i then f r # rs else r # update_record i f rs)"

definition find_record :: "authorization_id \<Rightarrow> authorization_record list \<Rightarrow> authorization_record result" where
  "find_record i records =
     ok_or AuthorizationInvalid ''authorization record does not exist''
       (find (\<lambda>record. az_record_id record = i) records)"

definition consume_authorization ::
  "authorization_id \<Rightarrow> u64 \<Rightarrow> ('cap mission_store, runtime_error, authorization_record) exec" where
  "consume_authorization record_id expected_generation = atomicS (\<lambda>s.
     bindE (lock ''authorization store lock poisoned'' (ms_authorization_records s)) (\<lambda>records.
     bindE (find_record record_id records) (\<lambda>record.
     bindE (validate_available_record record expected_generation) (\<lambda>_.
     Inr (consumed_record record, s\<lparr>ms_authorization_records := (ms_authorization_records s)\<lparr>mx_value :=
            update_record record_id consumed_record records\<rparr>\<rparr>)))))"

text \<open>
  The closure runs under the lock between the checks and the update, so against the state that was
  checked; what it does to the rest of the world is the state \<open>'t\<close> it threads.
\<close>

definition consume_authorization_with ::
  "authorization_id \<Rightarrow> u64 \<Rightarrow> ('t, runtime_error, 'a) exec
   \<Rightarrow> ('cap mission_store \<times> 't, runtime_error, 'a) exec" where
  "consume_authorization_with record_id expected_generation commit st =
     (case st of (s, t) \<Rightarrow>
      (case bindE (lock ''authorization store lock poisoned'' (ms_authorization_records s)) (\<lambda>records.
            bindE (find_record record_id records) (\<lambda>record.
            bindE (validate_available_record record expected_generation) (\<lambda>_. Inr records))) of
         Inl e \<Rightarrow> (Inl e, s, t)
       | Inr records \<Rightarrow>
           (case commit t of
              (Inl e, t') \<Rightarrow> (Inl e, s, t')
            | (Inr x, t') \<Rightarrow>
                (Inr x, s\<lparr>ms_authorization_records := (ms_authorization_records s)\<lparr>mx_value :=
                   update_record record_id consumed_record records\<rparr>\<rparr>, t'))))"

section \<open>Completeness of the history\<close>

definition incomplete :: "string \<Rightarrow> 'a result" where
  "incomplete text = err EventIncomplete text"

definition attempt_patterns :: "(mission_event_kind \<Rightarrow> bool) list list" where
  "attempt_patterns =
     [[is_EvModelFailed],
      [is_ProtocolRejected],
      [(=) ProtocolAccepted, \<lambda>k. k = FinalProduced \<or> is_FinalRejected k],
      [(=) ProtocolAccepted, (=) PlanAccepted, is_ActionRejected],
      [(=) ProtocolAccepted, (=) PlanAccepted, (=) ActionAuthorized, (=) AuthorizationIssued,
       \<lambda>k. is_ExecutionRejectedBeforeNexus k \<or> is_EvExecutionFailed k],
      [(=) ProtocolAccepted, (=) PlanAccepted, (=) ActionAuthorized, (=) AuthorizationIssued,
       (=) AuthorizationConsumed, is_ExecutionRejectedBeforeNexus],
      [(=) ProtocolAccepted, (=) PlanAccepted, (=) ActionAuthorized, (=) AuthorizationIssued,
       (=) AuthorizationConsumed, (=) ExecutionStarted,
       \<lambda>k. k = ExecutionCompleted \<or> is_EvExecutionFailed k]]"

definition attempt_complete :: "mission_event_kind list \<Rightarrow> bool" where
  "attempt_complete events \<longleftrightarrow> list_ex (\<lambda>ps. list_all2 (\<lambda>p k. p k) ps events) attempt_patterns"

definition validate_attempt :: "mission_event_kind list \<Rightarrow> unit result" where
  "validate_attempt events =
     (if attempt_complete events then Inr ()
      else incomplete ''attempt history is incomplete, out of order, or crosses a terminal event'')"

definition foundational :: "mission_event_kind list" where
  "foundational = [MissionCreated, ContextResolved, MissionLeaseIssued, AgentActivated]"

fun group_attempts ::
  "mission_event list \<Rightarrow> (u64, mission_event_kind list) btree_map
   \<Rightarrow> (u64, mission_event_kind list) btree_map result" where
  "group_attempts [] attempts = Inr attempts"
| "group_attempts (event # events) attempts =
     (case ev_attempt_id event of
        None \<Rightarrow> incomplete ''runtime event is missing its originating attempt identifier''
      | Some attempt_id \<Rightarrow>
          if attempt_id = 0 then incomplete ''runtime event has an invalid attempt identifier''
          else group_attempts events (bt_insert attempt_id
            ((case map_of attempts attempt_id of None \<Rightarrow> [] | Some ks \<Rightarrow> ks) @ [ev_kind event]) attempts))"

fun count_consumed ::
  "authorization_record list \<Rightarrow> (authorization_id, u64) btree_map \<Rightarrow> (u64, nat) btree_map
   \<Rightarrow> (u64, nat) btree_map result" where
  "count_consumed [] bound counts = Inr counts"
| "count_consumed (record # records) bound counts =
     (if az_state record \<noteq> Consumed then count_consumed records bound counts
      else case map_of bound (az_record_id record) of
        None \<Rightarrow> incomplete ''consumed authorization is not bound to an execution attempt''
      | Some attempt_id \<Rightarrow> count_consumed records bound (bt_insert attempt_id
          ((case map_of counts attempt_id of None \<Rightarrow> 0 | Some n \<Rightarrow> n) + 1) counts))"

definition evidence_count ::
  "(u64, mission_event_kind list) btree_map \<Rightarrow> u64 \<Rightarrow> nat" where
  "evidence_count attempts attempt_id =
     (case map_of attempts attempt_id of None \<Rightarrow> 0
      | Some ks \<Rightarrow> length (filter (\<lambda>k. k = AuthorizationConsumed) ks))"

definition verify_event_completeness :: "'cap mission_store \<Rightarrow> unit result" where
  "verify_event_completeness s =
     bindE (mission_events s) (\<lambda>events.
     let prefix_events = take (length foundational) events in
     if length events < length foundational \<or> map ev_kind prefix_events \<noteq> foundational
       \<or> list_ex (\<lambda>e. ev_attempt_id e \<noteq> None) prefix_events
     then incomplete ''mission history is missing its trusted activation prefix''
     else if list_ex (\<lambda>(index, e). ev_sequence e \<noteq> of_nat index + 1) (enumerate 0 events)
     then incomplete ''mission event sequence is not contiguous''
     else if list_ex (\<lambda>e. ev_mission_id e \<noteq> me_mission_id (ms_mission s)) events
     then incomplete ''mission event is bound to the wrong mission''
     else bindE (group_attempts (drop (length foundational) events) []) (\<lambda>attempts.
       bindE (allE_loop (\<lambda>(_, ks). validate_attempt ks) attempts) (\<lambda>_.
       bindE (lock ''authorization store lock poisoned'' (ms_authorization_records s)) (\<lambda>records.
       bindE (lock ''authorization attempt lock poisoned'' (ms_authorization_attempts s)) (\<lambda>bound.
       bindE (count_consumed records bound []) (\<lambda>consumed_by_attempt.
       allE_loop (\<lambda>(attempt_id, consumed_count).
         if evidence_count attempts attempt_id < consumed_count
         then incomplete ''consumed authorization is missing AuthorizationConsumed evidence''
         else Inr ()) consumed_by_attempt))))))"

section \<open>Complete attempts\<close>

text \<open>
  An attempt as a state machine: each event moves it on, and the events that end it lead to
  \<open>Ended\<close>, which no event leaves.
\<close>

datatype attempt_phase = Begun | Accepted | Planned | Permitted | Granted | Spent | Running | Ended

fun attempt_step :: "attempt_phase \<Rightarrow> mission_event_kind \<Rightarrow> attempt_phase option" where
  "attempt_step Begun k = (if is_EvModelFailed k \<or> is_ProtocolRejected k then Some Ended
     else if k = ProtocolAccepted then Some Accepted else None)"
| "attempt_step Accepted k = (if k = FinalProduced \<or> is_FinalRejected k then Some Ended
     else if k = PlanAccepted then Some Planned else None)"
| "attempt_step Planned k = (if is_ActionRejected k then Some Ended
     else if k = ActionAuthorized then Some Permitted else None)"
| "attempt_step Permitted k = (if k = AuthorizationIssued then Some Granted else None)"
| "attempt_step Granted k = (if is_ExecutionRejectedBeforeNexus k \<or> is_EvExecutionFailed k then Some Ended
     else if k = AuthorizationConsumed then Some Spent else None)"
| "attempt_step Spent k = (if is_ExecutionRejectedBeforeNexus k then Some Ended
     else if k = ExecutionStarted then Some Running else None)"
| "attempt_step Running k = (if k = ExecutionCompleted \<or> is_EvExecutionFailed k then Some Ended else None)"
| "attempt_step Ended k = None"

fun attempt_run :: "attempt_phase \<Rightarrow> mission_event_kind list \<Rightarrow> attempt_phase option" where
  "attempt_run p [] = Some p"
| "attempt_run p (k # ks) = (case attempt_step p k of None \<Rightarrow> None | Some q \<Rightarrow> attempt_run q ks)"

lemma attempt_run_append:
  "attempt_run p (ks @ ls) = (case attempt_run p ks of None \<Rightarrow> None | Some q \<Rightarrow> attempt_run q ls)"
  by (induction ks arbitrary: p) (auto split: option.splits)

lemma run_from_Ended: "attempt_run Ended ks = Some q \<longleftrightarrow> ks = [] \<and> q = Ended"
  by (cases ks) auto

definition tail_complete :: "attempt_phase \<Rightarrow> mission_event_kind list \<Rightarrow> bool" where
  "tail_complete p ks \<longleftrightarrow> attempt_run p ks = Some Ended"

lemma tail_complete_Cons:
  "tail_complete p (k # ks) \<longleftrightarrow> (\<exists>q. attempt_step p k = Some q \<and> tail_complete q ks)"
  by (auto simp: tail_complete_def split: option.splits)

lemma tail_complete_unfold:
  "tail_complete Ended ks \<longleftrightarrow> ks = []"
  "tail_complete Running ks \<longleftrightarrow> (\<exists>k. ks = [k] \<and> (k = ExecutionCompleted \<or> is_EvExecutionFailed k))"
  "tail_complete Spent ks \<longleftrightarrow> (\<exists>k. ks = [k] \<and> is_ExecutionRejectedBeforeNexus k)
     \<or> (\<exists>ls. ks = ExecutionStarted # ls \<and> tail_complete Running ls)"
  "tail_complete Granted ks \<longleftrightarrow> (\<exists>k. ks = [k] \<and> (is_ExecutionRejectedBeforeNexus k \<or> is_EvExecutionFailed k))
     \<or> (\<exists>ls. ks = AuthorizationConsumed # ls \<and> tail_complete Spent ls)"
  "tail_complete Permitted ks \<longleftrightarrow> (\<exists>ls. ks = AuthorizationIssued # ls \<and> tail_complete Granted ls)"
  "tail_complete Planned ks \<longleftrightarrow> (\<exists>k. ks = [k] \<and> is_ActionRejected k)
     \<or> (\<exists>ls. ks = ActionAuthorized # ls \<and> tail_complete Permitted ls)"
  "tail_complete Accepted ks \<longleftrightarrow> (\<exists>k. ks = [k] \<and> (k = FinalProduced \<or> is_FinalRejected k))
     \<or> (\<exists>ls. ks = PlanAccepted # ls \<and> tail_complete Planned ls)"
  "tail_complete Begun ks \<longleftrightarrow> (\<exists>k. ks = [k] \<and> (is_EvModelFailed k \<or> is_ProtocolRejected k))
     \<or> (\<exists>ls. ks = ProtocolAccepted # ls \<and> tail_complete Accepted ls)"
  by (cases ks; auto simp: tail_complete_def run_from_Ended split: if_splits)+

lemma attempt_complete_iff: "attempt_complete ks \<longleftrightarrow> tail_complete Begun ks"
  unfolding attempt_complete_def attempt_patterns_def
  by (auto simp: tail_complete_unfold list_all2_Cons1)

end
