(* ===== verification/StoreRuns.thy ===== *)
theory StoreRuns
  imports MissionStore
begin

text \<open>
  What the mission store guarantees over sequences of its operations: an authorization record is
  consumed at most once, the log of mission events only grows and stays numbered, and the check of
  the recorded history accepts exactly the histories described by the attempt state machine.
\<close>

section \<open>Operations as inversion rules\<close>

lemma lock_eq_Inr [result_simps]: "lock text m = Inr v \<longleftrightarrow> \<not> mx_poisoned m \<and> v = mx_value m"
  by (auto simp: lock_def)

lemma find_record_ok [result_simps]:
  "find_record i rs = Inr r \<longleftrightarrow> find (\<lambda>r. az_record_id r = i) rs = Some r"
  by (simp add: find_record_def ok_or_eq_Inr)

definition available :: "u64 \<Rightarrow> authorization_record \<Rightarrow> bool" where
  "available g r \<longleftrightarrow> az_state r = Issued \<and> az_generation r = g \<and> bu_actions (az_remaining_budget r) \<noteq> 0"

lemma validate_available_ok [result_simps]: "validate_available_record r g = Inr u \<longleftrightarrow> available g r"
  by (auto simp: validate_available_record_def available_def)

abbreviation records :: "'cap mission_store \<Rightarrow> authorization_record list" where
  "records s \<equiv> mx_value (ms_authorization_records s)"

abbreviation lookup_record :: "'cap mission_store \<Rightarrow> authorization_id \<Rightarrow> authorization_record option" where
  "lookup_record s i \<equiv> find (\<lambda>r. az_record_id r = i) (records s)"

definition spend :: "authorization_id \<Rightarrow> 'cap mission_store \<Rightarrow> 'cap mission_store" where
  "spend i s = s\<lparr>ms_authorization_records := (ms_authorization_records s)\<lparr>mx_value :=
     update_record i consumed_record (records s)\<rparr>\<rparr>"

lemma consumed_record_simps [simp]:
  "az_record_id (consumed_record r) = az_record_id r" "az_state (consumed_record r) = Consumed"
  "az_generation (consumed_record r) = az_generation r + 1"
  "bu_actions (az_remaining_budget (consumed_record r)) = bu_actions (az_remaining_budget r) - 1"
  "az_action_ref (consumed_record r) = az_action_ref r"
  by (simp_all add: consumed_record_def)

lemma find_update_record:
  assumes "\<And>r. az_record_id (f r) = az_record_id r"
  shows "find (\<lambda>r. az_record_id r = j) (update_record i f rs) =
    (if j = i then map_option f (find (\<lambda>r. az_record_id r = i) rs)
     else find (\<lambda>r. az_record_id r = j) rs)"
  using assms by (induction rs) auto

lemma update_record_ids:
  assumes "\<And>r. az_record_id (f r) = az_record_id r"
  shows "map az_record_id (update_record i f rs) = map az_record_id rs"
  using assms by (induction rs) auto

lemma lookup_spend:
  "lookup_record (spend i s) j = (if j = i then map_option consumed_record (lookup_record s i) else lookup_record s j)"
  by (simp add: spend_def find_update_record)

lemma consume_iff:
  "consume_authorization i g s = (Inr r', s') \<longleftrightarrow>
     \<not> mx_poisoned (ms_authorization_records s) \<and> s' = spend i s
     \<and> (\<exists>r. lookup_record s i = Some r \<and> available g r \<and> r' = consumed_record r)"
  unfolding consume_authorization_def atomicS_eq_Inr bindE_eq_Inr lock_eq_Inr find_record_ok
    validate_available_ok spend_def by auto

lemma consume_error: "consume_authorization i g s = (Inl e, s') \<Longrightarrow> s' = s"
  unfolding consume_authorization_def by (simp add: atomicS_Inl)

text \<open>Whether the commit may run is decided before it runs.\<close>

definition may_spend :: "authorization_id \<Rightarrow> u64 \<Rightarrow> 'cap mission_store \<Rightarrow> authorization_record list result" where
  "may_spend i g s = bindE (lock ''authorization store lock poisoned'' (ms_authorization_records s)) (\<lambda>rs.
     bindE (find_record i rs) (\<lambda>record. bindE (validate_available_record record g) (\<lambda>_. Inr rs)))"

lemma may_spend_ok:
  "may_spend i g s = Inr rs \<longleftrightarrow> \<not> mx_poisoned (ms_authorization_records s) \<and> rs = records s
     \<and> (\<exists>r. lookup_record s i = Some r \<and> available g r)"
  unfolding may_spend_def bindE_eq_Inr lock_eq_Inr find_record_ok validate_available_ok by auto

lemma consume_with_cases:
  "consume_authorization_with i g commit (s, t) =
    (case may_spend i g s of Inl e \<Rightarrow> (Inl e, s, t)
     | Inr _ \<Rightarrow> (case commit t of (Inl e, t') \<Rightarrow> (Inl e, s, t') | (Inr x, t') \<Rightarrow> (Inr x, spend i s, t')))"
proof (cases "may_spend i g s")
  case (Inl e)
  then show ?thesis unfolding consume_authorization_with_def may_spend_def by simp
next
  case (Inr rs)
  then have rs: "rs = records s" by (simp add: may_spend_ok)
  show ?thesis using Inr unfolding consume_authorization_with_def may_spend_def spend_def
    by (simp add: rs split: prod.splits sum.splits)
qed

lemma consume_via_may_spend:
  "consume_authorization i g s = (case may_spend i g s of Inl e \<Rightarrow> (Inl e, s)
     | Inr _ \<Rightarrow> (Inr (consumed_record (the (lookup_record s i))), spend i s))"
  unfolding consume_authorization_def may_spend_def atomicS_def spend_def
  by (auto simp: lock_def find_record_def ok_or_def bindE_def split: option.splits sum.splits)

section \<open>Runs of the store\<close>

datatype 'cap store_op =
    OpAppend mission_event_kind timestamp
  | OpBeginAttempt
  | OpAppendForAttempt u64 mission_event_kind timestamp
  | OpSetAgentRecord agent_runtime_record
  | OpSetLease "'cap authority_lease_certificate" lease_record
  | OpInsert authorization_record
  | OpInsertForAttempt u64 authorization_record
  | OpConsume authorization_id u64
  | OpConsumeWith authorization_id u64 "runtime_error option"

text \<open>Of the commit of \<open>consume_authorization_with\<close> only its outcome matters to the store.\<close>

definition outcome :: "runtime_error option \<Rightarrow> (unit, runtime_error, unit) exec" where
  "outcome r t = (case r of None \<Rightarrow> (Inr (), t) | Some e \<Rightarrow> (Inl e, t))"

fun run_store_op :: "'cap store_op \<Rightarrow> 'cap mission_store \<Rightarrow> 'cap mission_store" where
  "run_store_op (OpAppend k now) s = snd (append_mission k now s)"
| "run_store_op OpBeginAttempt s = snd (begin_attempt s)"
| "run_store_op (OpAppendForAttempt a k now) s = snd (append_for_attempt a k now s)"
| "run_store_op (OpSetAgentRecord r) s = snd (set_agent_record r s)"
| "run_store_op (OpSetLease c r) s = snd (set_lease c r s)"
| "run_store_op (OpInsert r) s = snd (insert_authorization r s)"
| "run_store_op (OpInsertForAttempt a r) s = snd (insert_authorization_for_attempt a r s)"
| "run_store_op (OpConsume i g) s = snd (consume_authorization i g s)"
| "run_store_op (OpConsumeWith i g r) s = fst (snd (consume_authorization_with i g (outcome r) (s, ())))"

inductive store_run :: "'cap mission_store \<Rightarrow> 'cap mission_store \<Rightarrow> bool" where
  store_refl: "store_run s s"
| store_step: "store_run s t \<Longrightarrow> u = run_store_op x t \<Longrightarrow> store_run s u"

lemma store_run_trans: "store_run s t \<Longrightarrow> store_run t u \<Longrightarrow> store_run s u"
  by (rotate_tac, induction rule: store_run.induct) (auto intro: store_run.intros)

text \<open>A property kept by every operation is kept by every run.\<close>

lemma store_run_induct_inv:
  assumes "store_run s t" and "P s" and "\<And>x u. P u \<Longrightarrow> P (run_store_op x u)"
  shows "P t"
  using assms by (induction rule: store_run.induct) auto

lemma atomicS_snd:
  "snd (atomicS f s) = (case f s of Inl e \<Rightarrow> s | Inr (x, s') \<Rightarrow> s')"
  by (auto simp: atomicS_def split: sum.splits prod.splits)

section \<open>A record is spent once\<close>

definition spent :: "authorization_id \<Rightarrow> 'cap mission_store \<Rightarrow> bool" where
  "spent i s \<longleftrightarrow> (\<exists>r. lookup_record s i = Some r \<and> az_state r = Consumed)"

lemma append_event_records [frame_simps]:
  "ms_authorization_records (snd (append_event a k now s)) = ms_authorization_records s"
  by (auto simp: append_event_def atomicS_snd lock_def)

lemma insert_records:
  "records (snd (insert_authorization_inner r a s)) = records s
   \<or> lookup_record s (az_record_id r) = None \<and> records (snd (insert_authorization_inner r a s)) = records s @ [r]"
  by (auto simp: insert_authorization_inner_def atomicS_snd lock_def find_None_iff list_ex_iff
      split: option.splits)

lemma find_append_ne:
  "find P xs = Some r \<Longrightarrow> find P (xs @ ys) = Some r"
  by (induction xs) auto

lemma insert_keeps: "lookup_record s i = Some r' \<Longrightarrow> lookup_record (snd (insert_authorization_inner r a s)) i = Some r'"
  using insert_records [of r a s] by (auto simp: find_append_ne)

lemma consume_snd:
  "snd (consume_authorization i g s) = s \<or> (snd (consume_authorization i g s) = spend i s
     \<and> (\<exists>r. lookup_record s i = Some r \<and> available g r))"
proof (cases "may_spend i g s")
  case (Inl e)
  then show ?thesis by (simp add: consume_via_may_spend)
next
  case (Inr rs)
  then have "\<exists>r. lookup_record s i = Some r \<and> available g r" by (simp add: may_spend_ok)
  with Inr show ?thesis by (simp add: consume_via_may_spend)
qed

lemma consume_with_snd:
  "fst (snd (consume_authorization_with i g c (s, t))) = s \<or> (fst (snd (consume_authorization_with i g c (s, t))) = spend i s
     \<and> (\<exists>r. lookup_record s i = Some r \<and> available g r))"
proof (cases "may_spend i g s")
  case (Inl e)
  then show ?thesis by (simp add: consume_with_cases)
next
  case (Inr rs)
  then have "\<exists>r. lookup_record s i = Some r \<and> available g r" by (simp add: may_spend_ok)
  with Inr show ?thesis by (simp add: consume_with_cases split: prod.splits sum.splits)
qed

lemma spent_spend: "spent j s \<Longrightarrow> spent j (spend i s)"
  by (auto simp: spent_def lookup_spend)

lemma spent_step: "spent i s \<Longrightarrow> spent i (run_store_op x s)"
proof -
  assume sp: "spent i s"
  then obtain r where r: "lookup_record s i = Some r" "az_state r = Consumed" by (auto simp: spent_def)
  show ?thesis
  proof (cases x)
    case (OpSetAgentRecord ar)
    then show ?thesis using sp by (auto simp: spent_def set_agent_record_def atomicS_snd lock_def)
  next
    case (OpSetLease c lr)
    then show ?thesis using sp by (auto simp: spent_def set_lease_def atomicS_snd lock_def)
  next
    case (OpInsert ar)
    then show ?thesis using r by (auto simp: spent_def insert_authorization_def insert_keeps)
  next
    case (OpInsertForAttempt a ar)
    then show ?thesis using r by (auto simp: spent_def insert_authorization_for_attempt_def insert_keeps)
  next
    case (OpConsume j g)
    then show ?thesis using sp spent_spend [OF sp] consume_snd [of j g s] by auto
  next
    case (OpConsumeWith j g e)
    then show ?thesis using sp spent_spend [OF sp] consume_with_snd [of j g "outcome e" s "()"] by auto
  qed (use sp in \<open>auto simp: spent_def append_mission_def append_for_attempt_def begin_attempt_def frame_simps\<close>)
qed

lemma spent_run: "store_run s t \<Longrightarrow> spent i s \<Longrightarrow> spent i t"
  by (rule store_run_induct_inv [where P = "spent i"]) (auto intro: spent_step)

lemma spent_refused:
  assumes "spent i s"
  shows "\<exists>e. may_spend i g s = Inl e \<and> code e \<in> {AuthorizationInvalid, Internal}"
proof (cases "mx_poisoned (ms_authorization_records s)")
  case True
  then show ?thesis by (simp add: may_spend_def lock_def)
next
  case False
  from assms obtain r where r: "lookup_record s i = Some r" "az_state r = Consumed" by (auto simp: spent_def)
  then have "validate_available_record r g
    = err AuthorizationInvalid ''authorization state, generation, or remaining budget is stale''"
    by (simp add: validate_available_record_def)
  with False r show ?thesis by (simp add: may_spend_def lock_def find_record_def)
qed

section \<open>The log of mission events\<close>

interpretation mlog: event_log "\<lambda>es. es" ev_sequence "\<lambda>(m, a, k, now). push_mission_event m a k now"
  by unfold_locales (auto simp: push_mission_event_def)

abbreviation events :: "'cap mission_store \<Rightarrow> mission_event list" where
  "events s \<equiv> mx_value (ms_events s)"

lemma append_event_effect:
  "events (snd (append_event a k now s)) = events s
   \<or> events (snd (append_event a k now s)) = push_mission_event (me_mission_id (ms_mission s)) a k now (events s)"
  by (auto simp: append_event_def atomicS_snd lock_def)

lemma append_event_mission [frame_simps]: "ms_mission (snd (append_event a k now s)) = ms_mission s"
  by (auto simp: append_event_def atomicS_snd lock_def)

lemma insert_frame [frame_simps]:
  "ms_events (snd (insert_authorization_inner r a s)) = ms_events s"
  "ms_mission (snd (insert_authorization_inner r a s)) = ms_mission s"
  by (auto simp: insert_authorization_inner_def atomicS_snd lock_def split: option.splits)

lemma spend_frame [frame_simps]:
  "ms_events (spend i s) = ms_events s" "ms_mission (spend i s) = ms_mission s"
  "ms_authorization_attempts (spend i s) = ms_authorization_attempts s"
  by (simp_all add: spend_def)

lemma consume_frame [frame_simps]:
  "ms_events (snd (consume_authorization i g s)) = ms_events s"
  "ms_mission (snd (consume_authorization i g s)) = ms_mission s"
  using consume_snd [of i g s] by (auto simp: frame_simps)

lemma consume_with_frame [frame_simps]:
  "ms_events (fst (snd (consume_authorization_with i g c (s, t)))) = ms_events s"
  "ms_mission (fst (snd (consume_authorization_with i g c (s, t)))) = ms_mission s"
  using consume_with_snd [of i g c s t] by (auto simp: frame_simps)

lemma set_frame [frame_simps]:
  "ms_events (snd (set_agent_record r s)) = ms_events s" "ms_mission (snd (set_agent_record r s)) = ms_mission s"
  "ms_events (snd (set_lease c l s)) = ms_events s" "ms_mission (snd (set_lease c l s)) = ms_mission s"
  by (auto simp: set_agent_record_def set_lease_def atomicS_snd lock_def)

lemma op_mission: "ms_mission (run_store_op x s) = ms_mission s"
  by (cases x) (auto simp: append_mission_def append_for_attempt_def begin_attempt_def insert_authorization_def
      insert_authorization_for_attempt_def frame_simps)

lemma op_log:
  obtains (same) "events (run_store_op x s) = events s"
  | (pushed) a k now where "events (run_store_op x s) = push_mission_event (me_mission_id (ms_mission s)) a k now (events s)"
proof (cases x)
  case (OpAppend k now)
  with append_event_effect [of None k now s] that show ?thesis by (auto simp: append_mission_def)
next
  case (OpAppendForAttempt a k now)
  with append_event_effect [of "Some a" k now s] that show ?thesis by (auto simp: append_for_attempt_def)
qed (use that in \<open>auto simp: begin_attempt_def insert_authorization_def
    insert_authorization_for_attempt_def frame_simps\<close>)

definition log_ok :: "'cap mission_store \<Rightarrow> bool" where
  "log_ok s \<longleftrightarrow> numbered ev_sequence (events s) \<and> (\<forall>e \<in> set (events s). ev_mission_id e = me_mission_id (ms_mission s))"

lemma op_extends: "log_extends ev_sequence (events s) (events (run_store_op x s))"
proof (cases rule: op_log [of x s])
  case same
  then show ?thesis by simp
next
  case (pushed a k now)
  then show ?thesis using mlog.append_extends [of "events s" "(me_mission_id (ms_mission s), a, k, now)"] by simp
qed

lemma op_log_ok: "log_ok s \<Longrightarrow> log_ok (run_store_op x s)"
proof (cases rule: op_log [of x s])
  case (pushed a k now)
  assume "log_ok s"
  with pushed show ?thesis by (auto simp: log_ok_def op_mission push_mission_event_def)
qed (auto simp: log_ok_def op_mission)

lemma run_extends: "store_run s t \<Longrightarrow> log_extends ev_sequence (events s) (events t)"
proof (induction rule: store_run.induct)
  case (store_step s t u x)
  then show ?case using op_extends [of t x] log_extends_trans by blast
qed simp

lemma run_log_ok: "store_run s t \<Longrightarrow> log_ok s \<Longrightarrow> log_ok t"
  by (rule store_run_induct_inv [where P = log_ok]) (auto intro: op_log_ok)

lemma new_store_log: "log_ok (new_store m)"
  by (simp add: log_ok_def new_store_def new_mutex_def)

end
