(* ===== verification/StoreHistory.thy ===== *)
theory StoreHistory
  imports StoreRuns
begin

text \<open>
  The check of the recorded history (\<open>verify_event_completeness\<close>) against its specification: the
  activation prefix, contiguous numbering, one mission, complete attempts, and for every consumed
  authorization the evidence of its consumption in the attempt it is bound to.
\<close>

section \<open>Specification\<close>

definition attempt_kinds :: "u64 \<Rightarrow> mission_event list \<Rightarrow> mission_event_kind list" where
  "attempt_kinds a es = map ev_kind (filter (\<lambda>e. ev_attempt_id e = Some a) es)"

definition consumed_for ::
  "u64 \<Rightarrow> (authorization_id, u64) btree_map \<Rightarrow> authorization_record list \<Rightarrow> authorization_record list" where
  "consumed_for a bound rs = filter (\<lambda>r. az_state r = Consumed \<and> map_of bound (az_record_id r) = Some a) rs"

definition history_complete ::
  "mission_id \<Rightarrow> mission_event list \<Rightarrow> authorization_record list \<Rightarrow> (authorization_id, u64) btree_map \<Rightarrow> bool" where
  "history_complete m es rs bound \<longleftrightarrow>
     map ev_kind (take 4 es) = foundational \<and> (\<forall>e \<in> set (take 4 es). ev_attempt_id e = None)
     \<and> numbered ev_sequence es \<and> (\<forall>e \<in> set es. ev_mission_id e = m)
     \<and> (\<forall>e \<in> set (drop 4 es). \<exists>a. ev_attempt_id e = Some a \<and> a \<noteq> 0)
     \<and> (\<forall>a. attempt_kinds a (drop 4 es) = [] \<or> tail_complete Begun (attempt_kinds a (drop 4 es)))
     \<and> (\<forall>r \<in> set rs. az_state r = Consumed \<longrightarrow> map_of bound (az_record_id r) \<noteq> None)
     \<and> (\<forall>a. length (consumed_for a bound rs)
           \<le> length (filter (\<lambda>k. k = AuthorizationConsumed) (attempt_kinds a (drop 4 es))))"

section \<open>The loops\<close>

definition prior :: "('k, 'v list) btree_map \<Rightarrow> 'k \<Rightarrow> 'v list" where
  "prior m a = (case map_of m a of None \<Rightarrow> [] | Some ks \<Rightarrow> ks)"

lemma attempt_kinds_simps [simp]:
  "attempt_kinds a [] = []"
  "attempt_kinds a (e # es) = (if ev_attempt_id e = Some a then ev_kind e # attempt_kinds a es else attempt_kinds a es)"
  by (simp_all add: attempt_kinds_def)

lemma group_attempts_ok:
  "group_attempts es m = Inr m' \<Longrightarrow>
     (\<forall>e \<in> set es. \<exists>a. ev_attempt_id e = Some a \<and> a \<noteq> 0)
     \<and> (\<forall>a. prior m' a = prior m a @ attempt_kinds a es)
     \<and> (\<forall>a. map_of m' a = None \<longleftrightarrow> map_of m a = None \<and> attempt_kinds a es = [])"
proof (induction es arbitrary: m)
  case Nil
  then show ?case by simp
next
  case (Cons e es)
  from Cons.prems obtain a where a: "ev_attempt_id e = Some a" "a \<noteq> 0"
    and rest: "group_attempts es (bt_insert a (prior m a @ [ev_kind e]) m) = Inr m'"
    by (auto simp: incomplete_def prior_def split: option.splits if_splits)
  from Cons.IH [OF rest] a show ?case by (auto simp: prior_def map_of_bt_insert)
qed

lemma group_attempts_bt: "group_attempts es m = Inr m' \<Longrightarrow> bt_ok m \<Longrightarrow> bt_ok m'"
  by (induction es m rule: group_attempts.induct)
    (auto simp: incomplete_def bt_ok_insert split: option.splits if_splits)

lemma group_attempts_total:
  "\<forall>e \<in> set es. \<exists>a. ev_attempt_id e = Some a \<and> a \<noteq> 0 \<Longrightarrow> \<exists>m'. group_attempts es m = Inr m'"
  by (induction es arbitrary: m) auto

definition prior_count :: "('k, nat) btree_map \<Rightarrow> 'k \<Rightarrow> nat" where
  "prior_count m a = (case map_of m a of None \<Rightarrow> 0 | Some n \<Rightarrow> n)"

lemma consumed_for_simps [simp]:
  "consumed_for a b [] = []"
  "consumed_for a b (r # rs) = (if az_state r = Consumed \<and> map_of b (az_record_id r) = Some a
     then r # consumed_for a b rs else consumed_for a b rs)"
  by (simp_all add: consumed_for_def)

lemma count_consumed_ok:
  "count_consumed rs bound m = Inr m' \<Longrightarrow>
     (\<forall>r \<in> set rs. az_state r = Consumed \<longrightarrow> map_of bound (az_record_id r) \<noteq> None)
     \<and> (\<forall>a. prior_count m' a = prior_count m a + length (consumed_for a bound rs))"
proof (induction rs arbitrary: m)
  case Nil
  then show ?case by simp
next
  case (Cons r rs)
  show ?case
  proof (cases "az_state r = Consumed")
    case False
    with Cons show ?thesis by auto
  next
    case True
    with Cons.prems obtain a where a: "map_of bound (az_record_id r) = Some a"
      and rest: "count_consumed rs bound (bt_insert a (prior_count m a + 1) m) = Inr m'"
      by (auto simp: incomplete_def prior_count_def split: option.splits)
    from Cons.IH [OF rest] a True show ?thesis by (auto simp: prior_count_def map_of_bt_insert)
  qed
qed

lemma count_consumed_bt: "count_consumed rs bound m = Inr m' \<Longrightarrow> bt_ok m \<Longrightarrow> bt_ok m'"
  by (induction rs bound m rule: count_consumed.induct)
    (auto simp: incomplete_def bt_ok_insert split: option.splits if_splits)

lemma count_consumed_total:
  "\<forall>r \<in> set rs. az_state r = Consumed \<longrightarrow> map_of bound (az_record_id r) \<noteq> None
   \<Longrightarrow> \<exists>m'. count_consumed rs bound m = Inr m'"
  by (induction rs arbitrary: m) auto

text \<open>Checking every group of an ordered map is checking the group of every key.\<close>

lemma bt_forall: "bt_ok m \<Longrightarrow> (\<forall>(k, v) \<in> set m. P k v) \<longleftrightarrow> (\<forall>k v. map_of m k = Some v \<longrightarrow> P k v)"
  using bt.entries_lookup [of m] by (auto simp: Ball_def)

lemma validate_attempt_ok: "validate_attempt ks = Inr u \<longleftrightarrow> tail_complete Begun ks"
  by (auto simp: validate_attempt_def incomplete_def attempt_complete_iff)

lemma attempts_checked:
  assumes g: "group_attempts es [] = Inr m"
  shows "allE_loop (\<lambda>(_, ks). validate_attempt ks) m = Inr u
    \<longleftrightarrow> (\<forall>a. attempt_kinds a es = [] \<or> tail_complete Begun (attempt_kinds a es))"
proof -
  have p: "prior m a = attempt_kinds a es" "map_of m a = None \<longleftrightarrow> attempt_kinds a es = []" for a
    using group_attempts_ok [OF g] by (auto simp: prior_def)
  have look: "map_of m a = (if attempt_kinds a es = [] then None else Some (attempt_kinds a es))" for a
    using p [of a] by (auto simp: prior_def split: option.splits)
  have "allE_loop (\<lambda>(_, ks). validate_attempt ks) m = Inr u
    \<longleftrightarrow> (\<forall>(k, ks) \<in> set m. tail_complete Begun ks)"
    by (auto simp: allE_loop_ok validate_attempt_ok)
  also have "\<dots> \<longleftrightarrow> (\<forall>k ks. map_of m k = Some ks \<longrightarrow> tail_complete Begun ks)"
    using group_attempts_bt [OF g] by (intro bt_forall) simp
  finally show ?thesis by (auto simp: look)
qed

lemma evidence_checked:
  assumes g: "group_attempts es [] = Inr m" and c: "count_consumed rs bound [] = Inr n"
  shows "allE_loop (\<lambda>(a, k). if evidence_count m a < k then incomplete text else Inr ()) n = Inr u
    \<longleftrightarrow> (\<forall>a. length (consumed_for a bound rs)
          \<le> length (filter (\<lambda>k. k = AuthorizationConsumed) (attempt_kinds a es)))"
proof -
  have ev: "evidence_count m a = length (filter (\<lambda>k. k = AuthorizationConsumed) (attempt_kinds a es))" for a
    using group_attempts_ok [OF g, THEN conjunct2, THEN conjunct1, rule_format, of a]
    by (auto simp: evidence_count_def prior_def split: option.splits)
  have n: "prior_count n a = length (consumed_for a bound rs)" for a
    using count_consumed_ok [OF c] by (simp add: prior_count_def)
  have "allE_loop (\<lambda>(a, k). if evidence_count m a < k then incomplete text else Inr ()) n = Inr u
    \<longleftrightarrow> (\<forall>(a, k) \<in> set n. k \<le> evidence_count m a)"
  proof -
    have step: "(if evidence_count m a < k then incomplete text else Inr ()) = Inr () \<longleftrightarrow> k \<le> evidence_count m a"
      for a k by (simp add: incomplete_def linorder_not_less)
    show ?thesis unfolding allE_loop_ok case_prod_beta step ..
  qed
  also have "\<dots> \<longleftrightarrow> (\<forall>a k. map_of n a = Some k \<longrightarrow> k \<le> evidence_count m a)"
    using count_consumed_bt [OF c] by (intro bt_forall) simp
  also have "\<dots> \<longleftrightarrow> (\<forall>a. prior_count n a \<le> evidence_count m a)"
    by (auto simp: prior_count_def split: option.splits)
  finally show ?thesis by (simp add: ev n)
qed

section \<open>The check is exact\<close>

lemma foundational_length [simp]: "length foundational = 4"
  by (simp add: foundational_def)

lemma numbered_check: "\<not> list_ex (\<lambda>(i, e). ev_sequence e \<noteq> of_nat i + 1) (enumerate 0 es) \<longleftrightarrow> numbered ev_sequence es"
  by (auto simp: numbered_def list_ex_iff list_all_iff)

lemma prefix_check:
  "\<not> (length es < length foundational \<or> map ev_kind (take (length foundational) es) \<noteq> foundational
      \<or> list_ex (\<lambda>e. ev_attempt_id e \<noteq> None) (take (length foundational) es))
   \<longleftrightarrow> map ev_kind (take 4 es) = foundational \<and> (\<forall>e \<in> set (take 4 es). ev_attempt_id e = None)"
proof -
  have "4 \<le> length es" if "map ev_kind (take 4 es) = foundational"
    using arg_cong [OF that, of length] by simp
  then show ?thesis by (auto simp: list_ex_iff)
qed

text \<open>The checks of \<open>verify_event_completeness\<close> on a healthy log, as a conjunction.\<close>

lemma verify_event_completeness_checks:
  fixes s :: "'cap mission_store"
  assumes healthy: "\<not> mx_poisoned (ms_events s)"
  shows "verify_event_completeness s = Inr () \<longleftrightarrow>
      (map ev_kind (take 4 (events s)) = foundational \<and> (\<forall>e \<in> set (take 4 (events s)). ev_attempt_id e = None))
      \<and> numbered ev_sequence (events s) \<and> (\<forall>e \<in> set (events s). ev_mission_id e = me_mission_id (ms_mission s))
      \<and> (\<exists>m. group_attempts (drop 4 (events s)) [] = Inr m
         \<and> allE_loop (\<lambda>(_, ks). validate_attempt ks) m = Inr ()
         \<and> \<not> mx_poisoned (ms_authorization_records s) \<and> \<not> mx_poisoned (ms_authorization_attempts s)
         \<and> (\<exists>n. count_consumed (records s) (mx_value (ms_authorization_attempts s)) [] = Inr n
           \<and> allE_loop (\<lambda>(a, k). if evidence_count m a < k
               then incomplete ''consumed authorization is missing AuthorizationConsumed evidence''
               else Inr ()) n = Inr ()))"
  using healthy
  unfolding verify_event_completeness_def mission_events_def incomplete_def Let_def bindE_eq_Inr lock_eq_Inr
    if_err_eq_Inr numbered_check prefix_check
  by (simp add: list_ex_iff)

lemma verify_event_completeness_iff:
  fixes s :: "'cap mission_store"
  shows "verify_event_completeness s = Inr () \<longleftrightarrow>
    \<not> mx_poisoned (ms_events s) \<and> \<not> mx_poisoned (ms_authorization_records s)
    \<and> \<not> mx_poisoned (ms_authorization_attempts s)
    \<and> history_complete (me_mission_id (ms_mission s)) (events s) (records s)
        (mx_value (ms_authorization_attempts s))"
proof (cases "mx_poisoned (ms_events s)")
  case True
  then show ?thesis by (simp add: verify_event_completeness_def mission_events_def lock_def)
next
  case healthy: False
  define es where "es = events s"
  define bound where "bound = mx_value (ms_authorization_attempts s)"
  let ?text = "''consumed authorization is missing AuthorizationConsumed evidence''"
  note unf = verify_event_completeness_checks [OF healthy, folded es_def bound_def]
  show ?thesis
  proof
    assume "verify_event_completeness s = Inr ()"
    then obtain m n where ok: "group_attempts (drop 4 es) [] = Inr m" "count_consumed (records s) bound [] = Inr n"
      and rest: "map ev_kind (take 4 es) = foundational" "\<forall>e \<in> set (take 4 es). ev_attempt_id e = None"
      "numbered ev_sequence es" "\<forall>e \<in> set es. ev_mission_id e = me_mission_id (ms_mission s)"
      "\<not> mx_poisoned (ms_authorization_records s)" "\<not> mx_poisoned (ms_authorization_attempts s)"
      and loops: "allE_loop (\<lambda>(_, ks). validate_attempt ks) m = Inr ()"
        "allE_loop (\<lambda>(a, k). if evidence_count m a < k then incomplete ?text else Inr ()) n = Inr ()"
      unfolding unf by blast
    from group_attempts_ok [OF ok(1)] count_consumed_ok [OF ok(2)] rest loops healthy show
      "\<not> mx_poisoned (ms_events s) \<and> \<not> mx_poisoned (ms_authorization_records s)
        \<and> \<not> mx_poisoned (ms_authorization_attempts s)
        \<and> history_complete (me_mission_id (ms_mission s)) (events s) (records s) (mx_value (ms_authorization_attempts s))"
      unfolding attempts_checked [OF ok(1)] evidence_checked [OF ok]
      by (simp add: history_complete_def es_def [symmetric] bound_def [symmetric])
  next
    assume r: "\<not> mx_poisoned (ms_events s) \<and> \<not> mx_poisoned (ms_authorization_records s)
        \<and> \<not> mx_poisoned (ms_authorization_attempts s)
        \<and> history_complete (me_mission_id (ms_mission s)) (events s) (records s) (mx_value (ms_authorization_attempts s))"
    then have h: "history_complete (me_mission_id (ms_mission s)) es (records s) bound"
      by (simp add: es_def bound_def)
    then obtain m n where ok: "group_attempts (drop 4 es) [] = Inr m" "count_consumed (records s) bound [] = Inr n"
      using group_attempts_total [of "drop 4 es" "[]"] count_consumed_total [of "records s" bound "[]"]
      unfolding history_complete_def by auto
    have "allE_loop (\<lambda>(_, ks). validate_attempt ks) m = Inr ()"
      "allE_loop (\<lambda>(a, k). if evidence_count m a < k then incomplete ?text else Inr ()) n = Inr ()"
      using h unfolding attempts_checked [OF ok(1)] evidence_checked [OF ok] history_complete_def by blast+
    with ok h r show "verify_event_completeness s = Inr ()"
      unfolding unf history_complete_def by blast
  qed
qed

section \<open>What a complete attempt contains\<close>

text \<open>Only the phase \<open>Granted\<close> takes a consumption, and it is never entered twice.\<close>

lemma no_consumption_left:
  "p \<in> {Spent, Running, Ended} \<Longrightarrow> attempt_run p ks = Some q \<Longrightarrow> AuthorizationConsumed \<notin> set ks"
proof (induction ks arbitrary: p)
  case (Cons k ks)
  from Cons.prems(2) obtain p' where p': "attempt_step p k = Some p'" "attempt_run p' ks = Some q"
    by (auto split: option.splits)
  have "p' \<in> {Spent, Running, Ended} \<and> k \<noteq> AuthorizationConsumed"
    using Cons.prems(1) p'(1) by (auto split: if_splits)
  with Cons.IH [of p'] p'(2) show ?case by auto
qed simp

definition activation_steps :: "mission_event_kind list" where
  "activation_steps = [ProtocolAccepted, PlanAccepted, ActionAuthorized, AuthorizationIssued]"

lemma consumption_evidence:
  assumes "tail_complete Begun ks" and "AuthorizationConsumed \<in> set ks"
  shows "\<exists>rest. ks = activation_steps @ AuthorizationConsumed # rest \<and> AuthorizationConsumed \<notin> set rest"
  using assms by (auto simp: tail_complete_unfold activation_steps_def)

lemma complete_consumed_once:
  assumes "tail_complete Begun ks"
  shows "length (filter (\<lambda>k. k = AuthorizationConsumed) ks) \<le> 1"
proof (cases "AuthorizationConsumed \<in> set ks")
  case True
  from consumption_evidence [OF assms True] show ?thesis
    by (auto simp: activation_steps_def filter_empty_conv)
next
  case False
  then have "filter (\<lambda>k. k = AuthorizationConsumed) ks = []" by (auto simp: filter_empty_conv)
  then show ?thesis by simp
qed

lemma complete_starts_consumed:
  "tail_complete Begun ks \<Longrightarrow> ExecutionStarted \<in> set ks \<Longrightarrow>
   \<exists>k. ks = activation_steps @ [AuthorizationConsumed, ExecutionStarted, k]
     \<and> (k = ExecutionCompleted \<or> is_EvExecutionFailed k)"
  by (auto simp: tail_complete_unfold activation_steps_def)

lemma complete_not_extended:
  "tail_complete p ks \<Longrightarrow> tail_complete p (ks @ ls) \<Longrightarrow> ls = []"
  by (simp add: tail_complete_def attempt_run_append run_from_Ended)

lemma history_one_consumption_per_attempt:
  assumes h: "history_complete m es rs bound"
  shows "length (consumed_for a bound rs) \<le> 1"
proof -
  let ?ks = "attempt_kinds a (drop 4 es)"
  have le: "length (consumed_for a bound rs) \<le> length (filter (\<lambda>k. k = AuthorizationConsumed) ?ks)"
    using h by (simp add: history_complete_def)
  have "?ks = [] \<or> tail_complete Begun ?ks" using h unfolding history_complete_def by blast
  then have "length (filter (\<lambda>k. k = AuthorizationConsumed) ?ks) \<le> 1"
    using complete_consumed_once by auto
  with le show ?thesis by simp
qed

lemma history_evidence:
  assumes h: "history_complete m es rs bound" and r: "r \<in> set rs" "az_state r = Consumed"
  shows "\<exists>a rest. map_of bound (az_record_id r) = Some a \<and> consumed_for a bound rs = [r]
    \<and> attempt_kinds a (drop 4 es) = activation_steps @ AuthorizationConsumed # rest"
proof -
  have "map_of bound (az_record_id r) \<noteq> None" using h r by (simp add: history_complete_def)
  then obtain a where a: "map_of bound (az_record_id r) = Some a" by blast
  let ?ks = "attempt_kinds a (drop 4 es)"
  have mem: "r \<in> set (consumed_for a bound rs)" using r a by (simp add: consumed_for_def)
  then have one: "consumed_for a bound rs = [r]"
    using history_one_consumption_per_attempt [OF h, of a] by (cases "consumed_for a bound rs") auto
  have "length (consumed_for a bound rs) \<le> length (filter (\<lambda>k. k = AuthorizationConsumed) ?ks)"
    using h by (simp add: history_complete_def)
  then have ev: "AuthorizationConsumed \<in> set ?ks" using one by (auto simp: filter_empty_conv Suc_le_eq)
  moreover have "?ks = [] \<or> tail_complete Begun ?ks" using h unfolding history_complete_def by blast
  ultimately have "tail_complete Begun ?ks" by auto
  from consumption_evidence [OF this ev] a one show ?thesis by blast
qed

end
