(* ===== verification/StoreProperties.thy ===== *)
theory StoreProperties
  imports StoreHistory DemoPlatform
begin

text \<open>
  The properties of the mission store: single use of an authorization, atomicity of its consumption
  with the commit, and the check of the recorded history.
\<close>

section \<open>An example store\<close>

definition demo_record :: authorization_record where
  "demo_record = \<lparr>az_record_id = ''auth-1'', az_action_ref = ActionRef demo_digest, az_authority_chain = [],
     az_total_budget = \<lparr>bu_actions = 1\<rparr>, az_remaining_budget = \<lparr>bu_actions = 1\<rparr>, az_state = Issued,
     az_stable_idempotency_key = ''aeon-r1'', az_effect_class = ReadOnly, az_generation = 0\<rparr>"

definition demo_store :: "string mission_store" where
  "demo_store = (new_store demo_mission)\<lparr>ms_next_attempt_id := 1,
     ms_authorization_records := new_mutex [demo_record],
     ms_authorization_attempts := new_mutex [(''auth-1'', 1)]\<rparr>"

definition demo_trace :: "mission_event list" where
  "demo_trace = foldl (\<lambda>es (a, k). push_mission_event ''m1'' a k 2 es) []
     (map (\<lambda>k. (None, k)) foundational @
      map (\<lambda>k. (Some 1, k)) (activation_steps @ [AuthorizationConsumed, ExecutionStarted, ExecutionCompleted]))"

definition demo_history :: "string mission_store" where
  "demo_history = (spend ''auth-1'' demo_store)\<lparr>ms_events := new_mutex demo_trace\<rparr>"

lemma demo_lookup:
  "lookup_record demo_store ''auth-1'' = Some demo_record" "available 0 demo_record"
  "\<not> mx_poisoned (ms_authorization_records demo_store)"
  by (simp_all add: demo_store_def demo_record_def available_def new_mutex_def)

lemma demo_consumed:
  "consume_authorization_with ''auth-1'' 0 (\<lambda>n. (Inr (), Suc n)) (demo_store, 0) =
     (Inr (), spend ''auth-1'' demo_store, Suc 0)"
proof -
  have "may_spend ''auth-1'' 0 demo_store = Inr (records demo_store)"
    using demo_lookup by (simp add: may_spend_ok)
  then show ?thesis by (simp add: consume_with_cases)
qed

section \<open>Single use\<close>

text \<open>C17: An authorization is used at most once. When a commit that consumes an authorization record
  has succeeded, then after any further operations on the store every attempt to consume the record
  again, with whatever generation, is refused with an authorization or lock error, the commit
  closure is not called and neither the store nor the state of the closure changes.\<close>

theorem authorization_single_use:
  assumes "consume_authorization_with i g commit (s, t) = (Inr x, s', t')" and "store_run s' u"
  shows "\<forall>h. \<exists>e. code e \<in> {AuthorizationInvalid, Internal} \<and> consume_authorization i h u = (Inl e, u)
    \<and> (\<forall>again v. consume_authorization_with i h again (u, v) = (Inl e, u, v))"
proof -
  obtain rs where "may_spend i g s = Inr rs" and s': "s' = spend i s"
    using assms(1) unfolding consume_with_cases by (auto split: sum.splits prod.splits)
  then have "spent i s'" by (auto simp: may_spend_ok spent_def lookup_spend)
  then have "spent i u" using spent_run [OF assms(2)] by blast
  show ?thesis
  proof
    fix h
    obtain e where "may_spend i h u = Inl e" "code e \<in> {AuthorizationInvalid, Internal}"
      using spent_refused [OF \<open>spent i u\<close>, of h] by blast
    then show "\<exists>e. code e \<in> {AuthorizationInvalid, Internal} \<and> consume_authorization i h u = (Inl e, u)
        \<and> (\<forall>again v. consume_authorization_with i h again (u, v) = (Inl e, u, v))"
      by (intro exI [of _ e]) (simp add: consume_with_cases consume_via_may_spend)
  qed
qed

theorem authorization_single_use_witness:
  "\<exists>e. consume_authorization ''auth-1'' 1 (spend ''auth-1'' demo_store) = (Inl e, spend ''auth-1'' demo_store)"
  using authorization_single_use [OF demo_consumed store_refl] by blast

text \<open>C18: Consuming an authorization and committing are one atomic step. When the record is present, issued,
  at the expected generation and has budget left, the closure is run on the given state; if it
  succeeds the record, and only this record, becomes consumed with the next generation and one
  action less, without underflow, and if it fails the store is unchanged. In every other case the
  closure is not run and nothing changes.\<close>

theorem consumption_is_atomic:
  "(lookup_record s i = Some r \<and> available g r \<and> \<not> mx_poisoned (ms_authorization_records s) \<longrightarrow>
      (case commit t of
         (Inl e, t') \<Rightarrow> consume_authorization_with i g commit (s, t) = (Inl e, s, t')
       | (Inr x, t') \<Rightarrow> \<exists>s' r'. consume_authorization_with i g commit (s, t) = (Inr x, s', t')
           \<and> (\<forall>j. lookup_record s' j = (if j = i then Some r' else lookup_record s j))
           \<and> ms_events s' = ms_events s \<and> ms_authorization_attempts s' = ms_authorization_attempts s
           \<and> az_state r' = Consumed \<and> az_generation r' = g + 1 \<and> az_action_ref r' = az_action_ref r
           \<and> unat (bu_actions (az_remaining_budget r')) + 1 = unat (bu_actions (az_remaining_budget r))))
   \<and> ((\<forall>r. lookup_record s i = Some r \<longrightarrow> \<not> available g r) \<or> mx_poisoned (ms_authorization_records s) \<longrightarrow>
      (\<exists>e. consume_authorization_with i g commit (s, t) = (Inl e, s, t)))"
proof (intro conjI impI)
  assume a: "lookup_record s i = Some r \<and> available g r \<and> \<not> mx_poisoned (ms_authorization_records s)"
  then have m: "may_spend i g s = Inr (records s)" by (simp add: may_spend_ok)
  show "case commit t of
         (Inl e, t') \<Rightarrow> consume_authorization_with i g commit (s, t) = (Inl e, s, t')
       | (Inr x, t') \<Rightarrow> \<exists>s' r'. consume_authorization_with i g commit (s, t) = (Inr x, s', t')
           \<and> (\<forall>j. lookup_record s' j = (if j = i then Some r' else lookup_record s j))
           \<and> ms_events s' = ms_events s \<and> ms_authorization_attempts s' = ms_authorization_attempts s
           \<and> az_state r' = Consumed \<and> az_generation r' = g + 1 \<and> az_action_ref r' = az_action_ref r
           \<and> unat (bu_actions (az_remaining_budget r')) + 1 = unat (bu_actions (az_remaining_budget r))"
  proof (cases "commit t")
    case (Pair q t')
    have fields: "az_generation (consumed_record r) = g + 1"
      "unat (bu_actions (az_remaining_budget (consumed_record r))) + 1 = unat (bu_actions (az_remaining_budget r))"
      using a by (auto simp: available_def unat_minus_one unat_gt_0)
    show ?thesis
    proof (cases q)
      case (Inl e)
      then show ?thesis by (simp add: Pair consume_with_cases m)
    next
      case (Inr x)
      have "consume_authorization_with i g commit (s, t) = (Inr x, spend i s, t')"
        by (simp add: Pair Inr consume_with_cases m)
      then show ?thesis using a fields unfolding Pair Inr
        by (simp add: lookup_spend frame_simps)
    qed
  qed
next
  assume "(\<forall>r. lookup_record s i = Some r \<longrightarrow> \<not> available g r) \<or> mx_poisoned (ms_authorization_records s)"
  then have "may_spend i g s \<noteq> Inr rs" for rs by (auto simp: may_spend_ok)
  then obtain e where "may_spend i g s = Inl e" by (cases "may_spend i g s") auto
  then show "\<exists>e. consume_authorization_with i g commit (s, t) = (Inl e, s, t)"
    by (simp add: consume_with_cases)
qed

theorem consumption_is_atomic_witness:
  "\<exists>s' r'. consume_authorization_with ''auth-1'' 0 (\<lambda>n. (Inr (), Suc n)) (demo_store, 0) = (Inr (), s', Suc 0)
    \<and> lookup_record s' ''auth-1'' = Some r' \<and> unat (bu_actions (az_remaining_budget r')) = 0"
proof -
  from consumption_is_atomic [where s = demo_store and i = "''auth-1''" and r = demo_record and g = 0
      and commit = "\<lambda>n. (Inr (), Suc n)" and t = 0]
  obtain s' r' where s': "consume_authorization_with ''auth-1'' 0 (\<lambda>n. (Inr (), Suc n)) (demo_store, 0) = (Inr (), s', Suc 0)"
    and r': "\<forall>j. lookup_record s' j = (if j = ''auth-1'' then Some r' else lookup_record demo_store j)"
    and u: "unat (bu_actions (az_remaining_budget r')) + 1 = unat (bu_actions (az_remaining_budget demo_record))"
    by (simp add: demo_lookup del: neq0_conv) metis
  have "lookup_record s' ''auth-1'' = Some r'" using r' by presburger
  moreover have "unat (bu_actions (az_remaining_budget r')) = 0" using u by (simp add: demo_record_def)
  ultimately show ?thesis using s' by blast
qed

section \<open>The recorded history\<close>

text \<open>C19: The check of the recorded history is exact. It accepts a store precisely when no lock is
  poisoned, the events begin with the four activation events outside any attempt, are numbered from
  one without gaps and belong to the mission, every later event belongs to an attempt, the events
  of every attempt are a complete run of the attempt state machine, every consumed authorization is
  bound to an attempt, and no attempt has more consumed authorizations than events saying so.\<close>

theorem history_check_exact:
  "verify_event_completeness s = Inr () \<longleftrightarrow>
    \<not> mx_poisoned (ms_events s) \<and> \<not> mx_poisoned (ms_authorization_records s)
    \<and> \<not> mx_poisoned (ms_authorization_attempts s)
    \<and> history_complete (me_mission_id (ms_mission s)) (events s) (records s)
        (mx_value (ms_authorization_attempts s))"
  by (rule verify_event_completeness_iff)

text \<open>C20: In a history that passes the check, every consumed authorization belongs to exactly one attempt,
  it is the only one that attempt consumed, and the events of the attempt show the accepted
  protocol message, the accepted plan, the authorization of the action and its issuance, in this
  order, before the consumption. Nexus was started only in an attempt that consumed one.\<close>

theorem history_shows_consumption:
  assumes "verify_event_completeness s = Inr ()"
  shows "(\<forall>r \<in> set (records s). az_state r = Consumed \<longrightarrow>
      (\<exists>a rest. map_of (mx_value (ms_authorization_attempts s)) (az_record_id r) = Some a
        \<and> consumed_for a (mx_value (ms_authorization_attempts s)) (records s) = [r]
        \<and> attempt_kinds a (drop 4 (events s)) = activation_steps @ AuthorizationConsumed # rest))
    \<and> (\<forall>a. ExecutionStarted \<in> set (attempt_kinds a (drop 4 (events s))) \<longrightarrow>
      (\<exists>k. attempt_kinds a (drop 4 (events s)) = activation_steps @ [AuthorizationConsumed, ExecutionStarted, k]
        \<and> (k = ExecutionCompleted \<or> is_EvExecutionFailed k)))"
proof -
  have h: "history_complete (me_mission_id (ms_mission s)) (events s) (records s)
      (mx_value (ms_authorization_attempts s))"
    using assms by (simp add: verify_event_completeness_iff)
  have "attempt_kinds a (drop 4 (events s)) = [] \<or> tail_complete Begun (attempt_kinds a (drop 4 (events s)))" for a
    using h by (simp add: history_complete_def)
  then show ?thesis using history_evidence [OF h] complete_starts_consumed by (metis empty_iff list.set(1))
qed

lemma demo_history_checks: "verify_event_completeness demo_history = Inr ()"
  by (simp add: verify_event_completeness_def demo_history_def demo_trace_def demo_store_def demo_record_def
      new_store_def demo_mission_def mission_events_def lock_def new_mutex_def spend_def foundational_def
      activation_steps_def push_mission_event_def consumed_record_def validate_attempt_def
      attempt_complete_def attempt_patterns_def evidence_count_def)

theorem history_shows_consumption_witness:
  "\<exists>a rest. attempt_kinds a (drop 4 (events demo_history)) = activation_steps @ AuthorizationConsumed # rest"
proof -
  have "consumed_record demo_record \<in> set (records demo_history)"
    by (simp add: demo_history_def spend_def demo_store_def new_mutex_def demo_record_def)
  with history_shows_consumption [OF demo_history_checks] show ?thesis by fastforce
qed

text \<open>C21: The mission log only grows. Over any operations on a store the events recorded before stay where they
  are with their numbers, and in a store that was created for a mission the events are numbered
  from one without gaps and all carry the id of that mission.\<close>

theorem mission_log_contiguous:
  assumes "store_run (new_store m) s" and "store_run s t"
  shows "log_extends ev_sequence (events s) (events t) \<and> numbered ev_sequence (events t)
    \<and> (\<forall>e \<in> set (events t). ev_mission_id e = me_mission_id m)"
proof -
  have all: "store_run (new_store m) t" using assms by (rule store_run_trans)
  have "ms_mission t = ms_mission (new_store m)"
    using all by (rule store_run_induct_inv [where P = "\<lambda>u. ms_mission u = ms_mission (new_store m)"])
      (simp_all add: op_mission)
  with run_extends [OF assms(2)] run_log_ok [OF all new_store_log] show ?thesis
    by (simp add: log_ok_def new_store_def)
qed

theorem mission_log_contiguous_witness:
  "numbered ev_sequence (events (run_store_op (OpAppend MissionCreated 1) (new_store demo_mission)))"
  using mission_log_contiguous [OF store_refl store_step [OF store_refl refl], of demo_mission "OpAppend MissionCreated 1"]
  by blast

end
