(* ===== verification/ToolRegistry.thy ===== *)
theory ToolRegistry
  imports ActionModel
begin

text \<open>
  The trusted tool registry (\<open>tool_registry.rs\<close>): tool manifests and their digests, registered
  tools, coherent snapshots of the registry taken under one lock, the closed JSON schema language,
  and the validation of a tool's input against its schema.
\<close>

section \<open>Schemas\<close>

definition SUPPORTED_KEYWORDS :: "string list" where
  "SUPPORTED_KEYWORDS = [''type'', ''required'', ''properties'', ''additionalProperties'']"

definition supported_type :: "string \<Rightarrow> bool" where
  "supported_type t \<longleftrightarrow> t \<in> {''object'', ''array'', ''string'', ''number'', ''integer'', ''boolean'', ''null''}"

lemma size_json_member: "map_of es k = Some v \<Longrightarrow> size v < size (JObject es)"
  by (drule map_of_SomeD, drule size_member_json) (simp add: less_Suc_eq_le)

lemma size_json_values: "v \<in> set (map snd es) \<Longrightarrow> size v < size (JObject es)"
  using size_member_json [of _ v es] by auto

lemma size_property:
  "map_of es k = Some (JObject ps) \<Longrightarrow> v \<in> set (map snd ps) \<Longrightarrow> size v < size (JObject es)"
  using size_json_member size_json_values less_trans by blast

function (sequential) validate_schema_definition :: "json \<Rightarrow> unit result" where
  "validate_schema_definition (JObject schema) =
     (case find (\<lambda>keyword. keyword \<notin> set SUPPORTED_KEYWORDS) (map fst schema) of
        Some keyword \<Rightarrow> err InvalidInput (''unsupported schema keyword: '' @ keyword)
      | None \<Rightarrow>
     if (case map_of schema ''type'' of None \<Rightarrow> False
         | Some schema_type \<Rightarrow> \<not> (case as_str schema_type of None \<Rightarrow> False | Some t \<Rightarrow> supported_type t))
     then err InvalidInput ''schema type must name a supported primitive type''
     else if (map_of schema ''required'' \<noteq> None \<or> map_of schema ''properties'' \<noteq> None)
       \<and> Option.bind (map_of schema ''type'') as_str \<noteq> Some ''object''
     then err InvalidInput ''schema required and properties are only supported for type object''
     else bindE (case map_of schema ''required'' of None \<Rightarrow> Inr ()
         | Some required \<Rightarrow> bindE (ok_or InvalidInput ''schema required must be an array'' (as_array required)) (\<lambda>required.
             if list_ex (\<lambda>name. \<not> is_string name) required
             then err InvalidInput ''schema required entries must be strings'' else Inr ())) (\<lambda>_.
     bindE (case map_of schema ''properties'' of None \<Rightarrow> Inr ()
         | Some (JObject properties) \<Rightarrow> allE_loop validate_schema_definition (map snd properties)
         | Some _ \<Rightarrow> err InvalidInput ''schema properties must be an object'') (\<lambda>_.
     if (case map_of schema ''additionalProperties'' of None \<Rightarrow> False | Some value \<Rightarrow> \<not> is_boolean value)
     then err InvalidInput ''schema additionalProperties must be a boolean''
     else Inr ())))"
| "validate_schema_definition _ = err InvalidInput ''tool schema must be a JSON object''"
  by pat_completeness auto
termination
  by (relation "measure size") (use size_property in auto)

definition type_matches :: "string \<Rightarrow> json \<Rightarrow> bool" where
  "type_matches expected_type value =
     (if expected_type = ''object'' then is_object value
      else if expected_type = ''array'' then is_array value
      else if expected_type = ''string'' then is_string value
      else if expected_type = ''number'' then is_number value
      else if expected_type = ''integer'' then as_i64 value \<noteq> None \<or> as_u64 value \<noteq> None
      else if expected_type = ''boolean'' then is_boolean value
      else if expected_type = ''null'' then is_null value
      else False)"

text \<open>The names an array of JSON values holds: \<open>filter_map(Value::as_str)\<close>.\<close>

definition strings_of :: "json list \<Rightarrow> string list" where
  "strings_of vs = List.map_filter as_str vs"

definition schema_properties :: "(string \<times> json) list \<Rightarrow> (string \<times> json) list option" where
  "schema_properties schema = Option.bind (map_of schema ''properties'') as_object"

lemma schema_properties_size:
  "schema_properties schema = Some ps \<Longrightarrow> (name, v) \<in> set ps \<Longrightarrow> size v < size (JObject schema)"
  using size_property [of schema "''properties''" ps v]
  by (force simp: schema_properties_def bind_eq_Some_conv image_iff elim: as_object.elims)

function (sequential) validate_instance :: "json \<Rightarrow> json \<Rightarrow> string \<Rightarrow> unit result"
  and validate_members :: "json \<Rightarrow> json \<Rightarrow> string \<Rightarrow> unit result" where
  "validate_instance schema value path =
     (case Option.bind (json_get ''type'' schema) as_str of
        Some expected_type \<Rightarrow>
          if \<not> type_matches expected_type value
          then err InvalidInput (path @ '' does not match schema type '' @ expected_type)
          else validate_members schema value path
      | None \<Rightarrow> validate_members schema value path)"
| "validate_members (JObject schema) (JObject object) path =
     bindE (case Option.bind (map_of schema ''required'') as_array of
         None \<Rightarrow> Inr ()
       | Some required \<Rightarrow> allE_loop (\<lambda>name.
           if map_of object name = None then err InvalidInput (path @ ''.'' @ name @ '' is required'')
           else Inr ()) (strings_of required)) (\<lambda>_.
     bindE (if map_of schema ''additionalProperties'' = Some (JBool False)
         then allE_loop (\<lambda>name.
           if \<not> (case schema_properties schema of None \<Rightarrow> False | Some known \<Rightarrow> map_of known name \<noteq> None)
           then err InvalidInput (path @ ''.'' @ name @ '' is not allowed'')
           else Inr ()) (map fst object)
         else Inr ()) (\<lambda>_.
     (case schema_properties schema of None \<Rightarrow> Inr ()
      | Some properties \<Rightarrow> allE_loop (\<lambda>(name, property_schema).
          (case map_of object name of None \<Rightarrow> Inr ()
           | Some property \<Rightarrow> validate_instance property_schema property (path @ ''.'' @ name))) properties)))"
| "validate_members _ _ path = Inr ()"
  by pat_completeness auto
termination
  by (relation "measure (\<lambda>x. case x of Inl (s, v, p) \<Rightarrow> 2 * size s + 1 | Inr (s, v, p) \<Rightarrow> 2 * size s)")
    (use schema_properties_size in fastforce)+

section \<open>Tool manifests\<close>

record 'cap tool_manifest =
  tm_version :: u64
  tm_tool_id :: tool_id
  tm_wasm_sha256 :: string
  tm_entry_point :: string
  tm_input_schema_digest :: digest
  tm_required_capabilities :: "'cap list"
  tm_effect_class :: effect_class
  tm_output_schema_digest :: "digest option"

definition hex_sha256 :: "'cap platform \<Rightarrow> byte list \<Rightarrow> string" where
  "hex_sha256 P bytes = concat (map hex_byte (sha256 P bytes))"

text \<open>Capabilities are sorted by their serialized text and read back.\<close>

definition sort_capabilities :: "'cap platform \<Rightarrow> 'cap list \<Rightarrow> 'cap list result" where
  "sort_capabilities P cs =
     bindE (map_err (\<lambda>e. RuntimeError InvalidInput (''capability serialization failed: '' @ e))
       (mapE (cap_to_string P) cs)) (\<lambda>serialized.
     bindE (map_err (\<lambda>e. RuntimeError InvalidInput (''capability deserialization failed: '' @ e))
       (mapE (cap_from_str P) (sort serialized))) (\<lambda>sorted_caps.
     Inr (dedup_by id sorted_caps)))"

definition new_tool_manifest ::
  "'cap platform \<Rightarrow> u64 \<Rightarrow> tool_id \<Rightarrow> byte list \<Rightarrow> string \<Rightarrow> json \<Rightarrow> 'cap list \<Rightarrow> effect_class \<Rightarrow> json option
   \<Rightarrow> 'cap tool_manifest result" where
  "new_tool_manifest P version tool_id wasm_bytes entry_point input_schema required_capabilities
       effect_class output_schema =
     (if version = 0 \<or> wasm_bytes = [] \<or> trim_is_empty entry_point
      then err InvalidInput ''tool manifest version, WASM, and entry point must be present''
      else bindE (validate_schema_definition input_schema) (\<lambda>_.
      bindE (case output_schema of None \<Rightarrow> Inr () | Some schema \<Rightarrow> validate_schema_definition schema) (\<lambda>_.
      bindE (sort_capabilities P required_capabilities) (\<lambda>required_capabilities.
      bindE (canonical_digest P ''aeon-tool-input-schema-v1'' (Inr input_schema)) (\<lambda>input_digest.
      bindE (case output_schema of None \<Rightarrow> Inr None
        | Some schema \<Rightarrow> bindE (canonical_digest P ''aeon-tool-output-schema-v1'' (Inr schema)) (\<lambda>d. Inr (Some d)))
        (\<lambda>output_digest.
      Inr \<lparr>tm_version = version, tm_tool_id = tool_id, tm_wasm_sha256 = hex_sha256 P wasm_bytes,
           tm_entry_point = entry_point, tm_input_schema_digest = input_digest,
           tm_required_capabilities = required_capabilities, tm_effect_class = effect_class,
           tm_output_schema_digest = output_digest\<rparr>))))))"

definition tool_manifest_fields :: "'cap tool_manifest \<Rightarrow> json \<Rightarrow> (string \<times> json) list" where
  "tool_manifest_fields m caps =
     [(''version'', json_u64 (tm_version m)),
      (''tool_id'', JString (tm_tool_id m)),
      (''wasm_sha256'', JString (tm_wasm_sha256 m)),
      (''entry_point'', JString (tm_entry_point m)),
      (''input_schema_digest'', digest_value (tm_input_schema_digest m)),
      (''required_capabilities'', caps),
      (''effect_class'', effect_class_value (tm_effect_class m)),
      (''output_schema_digest'', json_option digest_value (tm_output_schema_digest m))]"

definition tool_manifest_value :: "'cap platform \<Rightarrow> 'cap tool_manifest \<Rightarrow> string + json" where
  "tool_manifest_value P m =
     bindE (capabilities_value P (tm_required_capabilities m)) (\<lambda>caps.
     Inr (json_struct (tool_manifest_fields m caps)))"

definition tool_manifest_digest :: "'cap platform \<Rightarrow> 'cap tool_manifest \<Rightarrow> digest result" where
  "tool_manifest_digest P m =
     bindE (sort_capabilities P (tm_required_capabilities m)) (\<lambda>caps.
     canonical_digest P ''aeon-tool-manifest-v1''
       (tool_manifest_value P (m\<lparr>tm_required_capabilities := caps\<rparr>)))"

section \<open>Registered tools\<close>

record 'cap registered_tool =
  rt_manifest :: "'cap tool_manifest"
  rt_wasm_bytes :: "byte list"
  rt_input_schema :: json
  rt_output_schema :: "json option"

definition new_registered_tool ::
  "'cap platform \<Rightarrow> tool_id \<Rightarrow> byte list \<Rightarrow> string \<Rightarrow> json \<Rightarrow> 'cap list \<Rightarrow> effect_class \<Rightarrow> json option
   \<Rightarrow> 'cap registered_tool result" where
  "new_registered_tool P tool_id wasm_bytes entry_point input_schema required_capabilities effect_class
       output_schema =
     bindE (new_tool_manifest P 1 tool_id wasm_bytes entry_point input_schema required_capabilities
       effect_class output_schema) (\<lambda>manifest.
     Inr \<lparr>rt_manifest = manifest, rt_wasm_bytes = wasm_bytes, rt_input_schema = input_schema,
          rt_output_schema = output_schema\<rparr>)"

definition manifest_digest :: "'cap platform \<Rightarrow> 'cap registered_tool \<Rightarrow> digest result" where
  "manifest_digest P t = tool_manifest_digest P (rt_manifest t)"

definition validate_input :: "'cap registered_tool \<Rightarrow> json \<Rightarrow> unit result" where
  "validate_input t input = validate_instance (rt_input_schema t) input ''$''"

text \<open>What Nexus is given for a tool: the builder of its definition is called with these parts.\<close>

record 'cap tool_definition =
  td_name :: string
  td_wasm_bytes :: "byte list"
  td_entry :: string
  td_capabilities :: "'cap list"
  td_input_schema :: json

definition tool_definition_of :: "'cap registered_tool \<Rightarrow> 'cap tool_definition" where
  "tool_definition_of t = \<lparr>td_name = tm_tool_id (rt_manifest t), td_wasm_bytes = rt_wasm_bytes t,
     td_entry = tm_entry_point (rt_manifest t), td_capabilities = tm_required_capabilities (rt_manifest t),
     td_input_schema = rt_input_schema t\<rparr>"

section \<open>The registry\<close>

record 'cap tool_registry =
  tr_tools :: "'cap registered_tool list"
  tr_poisoned :: bool

abbreviation registered_id :: "'cap registered_tool \<Rightarrow> tool_id" where
  "registered_id t \<equiv> tm_tool_id (rt_manifest t)"

record 'cap registry_snapshot =
  rs_resolved_tools :: "'cap registered_tool list"
  rs_bound_tools :: "bound_tool list"
  rs_root_digest :: digest

text \<open>Every tool is compared with the tools before it.\<close>

definition from_tools :: "'cap registered_tool list \<Rightarrow> 'cap tool_registry result" where
  "from_tools tools =
     (case first_repeat [] (map registered_id tools) of
        Some _ \<Rightarrow> err DuplicateTool ''duplicate tool id in trusted registry''
      | None \<Rightarrow> Inr \<lparr>tr_tools = tools, tr_poisoned = False\<rparr>)"

definition read_tools :: "'cap tool_registry \<Rightarrow> 'cap registered_tool list result" where
  "read_tools r = (if tr_poisoned r then err Internal ''tool registry lock poisoned'' else Inr (tr_tools r))"

definition find_tool :: "'cap registered_tool list \<Rightarrow> tool_id \<Rightarrow> 'cap registered_tool result" where
  "find_tool tools tool_id =
     ok_or UnknownTool ''tool is not registered'' (find (\<lambda>tool. registered_id tool = tool_id) tools)"

definition resolve_tool :: "'cap tool_registry \<Rightarrow> tool_id \<Rightarrow> 'cap registered_tool result" where
  "resolve_tool r tool_id = bindE (read_tools r) (\<lambda>tools. find_tool tools tool_id)"

definition root_entry :: "'cap platform \<Rightarrow> 'cap registered_tool \<Rightarrow> json result" where
  "root_entry P tool = bindE (manifest_digest P tool) (\<lambda>d.
     Inr (json_struct [(''tool_id'', JString (registered_id tool)), (''manifest_digest'', digest_value d)]))"

definition root_digest_for_tools :: "'cap platform \<Rightarrow> 'cap registered_tool list \<Rightarrow> digest result" where
  "root_digest_for_tools P tools =
     bindE (mapE (root_entry P) tools) (\<lambda>entries.
     canonical_digest P ''aeon-tool-registry-root-v1'' (Inr (JArray (sort_key (json_display P) entries))))"

definition bind_tool :: "'cap platform \<Rightarrow> 'cap registered_tool \<Rightarrow> bound_tool result" where
  "bind_tool P tool = bindE (manifest_digest P tool) (\<lambda>d. Inr (BoundTool (registered_id tool) d))"

definition snapshot_for_tools ::
  "'cap platform \<Rightarrow> 'cap registered_tool list \<Rightarrow> tool_id list \<Rightarrow> 'cap registry_snapshot result" where
  "snapshot_for_tools P tools tool_ids =
     bindE (mapE (find_tool tools) tool_ids) (\<lambda>resolved_tools.
     bindE (mapE (bind_tool P) resolved_tools) (\<lambda>bound_tools.
     bindE (root_digest_for_tools P tools) (\<lambda>root_digest.
     Inr \<lparr>rs_resolved_tools = resolved_tools, rs_bound_tools = bound_tools, rs_root_digest = root_digest\<rparr>)))"

definition refresh_capability_manifest_for_tools ::
  "'cap platform \<Rightarrow> 'cap registered_tool list \<Rightarrow> 'cap capability_manifest \<Rightarrow> 'cap capability_manifest result" where
  "refresh_capability_manifest_for_tools P tools template =
     (let tool_ids = map bt_tool_id (cm_approved_tools template) in
      bindE (map_err (\<lambda>error. if code error = UnknownTool
             then RuntimeError UnknownTool ''manifest-bound tool is not registered'' else error)
          (snapshot_for_tools P tools tool_ids)) (\<lambda>snap.
      Inr (template\<lparr>cm_approved_tools := rs_bound_tools snap,
             cm_tool_registry_root_digest := rs_root_digest snap\<rparr>)))"

definition registry_snapshot_of ::
  "'cap platform \<Rightarrow> 'cap tool_registry \<Rightarrow> tool_id list \<Rightarrow> 'cap registry_snapshot result" where
  "registry_snapshot_of P r tool_ids = bindE (read_tools r) (\<lambda>tools. snapshot_for_tools P tools tool_ids)"

definition resolve_all ::
  "'cap platform \<Rightarrow> 'cap tool_registry \<Rightarrow> tool_id list \<Rightarrow> 'cap registered_tool list result" where
  "resolve_all P r tool_ids = bindE (registry_snapshot_of P r tool_ids) (\<lambda>snap. Inr (rs_resolved_tools snap))"

definition registry_root_digest :: "'cap platform \<Rightarrow> 'cap tool_registry \<Rightarrow> digest result" where
  "registry_root_digest P r = bindE (read_tools r) (root_digest_for_tools P)"

definition refresh_capability_manifest ::
  "'cap platform \<Rightarrow> 'cap tool_registry \<Rightarrow> 'cap capability_manifest \<Rightarrow> 'cap capability_manifest result" where
  "refresh_capability_manifest P r template =
     bindE (read_tools r) (\<lambda>tools. refresh_capability_manifest_for_tools P tools template)"

definition resolve_with_capability_manifest ::
  "'cap platform \<Rightarrow> 'cap tool_registry \<Rightarrow> tool_id \<Rightarrow> 'cap capability_manifest
   \<Rightarrow> ('cap registered_tool \<times> 'cap capability_manifest) result" where
  "resolve_with_capability_manifest P r tool_id template =
     bindE (read_tools r) (\<lambda>tools.
     bindE (find_tool tools tool_id) (\<lambda>selected.
     bindE (refresh_capability_manifest_for_tools P tools template) (\<lambda>manifest.
     Inr (selected, manifest))))"

section \<open>What a snapshot holds\<close>

lemma from_tools_ok [result_simps]:
  "from_tools tools = Inr r \<longleftrightarrow> distinct (map registered_id tools) \<and> r = \<lparr>tr_tools = tools, tr_poisoned = False\<rparr>"
proof (cases "first_repeat [] (map registered_id tools)")
  case None
  then have "distinct (map registered_id tools)" by simp
  then show ?thesis unfolding from_tools_def None by auto
next
  case (Some t)
  then have "\<not> distinct (map registered_id tools)" by (metis first_repeat_distinct option.distinct(1))
  then show ?thesis unfolding from_tools_def Some by auto
qed

lemma read_tools_ok [result_simps]: "read_tools r = Inr ts \<longleftrightarrow> \<not> tr_poisoned r \<and> ts = tr_tools r"
  by (auto simp: read_tools_def)

lemma find_tool_ok:
  "find_tool tools i = Inr t \<Longrightarrow> t \<in> set tools \<and> registered_id t = i"
  by (auto simp: find_tool_def ok_or_eq_Inr find_Some_iff)

lemma find_tool_member:
  assumes "distinct (map registered_id tools)" and "t \<in> set tools"
  shows "find_tool tools (registered_id t) = Inr t"
  using assms by (induction tools) (auto simp: find_tool_def ok_or_eq_Inr)

lemma bind_tool_ok [result_simps]:
  "bind_tool P t = Inr b \<longleftrightarrow> (\<exists>d. manifest_digest P t = Inr d \<and> b = BoundTool (registered_id t) d)"
  by (auto simp: bind_tool_def bindE_eq_Inr)

lemma snapshot_for_tools_ok:
  "snapshot_for_tools P tools ids = Inr s \<longleftrightarrow>
     mapE (find_tool tools) ids = Inr (rs_resolved_tools s)
     \<and> mapE (bind_tool P) (rs_resolved_tools s) = Inr (rs_bound_tools s)
     \<and> root_digest_for_tools P tools = Inr (rs_root_digest s)"
  unfolding snapshot_for_tools_def bindE_eq_Inr by auto

lemma mapE_member: "mapE f xs = Inr ys \<Longrightarrow> x \<in> set xs \<Longrightarrow> \<exists>y \<in> set ys. f x = Inr y"
  by (induction xs arbitrary: ys) (auto simp: bindE_eq_Inr)

lemma mapE_source: "mapE f xs = Inr ys \<Longrightarrow> y \<in> set ys \<Longrightarrow> \<exists>x \<in> set xs. f x = Inr y"
  by (induction xs arbitrary: ys) (auto simp: bindE_eq_Inr)

lemma refresh_ok:
  "refresh_capability_manifest_for_tools P tools template = Inr m \<longleftrightarrow>
     (\<exists>snap. snapshot_for_tools P tools (map bt_tool_id (cm_approved_tools template)) = Inr snap
       \<and> m = template\<lparr>cm_approved_tools := rs_bound_tools snap, cm_tool_registry_root_digest := rs_root_digest snap\<rparr>)"
  unfolding refresh_capability_manifest_for_tools_def Let_def bindE_eq_Inr map_err_eq_Inr by auto

lemma snapshot_bound_ids:
  assumes "snapshot_for_tools P tools ids = Inr s"
  shows "map bt_tool_id (rs_bound_tools s) = ids"
proof -
  have r: "mapE (find_tool tools) ids = Inr (rs_resolved_tools s)"
    and b: "mapE (bind_tool P) (rs_resolved_tools s) = Inr (rs_bound_tools s)"
    using assms by (simp_all add: snapshot_for_tools_ok)
  have "map bt_tool_id (rs_bound_tools s) = map registered_id (rs_resolved_tools s)"
    using b by (rule mapE_Inr_map) (auto simp: bind_tool_ok)
  also have "\<dots> = map id ids" using r by (rule mapE_Inr_map) (auto dest: find_tool_ok)
  finally show ?thesis by simp
qed

text \<open>Refreshing keeps everything but the bindings and the root, and refreshing twice is refreshing once.\<close>

lemma refresh_ids:
  assumes "refresh_capability_manifest_for_tools P tools template = Inr m"
  shows "map bt_tool_id (cm_approved_tools m) = map bt_tool_id (cm_approved_tools template)"
  using assms snapshot_bound_ids unfolding refresh_ok by fastforce

lemma refresh_idem:
  assumes "refresh_capability_manifest_for_tools P tools template = Inr m"
  shows "refresh_capability_manifest_for_tools P tools m = Inr m"
proof -
  obtain snap where snap: "snapshot_for_tools P tools (map bt_tool_id (cm_approved_tools template)) = Inr snap"
    and m: "m = template\<lparr>cm_approved_tools := rs_bound_tools snap, cm_tool_registry_root_digest := rs_root_digest snap\<rparr>"
    using assms unfolding refresh_ok by blast
  have "map bt_tool_id (cm_approved_tools m) = map bt_tool_id (cm_approved_tools template)"
    using assms by (rule refresh_ids)
  then have "snapshot_for_tools P tools (map bt_tool_id (cm_approved_tools m)) = Inr snap" using snap by simp
  moreover have "m = m\<lparr>cm_approved_tools := rs_bound_tools snap, cm_tool_registry_root_digest := rs_root_digest snap\<rparr>"
    by (simp add: m)
  ultimately show ?thesis unfolding refresh_ok by blast
qed

text \<open>Every binding of a refreshed manifest is to the registered tool of that name, by its live digest.\<close>

lemma refresh_bindings:
  assumes "refresh_capability_manifest_for_tools P tools template = Inr m" and "b \<in> set (cm_approved_tools m)"
  shows "\<exists>t. find_tool tools (bt_tool_id b) = Inr t \<and> manifest_digest P t = Inr (bt_manifest_digest b)"
proof -
  obtain snap where snap: "snapshot_for_tools P tools (map bt_tool_id (cm_approved_tools template)) = Inr snap"
    and m: "cm_approved_tools m = rs_bound_tools snap"
    using assms(1) unfolding refresh_ok by auto
  then obtain t where t: "t \<in> set (rs_resolved_tools snap)" "bind_tool P t = Inr b"
    using mapE_source [of "bind_tool P"] assms(2) unfolding snapshot_for_tools_ok by metis
  obtain i where "find_tool tools i = Inr t"
    using t(1) snap mapE_source [of "find_tool tools"] unfolding snapshot_for_tools_ok by metis
  with t(2) find_tool_ok show ?thesis by (fastforce simp: bind_tool_ok)
qed

lemma resolve_with_ok:
  "resolve_with_capability_manifest P r i template = Inr (t, m) \<longleftrightarrow>
     \<not> tr_poisoned r \<and> find_tool (tr_tools r) i = Inr t
     \<and> refresh_capability_manifest_for_tools P (tr_tools r) template = Inr m"
  unfolding resolve_with_capability_manifest_def bindE_eq_Inr read_tools_ok by auto

lemma refresh_root:
  assumes "refresh_capability_manifest_for_tools P tools template = Inr m"
  shows "root_digest_for_tools P tools = Inr (cm_tool_registry_root_digest m)"
  using assms unfolding refresh_ok snapshot_for_tools_ok by auto

text \<open>A manifest whose bindings and root are current is its own refresh.\<close>

lemma refresh_current:
  assumes "refresh_capability_manifest_for_tools P tools template = Inr m"
    and "root_digest_for_tools P tools = Inr (cm_tool_registry_root_digest template)"
    and "\<forall>b \<in> set (cm_approved_tools template). \<exists>u. find_tool tools (bt_tool_id b) = Inr u
      \<and> manifest_digest P u = Inr (bt_manifest_digest b)"
  shows "m = template"
proof -
  obtain snap where snap: "snapshot_for_tools P tools (map bt_tool_id (cm_approved_tools template)) = Inr snap"
    and m: "m = template\<lparr>cm_approved_tools := rs_bound_tools snap, cm_tool_registry_root_digest := rs_root_digest snap\<rparr>"
    using assms(1) unfolding refresh_ok by blast
  have "rs_bound_tools snap = cm_approved_tools template"
  proof (rule nth_equalityI)
    have ids: "map bt_tool_id (rs_bound_tools snap) = map bt_tool_id (cm_approved_tools template)"
      using snap by (rule snapshot_bound_ids)
    then show len: "length (rs_bound_tools snap) = length (cm_approved_tools template)" by (rule map_eq_imp_length_eq)
    fix n assume n: "n < length (rs_bound_tools snap)"
    let ?b = "rs_bound_tools snap ! n" and ?c = "cm_approved_tools template ! n"
    have id: "bt_tool_id ?b = bt_tool_id ?c" using ids n len by (metis nth_map)
    have "?b \<in> set (cm_approved_tools m)" using n m by simp
    then obtain u where "find_tool tools (bt_tool_id ?b) = Inr u" "manifest_digest P u = Inr (bt_manifest_digest ?b)"
      using refresh_bindings [OF assms(1)] by blast
    moreover have "?c \<in> set (cm_approved_tools template)" using n len by simp
    ultimately have "bt_manifest_digest ?b = bt_manifest_digest ?c" using assms(3) id by fastforce
    with id show "?b = ?c" by (rule bound_tool.expand [OF conjI])
  qed
  moreover have "rs_root_digest snap = cm_tool_registry_root_digest template"
    using snap assms(2) by (simp add: snapshot_for_tools_ok)
  ultimately show ?thesis using m by simp
qed

end
