(* ===== verification/ProtocolGate.thy ===== *)
theory ProtocolGate
  imports ActionModel
begin

text \<open>
  The protocol gate (\<open>protocol.rs\<close>): the closed set of messages a model may send, the descriptor
  that drives their reading and writing, the reading of a message from the members of a JSON object
  as the JSON reader delivers them, and the size limit on the raw output. The detail of a rejection
  leaves out the position in the text that the JSON reader appends.
\<close>

section \<open>Messages and their descriptor\<close>

definition DEFAULT_MAX_OUTPUT_BYTES :: nat where
  "DEFAULT_MAX_OUTPUT_BYTES = 64 * 1024"

record tool_call_proposal =
  tp_tool_id :: tool_id
  tp_arguments :: json

record final_result =
  fr_result :: string

datatype agent_message = ToolCall tool_call_proposal | FinalMessage final_result

datatype protocol_field_shape = ToolIdShape | ObjectShape | StringShape

fun shape_accepts :: "protocol_field_shape \<Rightarrow> json \<Rightarrow> bool" where
  "shape_accepts ToolIdShape v = is_string v"
| "shape_accepts StringShape v = is_string v"
| "shape_accepts ObjectShape v = is_object v"

fun shape_value :: "protocol_field_shape \<Rightarrow> json" where
  "shape_value ToolIdShape = JString ''tool_id''"
| "shape_value ObjectShape = JString ''object''"
| "shape_value StringShape = JString ''string''"

fun shape_debug :: "protocol_field_shape \<Rightarrow> string" where
  "shape_debug ToolIdShape = ''ToolId''"
| "shape_debug ObjectShape = ''Object''"
| "shape_debug StringShape = ''String''"

record protocol_field_schema =
  pf_name :: string
  pf_shape :: protocol_field_shape

record protocol_variant_schema =
  pv_name :: string
  pv_fields :: "protocol_field_schema list"

record protocol_schema =
  ps_tag :: string
  ps_variants :: "protocol_variant_schema list"

definition schema_field :: "protocol_variant_schema \<Rightarrow> string \<Rightarrow> protocol_field_schema option" where
  "schema_field variant name = find (\<lambda>field. pf_name field = name) (pv_fields variant)"

definition TOOL_CALL_FIELDS :: "protocol_field_schema list" where
  "TOOL_CALL_FIELDS = [\<lparr>pf_name = ''tool_id'', pf_shape = ToolIdShape\<rparr>,
     \<lparr>pf_name = ''arguments'', pf_shape = ObjectShape\<rparr>]"

definition FINAL_FIELDS :: "protocol_field_schema list" where
  "FINAL_FIELDS = [\<lparr>pf_name = ''result'', pf_shape = StringShape\<rparr>]"

definition TOOL_CALL_SCHEMA :: protocol_variant_schema where
  "TOOL_CALL_SCHEMA = \<lparr>pv_name = ''tool_call'', pv_fields = TOOL_CALL_FIELDS\<rparr>"

definition FINAL_SCHEMA :: protocol_variant_schema where
  "FINAL_SCHEMA = \<lparr>pv_name = ''final'', pv_fields = FINAL_FIELDS\<rparr>"

definition PROTOCOL_SCHEMA :: protocol_schema where
  "PROTOCOL_SCHEMA = \<lparr>ps_tag = ''kind'', ps_variants = [TOOL_CALL_SCHEMA, FINAL_SCHEMA]\<rparr>"

definition field_schema_value :: "protocol_field_schema \<Rightarrow> json" where
  "field_schema_value f = json_struct [(''name'', JString (pf_name f)), (''shape'', shape_value (pf_shape f))]"

definition variant_schema_value :: "protocol_variant_schema \<Rightarrow> json" where
  "variant_schema_value v = json_struct [(''name'', JString (pv_name v)),
     (''fields'', JArray (map field_schema_value (pv_fields v)))]"

definition schema_digest :: "'cap platform \<Rightarrow> digest result" where
  "schema_digest P = canonical_digest P ''aeon-agent-protocol-schema-v1''
     (Inr (json_struct [(''tag'', JString (ps_tag PROTOCOL_SCHEMA)),
        (''variants'', JArray (map variant_schema_value (ps_variants PROTOCOL_SCHEMA)))]))"

section \<open>Writing\<close>

text \<open>The members a message is written as, in this order.\<close>

fun message_members :: "agent_message \<Rightarrow> string + (string \<times> json) list" where
  "message_members (ToolCall p) =
     (let arguments_field = TOOL_CALL_FIELDS ! 1 in
      if \<not> shape_accepts (pf_shape arguments_field) (tp_arguments p)
      then Inl (pf_name arguments_field @ '' must have '' @ shape_debug (pf_shape arguments_field) @ '' shape'')
      else Inr [(ps_tag PROTOCOL_SCHEMA, JString (pv_name TOOL_CALL_SCHEMA)),
             (pf_name (TOOL_CALL_FIELDS ! 0), JString (tp_tool_id p)),
             (pf_name arguments_field, tp_arguments p)])"
| "message_members (FinalMessage r) =
     Inr [(ps_tag PROTOCOL_SCHEMA, JString (pv_name FINAL_SCHEMA)),
          (pf_name (FINAL_FIELDS ! 0), JString (fr_result r))]"

section \<open>Reading\<close>

fun collect_fields ::
  "(string \<times> json) list \<Rightarrow> (string, json) btree_map \<Rightarrow> string + (string, json) btree_map" where
  "collect_fields [] values = Inr values"
| "collect_fields ((name, value) # members) values =
     (if map_of values name \<noteq> None then Inl (''duplicate protocol field: '' @ name)
      else collect_fields members (bt_insert name value values))"

definition take_field ::
  "(json \<Rightarrow> string + 'a) \<Rightarrow> (string, json) btree_map \<Rightarrow> protocol_field_schema
   \<Rightarrow> string + 'a \<times> (string, json) btree_map" where
  "take_field decode values schema =
     (case map_of values (pf_name schema) of
        None \<Rightarrow> Inl (''missing protocol field: '' @ pf_name schema)
      | Some value \<Rightarrow>
          if \<not> shape_accepts (pf_shape schema) value
          then Inl (''protocol field '' @ pf_name schema @ '' must have '' @ shape_debug (pf_shape schema) @ '' shape'')
          else bindE (map_err (\<lambda>error. ''invalid protocol field '' @ pf_name schema @ '': '' @ error) (decode value))
            (\<lambda>x. Inr (x, filter (\<lambda>(name, _). name \<noteq> pf_name schema) values)))"

fun decode_string :: "json \<Rightarrow> string + string" where
  "decode_string (JString s) = Inr s"
| "decode_string _ = Inl ''invalid type''"

definition decode_tool_id :: "json \<Rightarrow> string + tool_id" where
  "decode_tool_id v = bindE (decode_string v) (\<lambda>s. map_err error_display (new_id ''tool id'' s))"

definition decode_value :: "json \<Rightarrow> string + json" where
  "decode_value v = Inr v"

definition read_variant :: "protocol_variant_schema \<Rightarrow> (string, json) btree_map \<Rightarrow> string + agent_message" where
  "read_variant schema values =
     (case find (\<lambda>name. schema_field schema name = None) (map fst values) of
       Some unknown \<Rightarrow> Inl (''unknown field for '' @ pv_name schema @ '': '' @ unknown)
     | None \<Rightarrow>
     if pv_name schema = pv_name TOOL_CALL_SCHEMA then
       bindE (take_field decode_tool_id values (TOOL_CALL_FIELDS ! 0)) (\<lambda>(tool_id, values).
       bindE (take_field decode_value values (TOOL_CALL_FIELDS ! 1)) (\<lambda>(arguments, values).
       Inr (ToolCall \<lparr>tp_tool_id = tool_id, tp_arguments = arguments\<rparr>)))
     else if pv_name schema = pv_name FINAL_SCHEMA then
       bindE (take_field decode_string values (FINAL_FIELDS ! 0)) (\<lambda>(result, values).
       Inr (FinalMessage \<lparr>fr_result = result\<rparr>))
     else Inl ''protocol schema contains an unsupported variant'')"

definition visit_map :: "json_stream \<Rightarrow> string + agent_message" where
  "visit_map input =
     bindE (collect_fields (js_members input) []) (\<lambda>values.
     case js_broken input of Some error \<Rightarrow> Inl error | None \<Rightarrow>
     bindE (take_field decode_string values \<lparr>pf_name = ps_tag PROTOCOL_SCHEMA, pf_shape = StringShape\<rparr>)
       (\<lambda>(kind, values).
     case find (\<lambda>variant. pv_name variant = kind) (ps_variants PROTOCOL_SCHEMA) of
       None \<Rightarrow> Inl (''unknown protocol variant in '' @ ps_tag PROTOCOL_SCHEMA @ '': '' @ kind)
     | Some schema \<Rightarrow> read_variant schema values))"

definition message_from_str :: "'cap platform \<Rightarrow> string \<Rightarrow> string + agent_message" where
  "message_from_str P raw =
     bindE (visit_map (json_stream P raw)) (\<lambda>message.
     case js_trailing (json_stream P raw) of Some error \<Rightarrow> Inl error | None \<Rightarrow> Inr message)"

section \<open>The gate\<close>

record protocol_gate =
  pg_max_output_bytes :: nat

definition default_gate :: protocol_gate where
  "default_gate = \<lparr>pg_max_output_bytes = DEFAULT_MAX_OUTPUT_BYTES\<rparr>"

definition new_gate :: "nat \<Rightarrow> protocol_gate result" where
  "new_gate max_output_bytes =
     (if max_output_bytes = 0 then err MalformedProtocol ''protocol output limit must be positive''
      else Inr \<lparr>pg_max_output_bytes = max_output_bytes\<rparr>)"

definition parse_message :: "'cap platform \<Rightarrow> protocol_gate \<Rightarrow> string \<Rightarrow> agent_message result" where
  "parse_message P gate raw =
     (if length raw > pg_max_output_bytes gate
      then err OutputTooLarge ''model output exceeds the protocol size limit''
      else map_err (\<lambda>error. RuntimeError MalformedProtocol (''invalid closed agent protocol: '' @ error))
        (message_from_str P raw))"

section \<open>The protocol is closed\<close>

lemma collect_fields_ok:
  "collect_fields ms vs = Inr v \<longleftrightarrow> distinct (map fst ms) \<and> fst ` set ms \<inter> fst ` set vs = {}
     \<and> v = fold (\<lambda>(k, x). bt_insert k x) ms vs"
proof (induction ms arbitrary: vs)
  case (Cons m ms)
  obtain k x where m: "m = (k, x)" by (cases m)
  show ?case unfolding m by (auto simp: Cons.IH map_of_eq_None_iff fst_set_bt_insert)
qed auto

lemma collected_lookup:
  assumes "collect_fields ms [] = Inr v"
  shows "map_of v = map_of ms" and "distinct (map fst ms)"
proof -
  from assms show dist: "distinct (map fst ms)" by (simp add: collect_fields_ok)
  have "v = bt_collect ms" using assms by (simp add: collect_fields_ok bt_collect_def)
  then show "map_of v = map_of ms"
    using dist by (simp add: bt_collect_lookup map_of_mset_cong [of "rev ms" ms] hm_ok_def rev_map [symmetric])
qed

lemma map_of_remove: "map_of (filter (\<lambda>(k, _). k \<noteq> n) m) = (map_of m)(n := None)"
  by (induction m) (auto simp: fun_eq_iff)

lemma take_field_ok:
  "take_field decode values f = Inr (x, rest) \<longleftrightarrow> (\<exists>v. map_of values (pf_name f) = Some v
     \<and> shape_accepts (pf_shape f) v \<and> decode v = Inr x \<and> rest = filter (\<lambda>(k, _). k \<noteq> pf_name f) values)"
  by (auto simp: take_field_def bindE_eq_Inr map_err_eq_Inr split: option.splits if_splits)

lemma decode_string_ok [simp]: "decode_string v = Inr s \<longleftrightarrow> v = JString s"
  by (cases v) auto

lemma decode_tool_id_ok [simp]:
  "decode_tool_id v = Inr i \<longleftrightarrow> v = JString i \<and> validate_identifier ''tool id'' i = Inr ()"
  by (auto simp: decode_tool_id_def bindE_eq_Inr map_err_eq_Inr new_id_eq_Inr)

fun message_ids_ok :: "agent_message \<Rightarrow> bool" where
  "message_ids_ok (ToolCall p) \<longleftrightarrow> validate_identifier ''tool id'' (tp_tool_id p) = Inr ()"
| "message_ids_ok (FinalMessage r) \<longleftrightarrow> True"

lemmas protocol_defs = PROTOCOL_SCHEMA_def TOOL_CALL_SCHEMA_def FINAL_SCHEMA_def TOOL_CALL_FIELDS_def
  FINAL_FIELDS_def

lemma message_members_ToolCall [simp]:
  "message_members (ToolCall p) = Inr ms \<longleftrightarrow> is_object (tp_arguments p) \<and>
     ms = [(''kind'', JString ''tool_call''), (''tool_id'', JString (tp_tool_id p)), (''arguments'', tp_arguments p)]"
  by (auto simp: protocol_defs Let_def)

lemma message_members_Final [simp]:
  "message_members (FinalMessage r) = Inr ms \<longleftrightarrow>
     ms = [(''kind'', JString ''final''), (''result'', JString (fr_result r))]"
  by (auto simp: protocol_defs)

declare message_members.simps [simp del]

lemma unknown_field:
  "find (\<lambda>name. schema_field schema name = None) names = None \<longleftrightarrow> set names \<subseteq> set (map pf_name (pv_fields schema))"
  by (auto simp: find_None_iff schema_field_def)

text \<open>Reading, as what it requires of the members and what it returns.\<close>

lemma read_ToolCall:
  "read_variant TOOL_CALL_SCHEMA values = Inr m \<longleftrightarrow> fst ` set values \<subseteq> {''tool_id'', ''arguments''}
     \<and> (\<exists>i args. m = ToolCall \<lparr>tp_tool_id = i, tp_arguments = args\<rparr>
        \<and> map_of values ''tool_id'' = Some (JString i) \<and> validate_identifier ''tool id'' i = Inr ()
        \<and> map_of values ''arguments'' = Some args \<and> is_object args)"
proof (cases "find (\<lambda>name. schema_field TOOL_CALL_SCHEMA name = None) (map fst values)")
  case None
  then have "fst ` set values \<subseteq> {''tool_id'', ''arguments''}"
    unfolding unknown_field by (simp add: protocol_defs)
  then show ?thesis unfolding read_variant_def None
    by (auto simp: bindE_eq_Inr take_field_ok TOOL_CALL_FIELDS_def decode_value_def map_of_remove)
next
  case (Some n)
  then have "\<not> fst ` set values \<subseteq> {''tool_id'', ''arguments''}"
    using unknown_field [of TOOL_CALL_SCHEMA "map fst values"] by (simp add: protocol_defs)
  then show ?thesis unfolding read_variant_def Some by simp
qed

lemma read_Final:
  "read_variant FINAL_SCHEMA values = Inr m \<longleftrightarrow> fst ` set values \<subseteq> {''result''}
     \<and> (\<exists>r. m = FinalMessage \<lparr>fr_result = r\<rparr> \<and> map_of values ''result'' = Some (JString r))"
proof (cases "find (\<lambda>name. schema_field FINAL_SCHEMA name = None) (map fst values)")
  case None
  then have "fst ` set values \<subseteq> {''result''}"
    unfolding unknown_field by (simp add: protocol_defs)
  then show ?thesis unfolding read_variant_def None
    by (auto simp: bindE_eq_Inr take_field_ok FINAL_FIELDS_def FINAL_SCHEMA_def TOOL_CALL_SCHEMA_def)
next
  case (Some n)
  then have "\<not> fst ` set values \<subseteq> {''result''}"
    using unknown_field [of FINAL_SCHEMA "map fst values"] by (simp add: protocol_defs)
  then show ?thesis unfolding read_variant_def Some by simp
qed

definition protocol_members :: "(string \<times> json) list \<Rightarrow> agent_message \<Rightarrow> bool" where
  "protocol_members ms m \<longleftrightarrow> distinct (map fst ms) \<and> message_ids_ok m
     \<and> (\<exists>ws. message_members m = Inr ws \<and> map_of ms = map_of ws)"

lemma keys_of_map_of: "distinct (map fst es) \<Longrightarrow> map_of es = map_of fs \<Longrightarrow> fst ` set es = fst ` set fs"
  by (metis dom_map_of_conv_image_fst)

lemma map_of_three:
  assumes "fst ` set es \<subseteq> {a, b, c}" and "map_of es a = Some x" "map_of es b = Some y" "map_of es c = Some z"
    and "distinct [a, b, c]"
  shows "map_of es = map_of [(a, x), (b, y), (c, z)]"
proof
  fix k show "map_of es k = map_of [(a, x), (b, y), (c, z)] k"
    using assms by (cases "k \<in> {a, b, c}") (auto simp: map_of_eq_None_iff)
qed

lemma find_variant:
  "find (\<lambda>variant. pv_name variant = kind) (ps_variants PROTOCOL_SCHEMA) =
     (if kind = ''tool_call'' then Some TOOL_CALL_SCHEMA else if kind = ''final'' then Some FINAL_SCHEMA else None)"
  by (auto simp: protocol_defs)

lemma kind_step:
  "bindE (take_field decode_string vs \<lparr>pf_name = ''kind'', pf_shape = StringShape\<rparr>) (\<lambda>(kind, rest).
     case find (\<lambda>variant. pv_name variant = kind) (ps_variants PROTOCOL_SCHEMA) of
       None \<Rightarrow> Inl (text kind) | Some schema \<Rightarrow> read_variant schema rest) = Inr m
   \<longleftrightarrow> (\<exists>s \<in> {TOOL_CALL_SCHEMA, FINAL_SCHEMA}. map_of vs ''kind'' = Some (JString (pv_name s))
        \<and> read_variant s (filter (\<lambda>(k, _). k \<noteq> ''kind'') vs) = Inr m)"
proof (cases "\<exists>kind. map_of vs ''kind'' = Some (JString kind)")
  case True
  then obtain kind where kind: "map_of vs ''kind'' = Some (JString kind)" ..
  then have "take_field decode_string vs \<lparr>pf_name = ''kind'', pf_shape = StringShape\<rparr>
      = Inr (kind, filter (\<lambda>(k, _). k \<noteq> ''kind'') vs)"
    by (simp add: take_field_def)
  then show ?thesis by (simp add: kind find_variant TOOL_CALL_SCHEMA_def FINAL_SCHEMA_def)
next
  case False
  then have "\<exists>e. take_field decode_string vs \<lparr>pf_name = ''kind'', pf_shape = StringShape\<rparr> = Inl e"
    by (auto simp: take_field_def split: option.splits elim: is_string.elims)
  with False show ?thesis by auto
qed

lemma visit_map_ok:
  "visit_map input = Inr m \<longleftrightarrow> js_broken input = None
     \<and> (\<exists>vs. collect_fields (js_members input) [] = Inr vs
        \<and> (\<exists>s \<in> {TOOL_CALL_SCHEMA, FINAL_SCHEMA}. map_of vs ''kind'' = Some (JString (pv_name s))
            \<and> read_variant s (filter (\<lambda>(k, _). k \<noteq> ''kind'') vs) = Inr m))"
proof (cases "js_broken input")
  case None
  have tag: "ps_tag PROTOCOL_SCHEMA = ''kind''" by (simp add: PROTOCOL_SCHEMA_def)
  show ?thesis unfolding visit_map_def None option.case bindE_eq_Inr [of "collect_fields _ _"] tag kind_step by simp
next
  case (Some e)
  then show ?thesis unfolding visit_map_def Some by (simp add: bindE_eq_Inr)
qed

lemma removed_keys: "fst ` set (filter (\<lambda>(k, _). k \<noteq> n) vs) \<subseteq> A \<longleftrightarrow> fst ` set vs \<subseteq> insert n A"
  by (auto simp: image_subset_iff)

lemma protocol_members_ToolCall:
  "protocol_members ms (ToolCall \<lparr>tp_tool_id = i, tp_arguments = args\<rparr>) \<longleftrightarrow> distinct (map fst ms)
     \<and> fst ` set ms \<subseteq> {''kind'', ''tool_id'', ''arguments''}
     \<and> map_of ms ''kind'' = Some (JString ''tool_call'') \<and> map_of ms ''tool_id'' = Some (JString i)
     \<and> map_of ms ''arguments'' = Some args \<and> is_object args \<and> validate_identifier ''tool id'' i = Inr ()"
  (is "?l \<longleftrightarrow> ?r")
proof
  assume ?l
  then have eq: "map_of ms = map_of [(''kind'', JString ''tool_call''), (''tool_id'', JString i), (''arguments'', args)]"
    and dist: "distinct (map fst ms)" and rest: "is_object args" "validate_identifier ''tool id'' i = Inr ()"
    by (auto simp: protocol_members_def)
  from keys_of_map_of [OF dist eq] dist rest show ?r unfolding eq by simp
next
  assume r: ?r
  then have "map_of ms = map_of [(''kind'', JString ''tool_call''), (''tool_id'', JString i), (''arguments'', args)]"
    by (intro map_of_three) simp_all
  with r show ?l unfolding protocol_members_def by simp
qed

lemma protocol_members_Final:
  "protocol_members ms (FinalMessage \<lparr>fr_result = r\<rparr>) \<longleftrightarrow> distinct (map fst ms)
     \<and> fst ` set ms \<subseteq> {''kind'', ''result''}
     \<and> map_of ms ''kind'' = Some (JString ''final'') \<and> map_of ms ''result'' = Some (JString r)"
  (is "?l \<longleftrightarrow> ?r")
proof
  assume ?l
  then have eq: "map_of ms = map_of [(''kind'', JString ''final''), (''result'', JString r)]"
    and dist: "distinct (map fst ms)" by (auto simp: protocol_members_def)
  from keys_of_map_of [OF dist eq] dist show ?r unfolding eq by simp
next
  assume r: ?r
  have "map_of ms k = map_of [(''kind'', JString ''final''), (''result'', JString r)] k" for k
    using r by (cases "k \<in> {''kind'', ''result''}") (auto simp: map_of_eq_None_iff)
  then have "map_of ms = map_of [(''kind'', JString ''final''), (''result'', JString r)]" ..
  with r show ?l unfolding protocol_members_def by simp
qed

lemma visit_map_iff:
  "visit_map input = Inr m \<longleftrightarrow> js_broken input = None \<and> protocol_members (js_members input) m"
proof (cases "distinct (map fst (js_members input))")
  case False
  then show ?thesis by (auto simp: visit_map_ok protocol_members_def collect_fields_ok)
next
  case True
  define vs where "vs = bt_collect (js_members input)"
  have ok: "collect_fields (js_members input) [] = Inr vs"
    using True by (simp add: collect_fields_ok vs_def bt_collect_def)
  have look: "map_of vs = map_of (js_members input)" using collected_lookup [OF ok] by simp
  have keys: "fst ` set vs = fst ` set (js_members input)"
    using look by (metis dom_map_of_conv_image_fst)
  have only: "(\<exists>vs. collect_fields (js_members input) [] = Inr vs \<and> Q vs) \<longleftrightarrow> Q vs" for Q using ok by auto
  show ?thesis
  proof (cases m)
    case (ToolCall p)
    obtain i args where p: "p = \<lparr>tp_tool_id = i, tp_arguments = args\<rparr>" by (cases p)
    show ?thesis
      unfolding visit_map_ok only ToolCall p protocol_members_ToolCall read_ToolCall read_Final bex_simps
        map_of_remove removed_keys keys look
      using True by (auto simp: TOOL_CALL_SCHEMA_def)
  next
    case (FinalMessage r)
    obtain t where r: "r = \<lparr>fr_result = t\<rparr>" by (cases r)
    show ?thesis
      unfolding visit_map_ok only FinalMessage r protocol_members_Final read_ToolCall read_Final bex_simps
        map_of_remove removed_keys keys look
      using True by (auto simp: FINAL_SCHEMA_def)
  qed
qed

lemma protocol_members_perm:
  "protocol_members ms m \<longleftrightarrow> message_ids_ok m \<and> (\<exists>ws. message_members m = Inr ws \<and> mset ms = mset ws)"
proof
  assume "protocol_members ms m"
  then obtain ws where ws: "message_members m = Inr ws" "map_of ms = map_of ws" and dist: "distinct (map fst ms)"
    and ids: "message_ids_ok m" by (auto simp: protocol_members_def)
  have dw: "distinct (map fst ws)" using ws(1) by (cases m) auto
  have "set ms = set ws" using map_of_inject_set [OF dist dw] ws(2) by simp
  moreover have "distinct ms" "distinct ws" using dist dw by (simp_all add: distinct_map)
  ultimately have "mset ms = mset ws" by (simp add: set_eq_iff_mset_eq_distinct)
  with ws(1) ids show "message_ids_ok m \<and> (\<exists>ws. message_members m = Inr ws \<and> mset ms = mset ws)" by blast
next
  assume "message_ids_ok m \<and> (\<exists>ws. message_members m = Inr ws \<and> mset ms = mset ws)"
  then obtain ws where ws: "message_members m = Inr ws" "mset ms = mset ws" and ids: "message_ids_ok m" by blast
  have dw: "distinct (map fst ws)" using ws(1) by (cases m) auto
  then have "map_of ws = map_of ms" by (intro map_of_mset_cong) (simp_all add: hm_ok_def ws)
  moreover have "distinct (map fst ms)" using dw ws(2) by (metis mset_eq_imp_distinct_iff mset_map)
  ultimately show "protocol_members ms m" using ws(1) ids by (auto simp: protocol_members_def)
qed

lemma parse_message_ok:
  "parse_message P gate raw = Inr m \<longleftrightarrow> length raw \<le> pg_max_output_bytes gate
     \<and> js_broken (json_stream P raw) = None \<and> js_trailing (json_stream P raw) = None
     \<and> protocol_members (js_members (json_stream P raw)) m"
  unfolding parse_message_def if_err_eq_Inr map_err_eq_Inr message_from_str_def bindE_eq_Inr visit_map_iff
  by (auto split: option.splits)

lemma parse_message_code:
  "parse_message P gate raw = Inl e \<Longrightarrow> code e = (if length raw > pg_max_output_bytes gate then OutputTooLarge else MalformedProtocol)"
  by (auto simp: parse_message_def map_err_def split: if_splits sum.splits)

end
