(* ===== verification/ContextResolver.thy ===== *)
theory ContextResolver
  imports AgentModel ToolRegistry ProtocolGate
begin

text \<open>
  Context resolution (\<open>context.rs\<close>): the semantic context an agent is bound to, resolved from
  trusted inputs and a snapshot of the tool registry, and the text of the system instruction.
\<close>

record context_resolver =
  cr_model_manifest_digest :: digest
  cr_protocol_schema_digest :: digest
  cr_policy_epoch :: u64
  cr_context_version :: u64

definition new_resolver :: "digest \<Rightarrow> digest \<Rightarrow> u64 \<Rightarrow> u64 \<Rightarrow> context_resolver" where
  "new_resolver model_manifest_digest protocol_schema_digest policy_epoch context_version =
     \<lparr>cr_model_manifest_digest = model_manifest_digest, cr_protocol_schema_digest = protocol_schema_digest,
      cr_policy_epoch = policy_epoch, cr_context_version = context_version\<rparr>"

definition resolver_for_r1 :: "'cap platform \<Rightarrow> digest \<Rightarrow> u64 \<Rightarrow> u64 \<Rightarrow> context_resolver result" where
  "resolver_for_r1 P model_manifest_digest policy_epoch context_version =
     bindE (schema_digest P) (\<lambda>d.
     Inr (new_resolver model_manifest_digest d policy_epoch context_version))"

text \<open>The struct is printed directly, so its members keep the order of its fields.\<close>

definition resolved_instruction :: "'cap agent_spec \<Rightarrow> json" where
  "resolved_instruction spec = JObject
     [(''role'', JString (sp_role spec)),
      (''objective'', JString (sp_objective spec)),
      (''instruction_profile'', json_option JString
         (sq_requested_instruction_profile (sp_semantic_requirements spec))),
      (''output_contract'', JString (sp_output_contract spec))]"

definition resolved_system_instruction :: "'cap platform \<Rightarrow> 'cap agent_spec \<Rightarrow> string result" where
  "resolved_system_instruction P spec =
     map_err (\<lambda>error. RuntimeError ContextResolutionFailed
       (''resolved instruction serialization failed: '' @ error))
       (json_to_string P (resolved_instruction spec))"

definition resolve_context ::
  "'cap platform \<Rightarrow> context_resolver \<Rightarrow> 'cap agent_spec \<Rightarrow> 'cap registry_snapshot \<Rightarrow> semantic_context result" where
  "resolve_context P r spec snap =
     (if sq_requested_memory (sp_semantic_requirements spec) \<noteq> None
       \<or> sq_requested_retrieval_index (sp_semantic_requirements spec) \<noteq> None
      then err ContextResolutionFailed ''R1 has no trusted memory or retrieval generation registry''
      else let bound_tool_digests = sort_dedup (map bt_manifest_digest (rs_bound_tools snap)) in
      bindE (resolved_system_instruction P spec) (\<lambda>instruction.
      bindE (canonical_digest P ''aeon-resolved-system-instruction-v1'' (Inr (JString instruction))) (\<lambda>instruction_digest.
      Inr \<lparr>sc_context_version = cr_context_version r,
           sc_model_manifest_digest = cr_model_manifest_digest r,
           sc_resolved_system_instruction_digest = instruction_digest,
           sc_tool_registry_root_digest = rs_root_digest snap,
           sc_bound_tool_digests = bound_tool_digests,
           sc_protocol_schema_digest = cr_protocol_schema_digest r,
           sc_policy_epoch = cr_policy_epoch r,
           sc_memory_generation = None,
           sc_retrieval_index_generation = None\<rparr>)))"

section \<open>What a resolved context fixes\<close>

lemma resolve_context_ok [result_simps]:
  "resolve_context P r spec snap = Inr c \<longleftrightarrow>
     sq_requested_memory (sp_semantic_requirements spec) = None
     \<and> sq_requested_retrieval_index (sp_semantic_requirements spec) = None
     \<and> (\<exists>text d. resolved_system_instruction P spec = Inr text
        \<and> canonical_digest P ''aeon-resolved-system-instruction-v1'' (Inr (JString text)) = Inr d
        \<and> c = \<lparr>sc_context_version = cr_context_version r,
             sc_model_manifest_digest = cr_model_manifest_digest r,
             sc_resolved_system_instruction_digest = d,
             sc_tool_registry_root_digest = rs_root_digest snap,
             sc_bound_tool_digests = sort_dedup (map bt_manifest_digest (rs_bound_tools snap)),
             sc_protocol_schema_digest = cr_protocol_schema_digest r,
             sc_policy_epoch = cr_policy_epoch r,
             sc_memory_generation = None, sc_retrieval_index_generation = None\<rparr>)"
  unfolding resolve_context_def if_err_eq_Inr Let_def bindE_eq_Inr by auto

text \<open>
  The material context depends on the version of the resolver not at all, and on the snapshot only
  through the root digest and the set of bound digests.
\<close>

lemma resolve_context_same_material:
  assumes "resolve_context P r spec snap = Inr c" and "resolve_context P r' spec snap' = Inr c'"
    and "r' = r\<lparr>cr_context_version := v\<rparr>" and "rs_root_digest snap = rs_root_digest snap'"
    and "bt_manifest_digest ` set (rs_bound_tools snap) = bt_manifest_digest ` set (rs_bound_tools snap')"
  shows "same_material c c'"
  using assms by (auto simp: resolve_context_ok same_material_def)

end
