(* ===== verification/ExecutionPort.thy ===== *)
theory ExecutionPort
  imports AuthorityKernel StoreRuns ContextResolver
begin

text \<open>
  The action gate and the execution port (\<open>execution.rs\<close>), and the state they share with the
  supervisor: registry, authority kernel, semantic context, mission store, metrics. Every method
  takes \<open>&self\<close> and may run while other calls run, so each acquires its locks one at a time:
  a schedule gives, for every point where no lock is held, what the rest of the world does there,
  and the readings of the clock and of the random number generator. Nexus is a parameter.
\<close>

section \<open>Metrics\<close>

record r1_metrics =
  mc_model_calls :: u64
  mc_protocol_gate_calls :: u64
  mc_action_gate_calls :: u64
  mc_execution_port_calls :: u64
  mc_token_issues :: u64
  mc_nexus_executions :: u64

definition default_metrics :: r1_metrics where
  "default_metrics = \<lparr>mc_model_calls = 0, mc_protocol_gate_calls = 0, mc_action_gate_calls = 0,
     mc_execution_port_calls = 0, mc_token_issues = 0, mc_nexus_executions = 0\<rparr>"

definition model_call :: "r1_metrics \<Rightarrow> r1_metrics" where
  "model_call m = m\<lparr>mc_model_calls := mc_model_calls m + 1\<rparr>"

definition protocol_gate_call :: "r1_metrics \<Rightarrow> r1_metrics" where
  "protocol_gate_call m = m\<lparr>mc_protocol_gate_calls := mc_protocol_gate_calls m + 1\<rparr>"

definition action_gate_call :: "r1_metrics \<Rightarrow> r1_metrics" where
  "action_gate_call m = m\<lparr>mc_action_gate_calls := mc_action_gate_calls m + 1\<rparr>"

definition execution_port_call :: "r1_metrics \<Rightarrow> r1_metrics" where
  "execution_port_call m = m\<lparr>mc_execution_port_calls := mc_execution_port_calls m + 1\<rparr>"

definition token_issued :: "r1_metrics \<Rightarrow> r1_metrics" where
  "token_issued m = m\<lparr>mc_token_issues := mc_token_issues m + 1\<rparr>"

definition nexus_execution :: "r1_metrics \<Rightarrow> r1_metrics" where
  "nexus_execution m = m\<lparr>mc_nexus_executions := mc_nexus_executions m + 1\<rparr>"

section \<open>Shared state, schedules and Nexus\<close>

record 'cap shared =
  sh_registry :: "'cap tool_registry"
  sh_kernel :: "'cap authority_kernel"
  sh_context :: "semantic_context mutex"
  sh_store :: "'cap mission_store"
  sh_metrics :: r1_metrics

record 's schedule =
  at_yield :: "nat \<Rightarrow> 's \<Rightarrow> 's"
  clock :: "nat \<Rightarrow> timestamp"
  uuid :: "nat \<Rightarrow> string"

text \<open>
  The Nexus hypervisor: creating one may fail; issuing a token for a capability and a validity may
  fail and changes the hypervisor; executing a tool with tokens may fail or return an output, which
  says whether the tool succeeded.
\<close>

record ('cap, 'hv, 'tok, 'out) nexus =
  nx_new :: "'hv option"
  nx_issue_token :: "'hv \<Rightarrow> 'cap \<Rightarrow> string \<Rightarrow> int \<Rightarrow> ('tok \<times> 'hv) option"
  nx_execute :: "'hv \<Rightarrow> 'cap tool_definition \<Rightarrow> json \<Rightarrow> 'tok list \<Rightarrow> 'out option"
  nx_success :: "'out \<Rightarrow> bool"

definition yield :: "'s schedule \<Rightarrow> nat \<Rightarrow> ('s, 'e, unit) exec" where
  "yield w n s = (Inr (), at_yield w n s)"

definition map_errS :: "('e \<Rightarrow> 'f) \<Rightarrow> ('s, 'e, 'a) exec \<Rightarrow> ('s, 'f, 'a) exec" where
  "map_errS h m s = (case m s of (r, t) \<Rightarrow> (map_err h r, t))"

definition on_store ::
  "('cap mission_store, 'e, 'a) exec \<Rightarrow> (('cap, 'z) shared_scheme, 'e, 'a) exec" where
  "on_store m s = (case m (sh_store s) of (r, st) \<Rightarrow> (r, s\<lparr>sh_store := st\<rparr>))"

definition on_metrics :: "(r1_metrics \<Rightarrow> r1_metrics) \<Rightarrow> (('cap, 'z) shared_scheme, 'e, unit) exec" where
  "on_metrics f s = (Inr (), s\<lparr>sh_metrics := f (sh_metrics s)\<rparr>)"

definition reads :: "('s \<Rightarrow> 'e + 'a) \<Rightarrow> ('s, 'e, 'a) exec" where
  "reads f s = (f s, s)"

definition seconds :: "int \<Rightarrow> int" where
  "seconds n = n * 1000000000"

definition TOKEN_VALIDITY :: int where
  "TOKEN_VALIDITY = seconds 30"

section \<open>Authorized executions\<close>

record 'cap authorized_execution =
  ax_tool_id :: tool_id
  ax_arguments :: json
  ax_tool_manifest_digest :: digest
  ax_required_capabilities :: "'cap list"
  ax_capability_manifest :: "'cap capability_manifest"
  ax_certificate :: action_certificate
  ax_observed_generations :: "(lease_id \<times> u64) list"

record authorization_artifact =
  aa_certificate :: action_certificate
  aa_record :: authorization_record

datatype execution_position = BeforeNexus | Started

datatype positioned_error = PositionedError (pe_error: runtime_error) (pe_position: execution_position)

definition before_nexus :: "runtime_error \<Rightarrow> positioned_error" where
  "before_nexus e = PositionedError e BeforeNexus"

definition started :: "runtime_error \<Rightarrow> positioned_error" where
  "started e = PositionedError e Started"

section \<open>The action gate\<close>

text \<open>The checks after the lease, the tool and the live manifest have been read.\<close>

definition check_binding ::
  "'cap mission_envelope \<Rightarrow> agent_id \<Rightarrow> 'cap authority_lease_certificate \<Rightarrow> unit result" where
  "check_binding mission agent_id certificate =
     (if lc_agent_id certificate \<noteq> agent_id \<or> lc_mission_id certificate \<noteq> me_mission_id mission
       \<or> lc_organization_version certificate \<noteq> me_organization_version mission
       \<or> lc_policy_epoch certificate \<noteq> me_policy_epoch mission
      then err AuthorizationInvalid ''active authority does not match the runtime binding''
      else Inr ())"

definition check_capabilities ::
  "'cap platform \<Rightarrow> 'cap mission_envelope \<Rightarrow> 'cap authority_set \<Rightarrow> 'cap list \<Rightarrow> unit result" where
  "check_capabilities P mission granted required =
     (if list_ex (\<lambda>capability. capability = cap_all P) required
      then err CapabilityAllForbidden ''Capability::All is forbidden for synthesized agents''
      else bindE (new_authority_set P (me_allowed_capabilities mission)) (\<lambda>mission_authority.
        if list_ex (\<lambda>capability. \<not> covers P mission_authority capability \<or> \<not> covers P granted capability) required
        then err CapabilityOutsideAuthority ''tool capability is outside granted mission authority''
        else Inr ()))"

definition check_bound_digest ::
  "'cap capability_manifest \<Rightarrow> tool_id \<Rightarrow> digest \<Rightarrow> unit result" where
  "check_bound_digest manifest tool_id current_manifest_digest =
     bindE (ok_or ToolManifestMismatch ''tool was not bound at activation''
       (map_option bt_manifest_digest (find (\<lambda>bound. bt_tool_id bound = tool_id) (cm_approved_tools manifest))))
       (\<lambda>authorized_manifest_digest.
     if authorized_manifest_digest \<noteq> current_manifest_digest
     then err ToolManifestMismatch ''registered tool no longer matches its authorized manifest''
     else Inr ())"

text \<open>Issuing the certificate and the single-use record of an action whose checks have passed.\<close>

definition issue_authorization ::
  "'cap platform \<Rightarrow> 'cap mission_envelope \<Rightarrow> 'cap lease_snapshot \<Rightarrow> lease_id \<Rightarrow> validated_authority \<Rightarrow> digest
   \<Rightarrow> 'cap registered_tool \<Rightarrow> digest \<Rightarrow> 'cap capability_manifest \<Rightarrow> tool_id \<Rightarrow> json \<Rightarrow> key_custody \<Rightarrow> string \<Rightarrow> string
   \<Rightarrow> timestamp \<Rightarrow> ('cap authorized_execution \<times> authorization_artifact) result" where
  "issue_authorization P mission lease_snapshot lease_id validated current_context_digest registered_tool
       current_manifest_digest live_manifest tool_id arguments custody uuid1 uuid2 now =
     bindE (new_action_target tool_id) (\<lambda>target.
     let canonical_action = \<lparr>ca_mission_id = me_mission_id mission,
           ca_effect_kind = tm_effect_class (rt_manifest registered_tool), ca_target = target,
           ca_normalized_parameters = new_canonical_json arguments, ca_semantic_scope = MissionScope\<rparr>
     in bindE (action_ref_of P canonical_action) (\<lambda>action_ref.
     bindE (canonical_digest P ''aeon-concrete-input-v1'' (Inr arguments)) (\<lambda>concrete_input_digest.
     bindE (new_id ''authorization id'' (''auth-'' @ uuid1)) (\<lambda>authorization_id.
     bindE (new_id ''certificate id'' (''cert-'' @ uuid2)) (\<lambda>certificate_id.
     let expires_at = min (now + seconds (5 * 60)) (lc_expires_at (sn_certificate lease_snapshot));
         certificate = \<lparr>ac_certificate_id = certificate_id, ac_mission_id = me_mission_id mission,
           ac_agent_identity_digest = va_agent_identity_digest validated, ac_authority_lease_id = lease_id,
           ac_organization_version = me_organization_version mission, ac_policy_epoch = me_policy_epoch mission,
           ac_semantic_context_digest = current_context_digest, ac_action_ref = action_ref, ac_tool_id = tool_id,
           ac_tool_manifest_digest = current_manifest_digest, ac_concrete_input_digest = concrete_input_digest,
           ac_authorization_record_id = authorization_id, ac_granted_uses = 1, ac_authorization_generation = 0,
           ac_issued_at = now, ac_expires_at = expires_at, ac_signature = []\<rparr>
     in bindE (action_signing_payload P certificate) (\<lambda>payload.
     bindE (kc_sign custody payload) (\<lambda>signature.
     let certificate = certificate\<lparr>ac_signature := signature\<rparr>;
         record = \<lparr>az_record_id = authorization_id, az_action_ref = action_ref, az_authority_chain = va_chain validated,
           az_total_budget = \<lparr>bu_actions = 1\<rparr>, az_remaining_budget = \<lparr>bu_actions = 1\<rparr>, az_state = Issued,
           az_stable_idempotency_key = ''aeon-r1:'' @ to_hex (ref_digest action_ref),
           az_effect_class = ca_effect_kind canonical_action, az_generation = 0\<rparr>
     in Inr (\<lparr>ax_tool_id = tool_id, ax_arguments = arguments, ax_tool_manifest_digest = current_manifest_digest,
           ax_required_capabilities = tm_required_capabilities (rt_manifest registered_tool),
           ax_capability_manifest = live_manifest, ax_certificate = certificate,
           ax_observed_generations = va_observed_generations validated\<rparr>,
         \<lparr>aa_certificate = certificate, aa_record = record\<rparr>))))))))"

definition authorize ::
  "'cap platform \<Rightarrow> ('cap, 'z) shared_scheme schedule \<Rightarrow> 'cap mission_envelope \<Rightarrow> agent_id \<Rightarrow> lease_id
   \<Rightarrow> semantic_context \<Rightarrow> tool_id \<Rightarrow> json \<Rightarrow> key_custody \<Rightarrow> timestamp
   \<Rightarrow> (('cap, 'z) shared_scheme, runtime_error, 'cap authorized_execution \<times> authorization_artifact) exec" where
  "authorize P w mission agent_id lease_id current_context tool_id arguments custody now =
     bindS (liftS (if \<not> me_active mission \<or> me_expires_at mission \<le> now
        then err MissionInactive ''mission is inactive or expired'' else Inr ())) (\<lambda>_.
     bindS (liftS (if tool_id \<notin> set (me_allowed_tools mission)
        then err ToolOutsideMission ''tool is outside the mission allowlist'' else Inr ())) (\<lambda>_.
     bindS (reads (\<lambda>s. get_lease_snapshot (sh_kernel s) lease_id)) (\<lambda>lease_snapshot.
     bindS (yield w 10) (\<lambda>_.
     bindS (reads (\<lambda>s. resolve_with_capability_manifest P (sh_registry s) tool_id (sn_manifest lease_snapshot)))
       (\<lambda>(registered_tool, live_manifest).
     bindS (liftS (manifest_digest P registered_tool)) (\<lambda>current_manifest_digest.
     bindS (liftS (check_bound_digest (sn_manifest lease_snapshot) tool_id current_manifest_digest)) (\<lambda>_.
     bindS (yield w 11) (\<lambda>_.
     bindS (reads (\<lambda>s. bindE (read_state (sh_kernel s)) (\<lambda>k.
        validate_active_chain P k lease_id (Some (le_generation (sn_record lease_snapshot))) live_manifest now)))
       (\<lambda>validated.
     bindS (liftS (check_binding mission agent_id (sn_certificate lease_snapshot))) (\<lambda>_.
     bindS (liftS (context_canonical_digest P current_context)) (\<lambda>current_context_digest.
     bindS (liftS (if current_context_digest \<noteq> va_semantic_context_digest validated
        then err SemanticContextChanged ''semantic context changed after authority issuance'' else Inr ())) (\<lambda>_.
     bindS (liftS (validate_input registered_tool arguments)) (\<lambda>_.
     bindS (liftS (check_capabilities P mission (lc_granted_authority (sn_certificate lease_snapshot))
        (tm_required_capabilities (rt_manifest registered_tool)))) (\<lambda>_.
     liftS (issue_authorization P mission lease_snapshot lease_id validated current_context_digest registered_tool
        current_manifest_digest live_manifest tool_id arguments custody (uuid w 1) (uuid w 2) now)))))))))))))))"

section \<open>The execution port\<close>

definition validate_action_certificate ::
  "'cap platform \<Rightarrow> action_certificate \<Rightarrow> 'cap authorized_execution \<Rightarrow> key_custody \<Rightarrow> timestamp \<Rightarrow> unit result" where
  "validate_action_certificate P certificate authorized custody now =
     bindE (if now \<ge> ac_expires_at certificate \<or> ac_tool_id certificate \<noteq> ax_tool_id authorized
          \<or> ac_tool_manifest_digest certificate \<noteq> ax_tool_manifest_digest authorized
        then Inr True
        else bindE (canonical_digest P ''aeon-concrete-input-v1'' (Inr (ax_arguments authorized))) (\<lambda>d.
          Inr (ac_concrete_input_digest certificate \<noteq> d))) (\<lambda>unbound.
     if unbound
     then err AuthorizationInvalid ''action certificate is expired or does not bind the execution request''
     else if length (ac_signature certificate) \<noteq> 64
     then err AuthorizationInvalid ''action certificate signature must contain exactly 64 bytes''
     else bindE (action_signing_payload P certificate) (\<lambda>payload.
       if ed25519_verify P (kc_verifying_key custody) payload (ac_signature certificate) then Inr ()
       else err AuthorizationInvalid ''action certificate signature verification failed''))"

fun issue_loop ::
  "('cap, 'hv, 'tok, 'out) nexus \<Rightarrow> int \<Rightarrow> 'cap list \<Rightarrow> 'hv \<Rightarrow> 'tok list
   \<Rightarrow> (r1_metrics, runtime_error, 'hv \<times> 'tok list) exec" where
  "issue_loop N validity [] hypervisor tokens m = (Inr (hypervisor, tokens), m)"
| "issue_loop N validity (capability # rest) hypervisor tokens m =
     (case nx_issue_token N hypervisor capability ''aeon-r2'' validity of
        None \<Rightarrow> (err ExecutionFailed ''Nexus token issuance failed'', m)
      | Some (token, hypervisor') \<Rightarrow>
          issue_loop N validity rest hypervisor' (tokens @ [token]) (token_issued m))"

definition issue_tokens ::
  "('cap, 'hv, 'tok, 'out) nexus \<Rightarrow> 'cap list \<Rightarrow> int \<Rightarrow> (r1_metrics, runtime_error, 'hv \<times> 'tok list) exec" where
  "issue_tokens N required_capabilities token_validity m =
     (case nx_new N of
        None \<Rightarrow> (err ExecutionFailed ''Nexus initialization failed'', m)
      | Some hypervisor \<Rightarrow> issue_loop N token_validity required_capabilities hypervisor [] m)"

definition consume_and_issue ::
  "('cap, 'hv, 'tok, 'out) nexus \<Rightarrow> 'cap authorized_execution \<Rightarrow> int
   \<Rightarrow> (('cap, 'z) shared_scheme, runtime_error, 'hv \<times> 'tok list) exec" where
  "consume_and_issue N authorized token_validity s =
     (case consume_authorization_with (ac_authorization_record_id (ax_certificate authorized))
           (ac_authorization_generation (ax_certificate authorized))
           (issue_tokens N (ax_required_capabilities authorized) token_validity) (sh_store s, sh_metrics s) of
        (r, st, m) \<Rightarrow> (r, s\<lparr>sh_store := st, sh_metrics := m\<rparr>))"

text \<open>How long the tokens of an execution are valid, if at all.\<close>

definition token_validity :: "timestamp \<Rightarrow> timestamp \<Rightarrow> timestamp \<Rightarrow> int result" where
  "token_validity leaf_expires_at certificate_expires_at issue_now =
     (let remaining_authority = min leaf_expires_at certificate_expires_at - issue_now in
      if remaining_authority < 0 then err LeaseInactive ''authority expired before Nexus token issuance''
      else let validity = min TOKEN_VALIDITY remaining_authority in
        if validity = 0 then err LeaseInactive ''authority expired before Nexus token issuance''
        else Inr validity)"

definition check_live_authority ::
  "'cap platform \<Rightarrow> 'cap authorized_execution \<Rightarrow> 'cap capability_manifest \<Rightarrow> validated_authority \<Rightarrow> unit result" where
  "check_live_authority P authorized live_manifest validated =
     bindE (if va_observed_generations validated \<noteq> ax_observed_generations authorized
          \<or> va_agent_identity_digest validated \<noteq> ac_agent_identity_digest (ax_certificate authorized)
          \<or> va_semantic_context_digest validated \<noteq> ac_semantic_context_digest (ax_certificate authorized)
        then Inr True
        else bindE (manifest_canonical_digest P live_manifest) (\<lambda>d.
          Inr (va_capability_manifest_digest validated \<noteq> d))) (\<lambda>changed.
     if changed
     then err AuthorizationInvalid ''live authority no longer matches the issued action certificate''
     else Inr ())"

text \<open>The closure of the commit: it runs under the read guard of the kernel.\<close>

definition commit_execution ::
  "'cap platform \<Rightarrow> ('cap, 'hv, 'tok, 'out) nexus \<Rightarrow> ('cap, 'z) shared_scheme schedule \<Rightarrow> key_custody
   \<Rightarrow> 'cap authorized_execution \<Rightarrow> 'cap capability_manifest \<Rightarrow> timestamp \<Rightarrow> validated_authority
   \<Rightarrow> (('cap, 'z) shared_scheme, runtime_error, 'hv \<times> 'tok list) exec" where
  "commit_execution P N w custody authorized live_manifest commit_now validated =
     bindS (liftS (check_live_authority P authorized live_manifest validated)) (\<lambda>_.
     bindS (reads (\<lambda>s. bindE (lock ''semantic context lock poisoned'' (sh_context s)) (context_canonical_digest P)))
       (\<lambda>current_context_digest.
     bindS (liftS (if current_context_digest \<noteq> va_semantic_context_digest validated
        then err SemanticContextChanged ''semantic context changed before Nexus entry'' else Inr ())) (\<lambda>_.
     bindS (liftS (validate_action_certificate P (ax_certificate authorized) authorized custody commit_now)) (\<lambda>_.
     bindS (liftS (token_validity (va_leaf_expires_at validated) (ac_expires_at (ax_certificate authorized)) (clock w 21)))
       (\<lambda>validity.
     consume_and_issue N authorized validity)))))"

definition commit_under_guard ::
  "'cap platform \<Rightarrow> lease_id \<Rightarrow> u64 option \<Rightarrow> 'cap capability_manifest \<Rightarrow> timestamp
   \<Rightarrow> (validated_authority \<Rightarrow> (('cap, 'z) shared_scheme, runtime_error, 'a) exec)
   \<Rightarrow> (('cap, 'z) shared_scheme, runtime_error, 'a) exec" where
  "commit_under_guard P lease_id generation manifest now commit s =
     (case read_state (sh_kernel s) of Inl e \<Rightarrow> (Inl e, s)
      | Inr k \<Rightarrow> commit_active_chain P k lease_id generation manifest now commit s)"

text \<open>The commit point of an execution.\<close>

definition commit_phase ::
  "'cap platform \<Rightarrow> ('cap, 'hv, 'tok, 'out) nexus \<Rightarrow> ('cap, 'z) shared_scheme schedule \<Rightarrow> key_custody
   \<Rightarrow> 'cap authorized_execution
   \<Rightarrow> (('cap, 'z) shared_scheme, runtime_error, 'cap registered_tool \<times> 'hv \<times> 'tok list) exec" where
  "commit_phase P N w custody authorized =
     bindS (reads (\<lambda>s. resolve_with_capability_manifest P (sh_registry s) (ax_tool_id authorized)
        (ax_capability_manifest authorized))) (\<lambda>(registered_tool, live_manifest).
     bindS (liftS (manifest_digest P registered_tool)) (\<lambda>d.
     bindS (liftS (if d \<noteq> ax_tool_manifest_digest authorized
        then err ToolManifestMismatch ''tool manifest changed before Nexus execution'' else Inr ())) (\<lambda>_.
     bindS (liftS (ok_or AuthorizationInvalid ''authorization omitted the active lease generation''
        (map_option snd (find (\<lambda>(lease_id, _). lease_id = ac_authority_lease_id (ax_certificate authorized))
           (ax_observed_generations authorized))))) (\<lambda>expected_leaf_generation.
     bindS (yield w 20) (\<lambda>_.
     bindS (commit_under_guard P (ac_authority_lease_id (ax_certificate authorized)) (Some expected_leaf_generation)
        live_manifest (clock w 20) (commit_execution P N w custody authorized live_manifest (clock w 20)))
       (\<lambda>(hypervisor, tokens).
     liftS (Inr (registered_tool, hypervisor, tokens))))))))"

definition execute_inner ::
  "'cap platform \<Rightarrow> ('cap, 'hv, 'tok, 'out) nexus \<Rightarrow> ('cap, 'z) shared_scheme schedule \<Rightarrow> key_custody
   \<Rightarrow> 'cap authorized_execution \<Rightarrow> u64 \<Rightarrow> (('cap, 'z) shared_scheme, positioned_error, 'out) exec" where
  "execute_inner P N w custody authorized attempt_id =
     bindS (on_metrics execution_port_call) (\<lambda>_.
     bindS (map_errS before_nexus (commit_phase P N w custody authorized)) (\<lambda>(registered_tool, hypervisor, tokens).
     bindS (yield w 22) (\<lambda>_.
     bindS (map_errS before_nexus (on_store (append_for_attempt attempt_id AuthorizationConsumed (clock w 22)))) (\<lambda>_.
     bindS (yield w 23) (\<lambda>_.
     bindS (map_errS before_nexus (on_store (append_for_attempt attempt_id ExecutionStarted (clock w 23)))) (\<lambda>_.
     bindS (on_metrics nexus_execution) (\<lambda>_.
     bindS (yield w 24) (\<lambda>_.
     liftS (case nx_execute N hypervisor (tool_definition_of registered_tool) (ax_arguments authorized) tokens of
        None \<Rightarrow> Inl (started (RuntimeError ExecutionFailed ''Nexus execution failed''))
      | Some output \<Rightarrow> Inr output)))))))))"

end
