(* ===== verification/Supervisor.thy ===== *)
theory Supervisor
  imports ExecutionPort
begin

text \<open>
  The supervisor (\<open>supervisor.rs\<close>): the runtime of one agent on one mission. It bootstraps the
  authority kernel, the store and the execution port, runs one step of the agent at a time, and
  offers the control operations on the active lease. The model client is a parameter.
\<close>

section \<open>The model client\<close>

record 'cap model_request =
  mq_agent_id :: agent_id
  mq_spec :: "'cap agent_spec"
  mq_semantic_context :: semantic_context
  mq_resolved_system_instruction :: string

record model_response =
  mr_raw_output :: string

text \<open>
  A client as one call meets it: what it answers to a request. A client that answers the same request
  differently from call to call, as the source allows, is a different value of this type in each call.
\<close>

record 'cap model_client =
  md_generate :: "'cap model_request \<Rightarrow> model_response result"
  md_manifest_digest :: "model_ref \<Rightarrow> digest result"

section \<open>State\<close>

record 'cap runtime = "'cap shared" +
  rt_mission :: "'cap mission_envelope"
  rt_agent_id :: agent_id
  rt_spec :: "'cap agent_spec"
  rt_key_custody :: key_custody
  rt_protocol_gate :: protocol_gate
  rt_action_certificates :: "action_certificate list mutex"
  rt_steps_consumed :: u64
  rt_actions_consumed :: u64

datatype 'out run_outcome = Executed 'out | FinalOutcome final_result

record 'cap model_authority_observation =
  ob_lease :: "'cap lease_snapshot"
  ob_validated :: validated_authority

section \<open>Bootstrap\<close>

definition check_bootstrap ::
  "'cap platform \<Rightarrow> 'cap mission_envelope \<Rightarrow> 'cap agent_spec \<Rightarrow> timestamp \<Rightarrow> unit result" where
  "check_bootstrap P mission spec now =
     bindE (validate_spec P spec) (\<lambda>_.
     if \<not> me_active mission \<or> me_expires_at mission \<le> now
     then err MissionInactive ''mission is inactive or expired''
     else if me_max_actions mission = 0 \<or> rb_max_steps (sp_resource_budget spec) = 0
     then err BudgetExhausted ''mission action and agent step budgets must be non-zero''
     else if list_ex (\<lambda>c. c = cap_all P) (me_allowed_capabilities mission)
       \<or> list_ex (\<lambda>c. c = cap_all P) (ar_capabilities (sp_requested_authority spec))
     then err CapabilityAllForbidden ''Capability::All is forbidden for synthesized agents''
     else bindE (new_authority_set P (me_allowed_capabilities mission)) (\<lambda>mission_authority.
       bindE (new_authority_set P (ar_capabilities (sp_requested_authority spec))) (\<lambda>requested_authority.
       if \<not> authority_subset P requested_authority mission_authority
       then err CapabilityOutsideAuthority ''requested authority exceeds the mission envelope''
       else if list_ex (\<lambda>tool_id. tool_id \<notin> set (me_allowed_tools mission)) (sp_requested_tools spec)
       then err ToolOutsideMission ''requested tool is outside the mission allowlist''
       else Inr ())))"

definition bootstrap_manifest ::
  "'cap agent_spec \<Rightarrow> 'cap registry_snapshot \<Rightarrow> semantic_context \<Rightarrow> digest \<Rightarrow> 'cap capability_manifest" where
  "bootstrap_manifest spec snap context runtime_config_digest =
     \<lparr>cm_version = 1, cm_model_manifest_digest = sc_model_manifest_digest context,
      cm_approved_tools = rs_bound_tools snap,
      cm_permissions = \<lparr>ps_capabilities = ar_capabilities (sp_requested_authority spec)\<rparr>,
      cm_runtime_config_digest = runtime_config_digest,
      cm_tool_registry_root_digest = sc_tool_registry_root_digest context\<rparr>"

text \<open>
  The key custody that is generated for a key id, the two random identifiers and the readings of the
  clock are arguments.
\<close>

definition bootstrap_r2 ::
  "'cap platform \<Rightarrow> ('cap, 'hv, 'tok, 'out) nexus \<Rightarrow> 'cap model_client \<Rightarrow> (key_id \<Rightarrow> key_custody result)
   \<Rightarrow> string \<Rightarrow> string \<Rightarrow> (nat \<Rightarrow> timestamp) \<Rightarrow> 'cap mission_envelope \<Rightarrow> agent_id \<Rightarrow> 'cap agent_spec
   \<Rightarrow> 'cap tool_registry \<Rightarrow> u64 \<Rightarrow> 'cap authority_set \<Rightarrow> 'cap runtime result" where
  "bootstrap_r2 P N M generate_key key_uuid lease_uuid clk mission agent_id spec registry context_version
       delegable_authority =
     (let now = clk 0 in
      bindE (check_bootstrap P mission spec now) (\<lambda>_.
      bindE (registry_snapshot_of P registry (sp_requested_tools spec)) (\<lambda>registry_snapshot.
      bindE (md_manifest_digest M (sp_requested_model spec)) (\<lambda>model_manifest_digest.
      bindE (resolver_for_r1 P model_manifest_digest (me_policy_epoch mission) context_version) (\<lambda>resolver.
      bindE (resolve_context P resolver spec registry_snapshot) (\<lambda>semantic_context.
      bindE (context_canonical_digest P semantic_context) (\<lambda>semantic_context_digest.
      bindE (canonical_digest P ''aeon-r1-runtime-config-v1''
        (Inr (JArray [json_u64 (me_max_actions mission), json_u64 (rb_max_steps (sp_resource_budget spec))])))
        (\<lambda>runtime_config_digest.
      let capability_manifest = bootstrap_manifest spec registry_snapshot semantic_context runtime_config_digest;
          lease_expiry = min (me_expires_at mission) (now + seconds (5 * 60))
      in bindE (new_id ''key id'' (''key-'' @ key_uuid)) (\<lambda>key_id.
      bindE (generate_key key_id) (\<lambda>key_custody.
      bindE (new_authority_set P (ar_capabilities (sp_requested_authority spec))) (\<lambda>granted_authority.
      bindE (bootstrap P \<lparr>rr_mission = mission, rr_agent_id = agent_id, rr_granted_authority = granted_authority,
          rr_delegable_authority = delegable_authority, rr_capability_manifest = capability_manifest,
          rr_semantic_context_digest = semantic_context_digest, rr_expires_at = lease_expiry\<rparr>
        key_custody lease_uuid now) (\<lambda>kernel_state.
      bindE (ok_or ExecutionFailed ''Nexus initialization failed'' (nx_new N)) (\<lambda>_.
      case bindS (append_mission MissionCreated (clk 1)) (\<lambda>_.
           bindS (append_mission ContextResolved (clk 2)) (\<lambda>_.
           bindS (append_mission MissionLeaseIssued (clk 3)) (\<lambda>_.
           append_mission AgentActivated (clk 4)))) (new_store mission) of
        (Inl e, _) \<Rightarrow> Inl e
      | (Inr _, store) \<Rightarrow>
          Inr \<lparr>sh_registry = registry, sh_kernel = \<lparr>ak_state = kernel_state, ak_poisoned = False\<rparr>,
               sh_context = new_mutex semantic_context, sh_store = store, sh_metrics = default_metrics,
               rt_mission = mission, rt_agent_id = agent_id, rt_spec = spec, rt_key_custody = key_custody,
               rt_protocol_gate = default_gate, rt_action_certificates = new_mutex [],
               rt_steps_consumed = 0, rt_actions_consumed = 0\<rparr>)))))))))))))"

definition bootstrap_r1 ::
  "'cap platform \<Rightarrow> ('cap, 'hv, 'tok, 'out) nexus \<Rightarrow> 'cap model_client \<Rightarrow> (key_id \<Rightarrow> key_custody result)
   \<Rightarrow> string \<Rightarrow> string \<Rightarrow> (nat \<Rightarrow> timestamp) \<Rightarrow> 'cap mission_envelope \<Rightarrow> agent_id \<Rightarrow> 'cap agent_spec
   \<Rightarrow> 'cap tool_registry \<Rightarrow> u64 \<Rightarrow> 'cap runtime result" where
  "bootstrap_r1 P N M generate_key key_uuid lease_uuid clk mission agent_id spec registry context_version =
     bindE (new_authority_set P []) (\<lambda>none.
     bootstrap_r2 P N M generate_key key_uuid lease_uuid clk mission agent_id spec registry context_version none)"

section \<open>Budgets\<close>

definition reserve :: "u64 \<Rightarrow> u64 \<Rightarrow> string \<Rightarrow> u64 result" where
  "reserve consumed limit budget_name =
     (if consumed < limit then Inr (consumed + 1)
      else err BudgetExhausted (budget_name @ '' budget exhausted''))"

definition reserve_step :: "('cap runtime, runtime_error, unit) exec" where
  "reserve_step s =
     (case reserve (rt_steps_consumed s) (rb_max_steps (sp_resource_budget (rt_spec s))) ''agent step'' of
        Inl e \<Rightarrow> (Inl e, s) | Inr n \<Rightarrow> (Inr (), s\<lparr>rt_steps_consumed := n\<rparr>))"

definition reserve_action :: "('cap runtime, runtime_error, unit) exec" where
  "reserve_action s =
     (case reserve (rt_actions_consumed s) (me_max_actions (rt_mission s)) ''mission action'' of
        Inl e \<Rightarrow> (Inl e, s) | Inr n \<Rightarrow> (Inr (), s\<lparr>rt_actions_consumed := n\<rparr>))"

section \<open>Authority around a model call\<close>

text \<open>The two reads of the kernel are separate acquisitions of its lock.\<close>

definition active_lease_snapshot ::
  "('cap, 'z) shared_scheme schedule \<Rightarrow> nat \<Rightarrow> (('cap, 'z) shared_scheme, runtime_error, 'cap lease_snapshot) exec" where
  "active_lease_snapshot w n =
     bindS (reads (\<lambda>s. root_lease_id (sh_kernel s))) (\<lambda>active_lease_id.
     bindS (yield w n) (\<lambda>_.
     reads (\<lambda>s. get_lease_snapshot (sh_kernel s) active_lease_id)))"

definition observe_model_authority ::
  "'cap platform \<Rightarrow> 'cap runtime schedule \<Rightarrow> semantic_context \<Rightarrow> timestamp
   \<Rightarrow> ('cap runtime, runtime_error, 'cap model_authority_observation) exec" where
  "observe_model_authority P w semantic_context now =
     bindS (reads (\<lambda>s. if \<not> is_usable_at (rt_mission s) now
        then err MissionInactive ''mission is inactive or expired'' else Inr ())) (\<lambda>_.
     bindS (active_lease_snapshot w 1) (\<lambda>active.
     bindS (reads (\<lambda>s. check_binding (rt_mission s) (rt_agent_id s) (sn_certificate active))) (\<lambda>_.
     bindS (yield w 2) (\<lambda>_.
     bindS (reads (\<lambda>s. bindE (read_state (sh_kernel s)) (\<lambda>k.
        validate_active_chain P k (lc_lease_id (sn_certificate active)) (Some (le_generation (sn_record active)))
          (sn_manifest active) now))) (\<lambda>validated.
     bindS (liftS (validate_context_continuation P (va_semantic_context_digest validated) semantic_context)) (\<lambda>_.
     liftS (Inr \<lparr>ob_lease = active, ob_validated = validated\<rparr>)))))))"

definition check_unchanged ::
  "'cap model_authority_observation \<Rightarrow> validated_authority \<Rightarrow> unit result" where
  "check_unchanged observation validated =
     (if va_observed_generations validated \<noteq> va_observed_generations (ob_validated observation)
      then err LeaseGenerationMismatch ''authority generations changed during model generation''
      else if va_chain validated \<noteq> va_chain (ob_validated observation)
        \<or> va_agent_identity_digest validated \<noteq> va_agent_identity_digest (ob_validated observation)
        \<or> va_capability_manifest_digest validated \<noteq> va_capability_manifest_digest (ob_validated observation)
        \<or> va_semantic_context_digest validated \<noteq> va_semantic_context_digest (ob_validated observation)
      then err AuthorizationInvalid ''authority binding changed during model generation''
      else Inr ())"

definition accept_model_final ::
  "'cap platform \<Rightarrow> 'cap runtime schedule \<Rightarrow> 'cap model_authority_observation \<Rightarrow> u64 \<Rightarrow> timestamp
   \<Rightarrow> ('cap runtime, runtime_error, unit) exec" where
  "accept_model_final P w observation attempt_id now =
     bindS (reads (\<lambda>s. if \<not> is_usable_at (rt_mission s) now
        then err MissionInactive ''mission became inactive or expired during model generation'' else Inr ())) (\<lambda>_.
     commit_under_guard P (lc_lease_id (sn_certificate (ob_lease observation)))
       (Some (le_generation (sn_record (ob_lease observation)))) (sn_manifest (ob_lease observation)) now
       (\<lambda>validated.
         bindS (liftS (check_unchanged observation validated)) (\<lambda>_.
         bindS (reads (\<lambda>s. lock ''semantic context lock poisoned'' (sh_context s))) (\<lambda>current_context.
         bindS (liftS (validate_context_continuation P
           (va_semantic_context_digest (ob_validated observation)) current_context)) (\<lambda>_.
         on_store (append_for_attempt attempt_id FinalProduced (clock w 32)))))))"

section \<open>One step of the agent\<close>

text \<open>The event of a failed attempt is appended before the error is returned.\<close>

definition reject ::
  "'cap runtime schedule \<Rightarrow> u64 \<Rightarrow> (error_code \<Rightarrow> mission_event_kind) \<Rightarrow> nat \<Rightarrow> runtime_error
   \<Rightarrow> ('cap runtime, runtime_error, 'a) exec" where
  "reject w attempt_id kind n error =
     bindS (yield w (100 + n)) (\<lambda>_.
     bindS (on_store (append_for_attempt attempt_id (kind (code error)) (clock w n))) (\<lambda>_.
     liftS (Inl error)))"

text \<open>\<open>match\<close> on a result: the state the call left is kept in both arms.\<close>

definition onResult ::
  "('s, 'e, 'a) exec \<Rightarrow> ('e \<Rightarrow> ('s, 'f, 'b) exec) \<Rightarrow> ('a \<Rightarrow> ('s, 'f, 'b) exec) \<Rightarrow> ('s, 'f, 'b) exec" where
  "onResult m h f s = (case m s of (Inl e, t) \<Rightarrow> h e t | (Inr x, t) \<Rightarrow> f x t)"

definition event :: "'cap runtime schedule \<Rightarrow> u64 \<Rightarrow> mission_event_kind \<Rightarrow> nat \<Rightarrow> ('cap runtime, runtime_error, unit) exec" where
  "event w attempt_id kind n =
     bindS (on_store (append_for_attempt attempt_id kind (clock w n))) (\<lambda>_. yield w n)"

definition push_certificate :: "action_certificate \<Rightarrow> ('cap runtime, runtime_error, unit) exec" where
  "push_certificate certificate s =
     (case lock ''certificate ledger lock poisoned'' (rt_action_certificates s) of
        Inl e \<Rightarrow> (Inl e, s)
      | Inr certificates \<Rightarrow> (Inr (), s\<lparr>rt_action_certificates :=
          (rt_action_certificates s)\<lparr>mx_value := certificates @ [certificate]\<rparr>\<rparr>))"

text \<open>The execution of an authorized action and its terminal event.\<close>

definition run_execution ::
  "'cap platform \<Rightarrow> ('cap, 'hv, 'tok, 'out) nexus \<Rightarrow> 'cap runtime schedule \<Rightarrow> u64
   \<Rightarrow> 'cap authorized_execution \<Rightarrow> ('cap runtime, runtime_error, 'out run_outcome) exec" where
  "run_execution P N w attempt_id authorized_execution =
     bindS (reads (\<lambda>s. Inr (rt_key_custody s))) (\<lambda>custody.
     onResult (execute_inner P N w custody authorized_execution attempt_id)
       (\<lambda>positioned. reject w attempt_id
          (case pe_position positioned of BeforeNexus \<Rightarrow> ExecutionRejectedBeforeNexus | Started \<Rightarrow> EvExecutionFailed)
          30 (pe_error positioned))
       (\<lambda>output.
          bindS (on_store (append_for_attempt attempt_id
            (if nx_success N output then ExecutionCompleted else EvExecutionFailed ExecutionFailed) (clock w 31))) (\<lambda>_.
          liftS (Inr (Executed output)))))"

text \<open>Recording the authorization of an action that passed the gate.\<close>

definition run_authorized ::
  "'cap platform \<Rightarrow> ('cap, 'hv, 'tok, 'out) nexus \<Rightarrow> 'cap runtime schedule \<Rightarrow> u64
   \<Rightarrow> 'cap authorized_execution \<Rightarrow> authorization_artifact \<Rightarrow> ('cap runtime, runtime_error, 'out run_outcome) exec" where
  "run_authorized P N w attempt_id authorized_execution artifact =
     bindS (event w attempt_id ActionAuthorized 13) (\<lambda>_.
     bindS (event w attempt_id AuthorizationIssued 14) (\<lambda>_.
     onResult (on_store (insert_authorization_for_attempt attempt_id (aa_record artifact)))
       (reject w attempt_id ExecutionRejectedBeforeNexus 15)
       (\<lambda>_. bindS (yield w 15) (\<lambda>_.
         onResult (push_certificate (aa_certificate artifact))
           (reject w attempt_id ExecutionRejectedBeforeNexus 16)
           (\<lambda>_. bindS (yield w 16) (\<lambda>_. run_execution P N w attempt_id authorized_execution))))))"

definition run_tool_call ::
  "'cap platform \<Rightarrow> ('cap, 'hv, 'tok, 'out) nexus \<Rightarrow> 'cap runtime schedule \<Rightarrow> semantic_context \<Rightarrow> u64
   \<Rightarrow> tool_call_proposal \<Rightarrow> ('cap runtime, runtime_error, 'out run_outcome) exec" where
  "run_tool_call P N w semantic_context attempt_id proposal =
     bindS (event w attempt_id PlanAccepted 8) (\<lambda>_.
     bindS (on_metrics action_gate_call) (\<lambda>_.
     onResult (reads (\<lambda>s. root_lease_id (sh_kernel s))) (reject w attempt_id ActionRejected 9) (\<lambda>active_lease_id.
     bindS (yield w 9) (\<lambda>_.
     onResult (\<lambda>s. authorize P w (rt_mission s) (rt_agent_id s) active_lease_id semantic_context
          (tp_tool_id proposal) (tp_arguments proposal) (rt_key_custody s) (clock w 9) s)
       (reject w attempt_id ActionRejected 12)
       (\<lambda>(authorized_execution, artifact). bindS (yield w 12) (\<lambda>_.
         onResult reserve_action (reject w attempt_id ActionRejected 13)
           (\<lambda>_. run_authorized P N w attempt_id authorized_execution artifact)))))))"

definition run_attempt ::
  "'cap platform \<Rightarrow> ('cap, 'hv, 'tok, 'out) nexus \<Rightarrow> 'cap model_client \<Rightarrow> 'cap runtime schedule
   \<Rightarrow> semantic_context \<Rightarrow> 'cap model_authority_observation \<Rightarrow> string \<Rightarrow> u64
   \<Rightarrow> ('cap runtime, runtime_error, 'out run_outcome) exec" where
  "run_attempt P N M w semantic_context model_authority instruction attempt_id =
     bindS (on_metrics model_call) (\<lambda>_.
     bindS (yield w 5) (\<lambda>_.
     onResult (reads (\<lambda>s. md_generate M \<lparr>mq_agent_id = rt_agent_id s, mq_spec = rt_spec s,
          mq_semantic_context = semantic_context, mq_resolved_system_instruction = instruction\<rparr>))
       (reject w attempt_id EvModelFailed 5)
       (\<lambda>response.
         bindS (on_metrics protocol_gate_call) (\<lambda>_.
         onResult (reads (\<lambda>s. parse_message P (rt_protocol_gate s) (mr_raw_output response)))
           (reject w attempt_id ProtocolRejected 6)
           (\<lambda>message. bindS (event w attempt_id ProtocolAccepted 6) (\<lambda>_.
             case message of
               FinalMessage final_result \<Rightarrow>
                 onResult (accept_model_final P w model_authority attempt_id (clock w 7))
                   (reject w attempt_id FinalRejected 33)
                   (\<lambda>_. liftS (Inr (FinalOutcome final_result)))
             | ToolCall proposal \<Rightarrow> run_tool_call P N w semantic_context attempt_id proposal))))))"

definition run_once ::
  "'cap platform \<Rightarrow> ('cap, 'hv, 'tok, 'out) nexus \<Rightarrow> 'cap model_client \<Rightarrow> 'cap runtime schedule
   \<Rightarrow> ('cap runtime, runtime_error, 'out run_outcome) exec" where
  "run_once P N M w =
     bindS (reads (\<lambda>s. lock ''semantic context lock poisoned'' (sh_context s))) (\<lambda>semantic_context.
     bindS (yield w 0) (\<lambda>_.
     bindS (observe_model_authority P w semantic_context (clock w 0)) (\<lambda>model_authority.
     bindS (yield w 3) (\<lambda>_.
     bindS reserve_step (\<lambda>_.
     bindS (reads (\<lambda>s. resolved_system_instruction P (rt_spec s))) (\<lambda>instruction.
     bindS (yield w 4) (\<lambda>_.
     bindS (on_store (\<lambda>st. case begin_attempt st of (a, st') \<Rightarrow> (Inr a, st'))) (\<lambda>attempt_id.
     run_attempt P N M w semantic_context model_authority instruction attempt_id))))))))"

section \<open>Control operations and accessors\<close>

definition on_kernel ::
  "('cap authority_state, runtime_error, 'a) exec \<Rightarrow> ('cap runtime, runtime_error, 'a) exec" where
  "on_kernel body s = (case write_state body (sh_kernel s) of (r, k) \<Rightarrow> (r, s\<lparr>sh_kernel := k\<rparr>))"

definition runtime_pause :: "'cap runtime schedule \<Rightarrow> ('cap runtime, runtime_error, lease_record) exec" where
  "runtime_pause w =
     bindS (active_lease_snapshot w 1) (\<lambda>active.
     bindS (yield w 2) (\<lambda>_.
     on_kernel (pause (lc_lease_id (sn_certificate active)) (le_generation (sn_record active)) (clock w 2))))"

definition runtime_resume :: "'cap runtime schedule \<Rightarrow> ('cap runtime, runtime_error, lease_record) exec" where
  "runtime_resume w =
     bindS (active_lease_snapshot w 1) (\<lambda>active.
     bindS (yield w 2) (\<lambda>_.
     on_kernel (resume (lc_lease_id (sn_certificate active)) (le_generation (sn_record active)) (clock w 2))))"

definition runtime_revoke ::
  "'cap runtime schedule \<Rightarrow> string \<Rightarrow> ('cap runtime, runtime_error, lease_id list) exec" where
  "runtime_revoke w reason =
     bindS (active_lease_snapshot w 1) (\<lambda>active.
     bindS (yield w 2) (\<lambda>_.
     on_kernel (revoke (lc_lease_id (sn_certificate active)) (le_generation (sn_record active)) reason (clock w 2))))"

definition runtime_renew ::
  "'cap platform \<Rightarrow> 'cap runtime schedule \<Rightarrow> timestamp \<Rightarrow> ('cap runtime, runtime_error, 'cap lease_snapshot) exec" where
  "runtime_renew P w expires_at =
     bindS (active_lease_snapshot w 1) (\<lambda>active.
     bindS (yield w 2) (\<lambda>_.
     bindS (reads (\<lambda>s. refresh_capability_manifest P (sh_registry s) (sn_manifest active))) (\<lambda>live_manifest.
     bindS (yield w 3) (\<lambda>_.
     bindS (reads (\<lambda>s. bindE (lock ''semantic context lock poisoned'' (sh_context s)) (context_canonical_digest P)))
       (\<lambda>semantic_context_digest.
     bindS (yield w 4) (\<lambda>_.
     bindS (on_kernel (renew P \<lparr>nr_lease_id = lc_lease_id (sn_certificate active),
          nr_expected_generation = le_generation (sn_record active),
          nr_granted_authority = lc_granted_authority (sn_certificate active),
          nr_delegable_authority = lc_delegable_authority (sn_certificate active),
          nr_capability_manifest = live_manifest, nr_semantic_context_digest = semantic_context_digest,
          nr_expires_at = expires_at\<rparr> (uuid w 4) (clock w 4))) (\<lambda>renewed_id.
     bindS (yield w 5) (\<lambda>_.
     reads (\<lambda>s. get_lease_snapshot (sh_kernel s) renewed_id)))))))))"

definition runtime_refresh_expirations ::
  "'cap runtime schedule \<Rightarrow> ('cap runtime, runtime_error, lease_id list) exec" where
  "runtime_refresh_expirations w = on_kernel (refresh_expirations (clock w 0))"

definition runtime_semantic_context :: "'cap runtime \<Rightarrow> semantic_context result" where
  "runtime_semantic_context s = lock ''semantic context lock poisoned'' (sh_context s)"

definition authorization_certificates :: "'cap runtime \<Rightarrow> action_certificate list result" where
  "authorization_certificates s = lock ''certificate ledger lock poisoned'' (rt_action_certificates s)"

text \<open>The accessors that forward to the counters, the store and the kernel.\<close>

definition runtime_metrics :: "'cap runtime \<Rightarrow> r1_metrics" where
  "runtime_metrics s = sh_metrics s"

definition runtime_authorization_count :: "'cap runtime \<Rightarrow> nat result" where
  "runtime_authorization_count s = authorization_count (sh_store s)"

definition runtime_authorization_records :: "'cap runtime \<Rightarrow> authorization_record list result" where
  "runtime_authorization_records s = authorization_records (sh_store s)"

definition runtime_event_kinds :: "'cap runtime \<Rightarrow> mission_event_kind list result" where
  "runtime_event_kinds s = event_kinds (sh_store s)"

definition runtime_verify_event_completeness :: "'cap runtime \<Rightarrow> unit result" where
  "runtime_verify_event_completeness s = verify_event_completeness (sh_store s)"

definition runtime_lease_snapshot :: "'cap runtime \<Rightarrow> lease_id \<Rightarrow> 'cap lease_snapshot result" where
  "runtime_lease_snapshot s lease_id = get_lease_snapshot (sh_kernel s) lease_id"

definition runtime_authority_events :: "'cap runtime \<Rightarrow> authority_event list result" where
  "runtime_authority_events s = authority_events (sh_kernel s)"

end
