(* ===== verification/ExecLogic.thy ===== *)
theory ExecLogic
  imports Supervisor StoreHistory
begin

text \<open>
  A small calculus for the stateful code of the runtime. \<open>runs_to m s Q E\<close> says what holds after
  running \<open>m\<close> in \<open>s\<close>: \<open>Q\<close> of its value or \<open>E\<close> of its error, and of the state it leaves. Each
  construct has one equation, so the condition of a method reduces to conditions of its steps.
  \<open>keeps I m\<close> says that a method keeps an invariant however it ends.
\<close>

section \<open>Conditions of runs\<close>

definition runs_to ::
  "('s, 'e, 'a) exec \<Rightarrow> 's \<Rightarrow> ('a \<Rightarrow> 's \<Rightarrow> bool) \<Rightarrow> ('e \<Rightarrow> 's \<Rightarrow> bool) \<Rightarrow> bool" where
  "runs_to m s Q E \<longleftrightarrow> (case m s of (Inl e, t) \<Rightarrow> E e t | (Inr x, t) \<Rightarrow> Q x t)"

named_theorems run_simps \<open>the condition of a construct in terms of its parts\<close>

lemma runs_to_bindS [run_simps]:
  "runs_to (bindS m f) s Q E \<longleftrightarrow> runs_to m s (\<lambda>x t. runs_to (f x) t Q E) E"
  by (auto simp: runs_to_def bindS_def split: prod.splits sum.splits)

lemma runs_to_onResult [run_simps]:
  "runs_to (onResult m h f) s Q E \<longleftrightarrow> runs_to m s (\<lambda>x t. runs_to (f x) t Q E) (\<lambda>e t. runs_to (h e) t Q E)"
  by (auto simp: runs_to_def onResult_def split: prod.splits sum.splits)

lemma runs_to_map_errS [run_simps]:
  "runs_to (map_errS h m) s Q E \<longleftrightarrow> runs_to m s Q (\<lambda>e t. E (h e) t)"
  by (auto simp: runs_to_def map_errS_def map_err_def split: prod.splits sum.splits)

lemma runs_to_liftS [run_simps]:
  "runs_to (liftS r) s Q E \<longleftrightarrow> (case r of Inl e \<Rightarrow> E e s | Inr x \<Rightarrow> Q x s)"
  by (auto simp: runs_to_def liftS_def split: sum.splits)

lemma runs_to_reads [run_simps]:
  "runs_to (reads f) s Q E \<longleftrightarrow> (case f s of Inl e \<Rightarrow> E e s | Inr x \<Rightarrow> Q x s)"
  by (auto simp: runs_to_def reads_def split: sum.splits)

lemma runs_to_yield [run_simps]: "runs_to (yield w n) s Q E \<longleftrightarrow> Q () (at_yield w n s)"
  by (simp add: runs_to_def yield_def)

lemma runs_to_on_metrics [run_simps]:
  "runs_to (on_metrics f) s Q E \<longleftrightarrow> Q () (s\<lparr>sh_metrics := f (sh_metrics s)\<rparr>)"
  by (simp add: runs_to_def on_metrics_def)

lemma runs_to_on_store [run_simps]:
  "runs_to (on_store m) s Q E \<longleftrightarrow>
     runs_to m (sh_store s) (\<lambda>x st. Q x (s\<lparr>sh_store := st\<rparr>)) (\<lambda>e st. E e (s\<lparr>sh_store := st\<rparr>))"
  by (auto simp: runs_to_def on_store_def split: prod.splits sum.splits)

lemma runs_to_mono:
  assumes "runs_to m s Q E" and "\<And>x t. Q x t \<Longrightarrow> Q' x t" and "\<And>e t. E e t \<Longrightarrow> E' e t"
  shows "runs_to m s Q' E'"
  using assms by (auto simp: runs_to_def split: prod.splits sum.splits)

lemma runs_to_Inr: "m s = (Inr x, t) \<Longrightarrow> runs_to m s Q E \<Longrightarrow> Q x t"
  and runs_to_Inl: "m s = (Inl e, t) \<Longrightarrow> runs_to m s Q E \<Longrightarrow> E e t"
  by (simp_all add: runs_to_def)

lemma runs_to_conj: "runs_to m s Q E \<Longrightarrow> runs_to m s Q' E' \<Longrightarrow> runs_to m s (\<lambda>x t. Q x t \<and> Q' x t) (\<lambda>e t. E e t \<and> E' e t)"
  by (auto simp: runs_to_def split: prod.splits sum.splits)

text \<open>The same as rules, for runs whose steps are known by their own lemmas.\<close>

named_theorems run_rules \<open>conditions of a construct from conditions of its parts\<close>

lemma run_bindS [run_rules]:
  "runs_to m s (\<lambda>x t. runs_to (f x) t Q E) E \<Longrightarrow> runs_to (bindS m f) s Q E"
  by (simp add: runs_to_bindS)

lemma run_onResult [run_rules]:
  "runs_to m s (\<lambda>x t. runs_to (f x) t Q E) (\<lambda>e t. runs_to (h e) t Q E) \<Longrightarrow> runs_to (onResult m h f) s Q E"
  by (simp add: runs_to_onResult)

lemma run_map_errS [run_rules]: "runs_to m s Q (\<lambda>e t. E (h e) t) \<Longrightarrow> runs_to (map_errS h m) s Q E"
  by (simp add: runs_to_map_errS)

lemma run_liftS [run_rules]:
  "(\<And>e. r = Inl e \<Longrightarrow> E e s) \<Longrightarrow> (\<And>x. r = Inr x \<Longrightarrow> Q x s) \<Longrightarrow> runs_to (liftS r) s Q E"
  by (cases r) (simp_all add: runs_to_liftS)

lemma run_reads [run_rules]:
  "(\<And>e. f s = Inl e \<Longrightarrow> E e s) \<Longrightarrow> (\<And>x. f s = Inr x \<Longrightarrow> Q x s) \<Longrightarrow> runs_to (reads f) s Q E"
  by (cases "f s") (simp_all add: runs_to_reads)

lemma run_yield [run_rules]: "Q () (at_yield w n s) \<Longrightarrow> runs_to (yield w n) s Q E"
  by (simp add: runs_to_yield)

lemma run_on_metrics [run_rules]: "Q () (s\<lparr>sh_metrics := f (sh_metrics s)\<rparr>) \<Longrightarrow> runs_to (on_metrics f) s Q E"
  by (simp add: runs_to_on_metrics)

lemma run_case_prod [run_rules]:
  "(\<And>x y. p = (x, y) \<Longrightarrow> runs_to (f x y) s Q E) \<Longrightarrow> runs_to (case p of (x, y) \<Rightarrow> f x y) s Q E"
  by (cases p) simp

lemma run_commit_under_guard [run_rules]:
  "(\<And>e. E e s) \<Longrightarrow> (\<And>v. runs_to (c v) s Q E) \<Longrightarrow> runs_to (commit_under_guard P l g m now c) s Q E"
  by (auto simp: runs_to_def commit_under_guard_def commit_active_chain_def split: sum.splits)

section \<open>Invariants of runs\<close>

definition keeps :: "('s \<Rightarrow> bool) \<Rightarrow> ('s, 'e, 'a) exec \<Rightarrow> bool" where
  "keeps I m \<longleftrightarrow> (\<forall>s. I s \<longrightarrow> I (snd (m s)))"

named_theorems keeps_rules \<open>constructs keep what their parts keep\<close>

lemma keeps_iff: "keeps I m \<longleftrightarrow> (\<forall>s. I s \<longrightarrow> runs_to m s (\<lambda>_. I) (\<lambda>_. I))"
proof -
  have "runs_to m s (\<lambda>_. I) (\<lambda>_. I) \<longleftrightarrow> I (snd (m s))" for s
    by (cases "m s", cases "fst (m s)") (auto simp: runs_to_def)
  then show ?thesis by (simp add: keeps_def)
qed

lemma keeps_runs_to: "keeps I m \<Longrightarrow> I s \<Longrightarrow> runs_to m s (\<lambda>_. I) (\<lambda>_. I)"
  unfolding keeps_iff by blast

lemma keepsD: "keeps I m \<Longrightarrow> I s \<Longrightarrow> m s = (r, t) \<Longrightarrow> I t"
  unfolding keeps_def by (metis snd_conv)

lemma keeps_bindS [keeps_rules]: "keeps I m \<Longrightarrow> (\<And>x. keeps I (f x)) \<Longrightarrow> keeps I (bindS m f)"
  unfolding keeps_iff runs_to_bindS by (blast intro: runs_to_mono)

lemma keeps_onResult [keeps_rules]:
  "keeps I m \<Longrightarrow> (\<And>e. keeps I (h e)) \<Longrightarrow> (\<And>x. keeps I (f x)) \<Longrightarrow> keeps I (onResult m h f)"
  unfolding keeps_iff runs_to_onResult by (blast intro: runs_to_mono)

lemma keeps_liftS [keeps_rules]: "keeps I (liftS r)"
  and keeps_reads [keeps_rules]: "keeps I (reads f)"
  by (simp_all add: keeps_def liftS_def reads_def)

lemma keeps_map_errS [keeps_rules]: "keeps I m \<Longrightarrow> keeps I (map_errS h m)"
  unfolding keeps_def map_errS_def by (force split: prod.splits)

lemma keeps_yield [keeps_rules]: "(\<And>s. I s \<Longrightarrow> I (at_yield w n s)) \<Longrightarrow> keeps I (yield w n)"
  by (simp add: keeps_def yield_def)

lemma keeps_case_prod [keeps_rules]: "(\<And>x y. keeps I (f x y)) \<Longrightarrow> keeps I (case p of (x, y) \<Rightarrow> f x y)"
  by (cases p) simp

lemma keeps_on_metrics [keeps_rules]: "(\<And>s. I s \<Longrightarrow> I (s\<lparr>sh_metrics := f (sh_metrics s)\<rparr>)) \<Longrightarrow> keeps I (on_metrics f)"
  by (simp add: keeps_def on_metrics_def)

lemma keeps_state: "(\<And>u. keeps I (f u)) \<Longrightarrow> keeps I (\<lambda>s. f s s)"
  by (simp add: keeps_def)

lemma keeps_commit_under_guard [keeps_rules]:
  "(\<And>v. keeps I (c v)) \<Longrightarrow> keeps I (commit_under_guard P l g m now c)"
  unfolding keeps_def commit_under_guard_def commit_active_chain_def by (auto split: sum.splits)

end
