(* ===== verification/AttemptTrace.thy ===== *)
theory AttemptTrace
  imports ExecLogic
begin

text \<open>
  What one attempt of the agent records, whatever other calls do in between. The steps an attempt
  takes on the store are appending its own events, inserting its own authorization and consuming it;
  they leave the events and authorizations of every other attempt alone, which is all an attempt
  relies on. Under this assumption the recorded trace of an attempt is complete and says what the
  call returned.
\<close>

section \<open>Steps of an attempt on the store\<close>

abbreviation bindings :: "'cap mission_store \<Rightarrow> (authorization_id, u64) btree_map" where
  "bindings st \<equiv> mx_value (ms_authorization_attempts st)"

inductive attempt_does :: "u64 \<Rightarrow> 'cap mission_store \<Rightarrow> 'cap mission_store \<Rightarrow> bool" for a where
  does_append: "append_for_attempt a k now st = (Inr (), st') \<Longrightarrow> attempt_does a st st'"
| does_insert: "insert_authorization_for_attempt a r st = (Inr (), st') \<Longrightarrow> az_state r = Issued \<Longrightarrow> attempt_does a st st'"
| does_consume: "map_of (bindings st) i = Some a \<Longrightarrow> lookup_record st i = Some r \<Longrightarrow> available g r \<Longrightarrow>
    attempt_does a st (spend i st)"

definition undisturbed :: "u64 \<Rightarrow> 'cap mission_store \<Rightarrow> 'cap mission_store \<Rightarrow> bool" where
  "undisturbed a st st' \<longleftrightarrow> mx_poisoned (ms_events st') = mx_poisoned (ms_events st)
     \<and> attempt_kinds a (events st') = attempt_kinds a (events st)
     \<and> consumed_for a (bindings st') (records st') = consumed_for a (bindings st) (records st)
     \<and> (\<forall>i. map_of (bindings st) i = Some a \<longrightarrow> lookup_record st i \<noteq> None
          \<longrightarrow> map_of (bindings st') i = Some a \<and> lookup_record st' i \<noteq> None)"

lemma undisturbed_refl [simp]: "undisturbed a st st"
  by (simp add: undisturbed_def)

lemma undisturbed_trans: "undisturbed a s t \<Longrightarrow> undisturbed a t u \<Longrightarrow> undisturbed a s u"
  unfolding undisturbed_def by simp

lemma append_ok:
  "append_for_attempt a k now st = (Inr (), st') \<longleftrightarrow> \<not> mx_poisoned (ms_events st)
     \<and> st' = st\<lparr>ms_events := (ms_events st)\<lparr>mx_value :=
         push_mission_event (me_mission_id (ms_mission st)) (Some a) k now (events st)\<rparr>\<rparr>"
  unfolding append_for_attempt_def append_event_def atomicS_eq_Inr bindE_eq_Inr lock_eq_Inr by auto

lemma append_healthy:
  "\<not> mx_poisoned (ms_events st) \<Longrightarrow> \<exists>st'. append_for_attempt a k now st = (Inr (), st')"
  by (simp add: append_ok)

lemma attempt_kinds_push [simp]:
  "attempt_kinds b (push_mission_event m (Some a) k now es) = (if b = a then attempt_kinds b es @ [k] else attempt_kinds b es)"
  by (simp add: push_mission_event_def attempt_kinds_def)

lemma insert_ok:
  "insert_authorization_for_attempt a r st = (Inr (), st') \<longleftrightarrow> a \<noteq> 0
     \<and> \<not> mx_poisoned (ms_authorization_records st) \<and> \<not> mx_poisoned (ms_authorization_attempts st)
     \<and> lookup_record st (az_record_id r) = None
     \<and> st' = st\<lparr>ms_authorization_attempts := (ms_authorization_attempts st)\<lparr>mx_value :=
               bt_insert (az_record_id r) a (bindings st)\<rparr>,
             ms_authorization_records := (ms_authorization_records st)\<lparr>mx_value := records st @ [r]\<rparr>\<rparr>"
proof -
  have "find (\<lambda>x. az_record_id x = az_record_id r) (records st) = None
      \<longleftrightarrow> \<not> list_ex (\<lambda>x. az_record_id x = az_record_id r) (records st)"
    by (auto simp: find_None_iff list_ex_iff)
  then show ?thesis
    unfolding insert_authorization_for_attempt_def insert_authorization_inner_def
    by (cases "a = 0") (auto simp: err_def atomicS_eq_Inr bindE_eq_Inr lock_eq_Inr if_Inl_eq_Inr)
qed

lemma insert_error_state: "insert_authorization_for_attempt a r st = (Inl e, st') \<Longrightarrow> st' = st"
  by (auto simp: insert_authorization_for_attempt_def insert_authorization_inner_def atomicS_Inl split: if_splits)

lemma consumed_for_append: "consumed_for a b (rs @ qs) = consumed_for a b rs @ consumed_for a b qs"
  by (simp add: consumed_for_def)

lemma consumed_for_rebind:
  "find (\<lambda>r. az_record_id r = i) rs = None \<Longrightarrow> consumed_for a (bt_insert i c b) rs = consumed_for a b rs"
  by (auto simp: consumed_for_def map_of_bt_insert find_None_iff intro!: filter_cong)

lemma consumed_for_other:
  "map_of b i = Some c \<Longrightarrow> c \<noteq> a \<Longrightarrow> consumed_for a b (update_record i consumed_record rs) = consumed_for a b rs"
  by (induction rs) auto

lemma consumed_for_own:
  "map_of b i = Some a \<Longrightarrow> find (\<lambda>r. az_record_id r = i) rs = Some r \<Longrightarrow> az_state r \<noteq> Consumed \<Longrightarrow>
   length (consumed_for a b (update_record i consumed_record rs)) = Suc (length (consumed_for a b rs))"
  by (induction rs) (auto split: if_splits)

lemma lookup_appended: "find P (xs @ ys) = (case find P xs of Some x \<Rightarrow> Some x | None \<Rightarrow> find P ys)"
  by (induction xs) auto

text \<open>The guarantee of every attempt is the reliance of every other.\<close>

lemma other_attempt_undisturbed:
  assumes "attempt_does b st st'" and "b \<noteq> a"
  shows "undisturbed a st st'"
  using assms(1)
proof cases
  case (does_append k now)
  then show ?thesis using assms(2) by (auto simp: append_ok undisturbed_def)
next
  case (does_insert r)
  then show ?thesis using assms(2)
    by (auto simp: insert_ok undisturbed_def consumed_for_append consumed_for_rebind map_of_bt_insert lookup_appended
        split: option.splits)
next
  case (does_consume i r g)
  then show ?thesis using assms(2)
    by (auto simp: undisturbed_def spend_def consumed_for_other find_update_record)
qed

section \<open>What the gate hands over\<close>

definition returns :: "('a \<Rightarrow> bool) \<Rightarrow> ('s, 'e, 'a) exec \<Rightarrow> bool" where
  "returns Q m \<longleftrightarrow> (\<forall>s x t. m s = (Inr x, t) \<longrightarrow> Q x)"

named_theorems returns_rules \<open>what every value returned satisfies\<close>

lemma returns_bindS [returns_rules]: "(\<And>x. returns Q (f x)) \<Longrightarrow> returns Q (bindS m f)"
  unfolding returns_def bindS_eq_Inr by blast

lemma returns_liftS [returns_rules]: "(\<And>x. r = Inr x \<Longrightarrow> Q x) \<Longrightarrow> returns Q (liftS r)"
  by (simp add: returns_def liftS_eq)

lemma returns_case_prod [returns_rules]: "(\<And>x y. returns Q (f x y)) \<Longrightarrow> returns Q (case p of (x, y) \<Rightarrow> f x y)"
  by (cases p) simp

lemma returnsD: "returns Q m \<Longrightarrow> m s = (Inr x, t) \<Longrightarrow> Q x"
  unfolding returns_def by blast

definition artifact_ok :: "'cap authorized_execution \<times> authorization_artifact \<Rightarrow> bool" where
  "artifact_ok p \<longleftrightarrow> az_state (aa_record (snd p)) = Issued \<and> ax_certificate (fst p) = aa_certificate (snd p)
     \<and> az_record_id (aa_record (snd p)) = ac_authorization_record_id (aa_certificate (snd p))"

lemma issue_artifact:
  "issue_authorization P mission sn l v d tool md m i args custody u1 u2 now = Inr x \<Longrightarrow> artifact_ok x"
  unfolding issue_authorization_def Let_def bindE_eq_Inr by (auto simp: artifact_ok_def)

lemma authorize_artifact: "returns artifact_ok (authorize P w mission agent l c tool args custody now)"
  unfolding authorize_def by (intro returns_rules) (rule issue_artifact)

section \<open>The world of an attempt\<close>

text \<open>The trace of an attempt that returned a value, and the last event of one that returned an error.\<close>

fun outcome_trace :: "('cap, 'hv, 'tok, 'out) nexus \<Rightarrow> 'out run_outcome \<Rightarrow> mission_event_kind list" where
  "outcome_trace N (FinalOutcome f) = [ProtocolAccepted, FinalProduced]"
| "outcome_trace N (Executed out) = activation_steps @ [AuthorizationConsumed, ExecutionStarted,
     if nx_success N out then ExecutionCompleted else EvExecutionFailed ExecutionFailed]"

definition error_events :: "error_code \<Rightarrow> mission_event_kind set" where
  "error_events c = {EvModelFailed c, ProtocolRejected c, FinalRejected c, ActionRejected c,
     ExecutionRejectedBeforeNexus c, EvExecutionFailed c}"

definition evidence :: "mission_event_kind list \<Rightarrow> nat" where
  "evidence ks = length (filter (\<lambda>k. k = AuthorizationConsumed) ks)"

definition at_trace :: "u64 \<Rightarrow> mission_event_kind list \<Rightarrow> nat \<Rightarrow> 'cap mission_store \<Rightarrow> bool" where
  "at_trace a ks n st \<longleftrightarrow> \<not> mx_poisoned (ms_events st) \<and> attempt_kinds a (events st) = ks
     \<and> length (consumed_for a (bindings st) (records st)) = n"

definition holds_record :: "u64 \<Rightarrow> authorization_id option \<Rightarrow> 'cap mission_store \<Rightarrow> bool" where
  "holds_record a i st \<longleftrightarrow> (\<forall>j. i = Some j \<longrightarrow> map_of (bindings st) j = Some a \<and> lookup_record st j \<noteq> None)"

definition attempt_inv ::
  "('cap runtime \<Rightarrow> bool) \<Rightarrow> u64 \<Rightarrow> mission_event_kind list \<Rightarrow> nat \<Rightarrow> authorization_id option
   \<Rightarrow> 'cap runtime \<Rightarrow> bool" where
  "attempt_inv R a ks n i s \<longleftrightarrow> R s \<and> at_trace a ks n (sh_store s) \<and> holds_record a i (sh_store s)"

text \<open>
  \<open>R\<close> is any property of the runtime that the steps of the attempt and of the environment keep and
  that does not depend on the metrics, the ledger of certificates and the action budget: it is how a
  client of the trace learns more about the state in between.
\<close>

locale attempt_world =
  fixes w :: "'cap runtime schedule" and a :: u64 and R :: "'cap runtime \<Rightarrow> bool"
  assumes env_keeps: "R s \<Longrightarrow> R (at_yield w n s)"
    and env_undisturbed: "R s \<Longrightarrow> undisturbed a (sh_store s) (sh_store (at_yield w n s))"
    and own_keeps: "R s \<Longrightarrow> attempt_does a (sh_store s) st' \<Longrightarrow> R (s\<lparr>sh_store := st'\<rparr>)"
    and books_keep: "R s \<Longrightarrow> R (s\<lparr>sh_metrics := m\<rparr>)" "R s \<Longrightarrow> R (s\<lparr>rt_action_certificates := c\<rparr>)"
      "R s \<Longrightarrow> R (s\<lparr>rt_actions_consumed := k\<rparr>)"
begin

abbreviation own :: "mission_event_kind list \<Rightarrow> nat \<Rightarrow> authorization_id option \<Rightarrow> 'cap runtime \<Rightarrow> bool" where
  "own \<equiv> attempt_inv R a"

lemma inv_yield: "own ks n i s \<Longrightarrow> own ks n i (at_yield w m s)"
  using env_keeps [of s m] env_undisturbed [of s m]
  by (auto simp: attempt_inv_def at_trace_def holds_record_def undisturbed_def)

lemma inv_books:
  "own ks n i s \<Longrightarrow> own ks n i (s\<lparr>sh_metrics := m\<rparr>)"
  "own ks n i s \<Longrightarrow> own ks n i (s\<lparr>rt_action_certificates := c\<rparr>)"
  "own ks n i s \<Longrightarrow> own ks n i (s\<lparr>rt_actions_consumed := k\<rparr>)"
  by (simp_all add: attempt_inv_def books_keep)

lemma inv_append:
  assumes "own ks n i s"
  shows "runs_to (on_store (append_for_attempt a k now)) s (\<lambda>_ t. own (ks @ [k]) n i t) E"
proof -
  obtain st' where st': "append_for_attempt a k now (sh_store s) = (Inr (), st')"
    using append_healthy [of "sh_store s" a k now] assms by (auto simp: attempt_inv_def at_trace_def)
  have "R (s\<lparr>sh_store := st'\<rparr>)" using own_keeps does_append [OF st'] assms by (auto simp: attempt_inv_def)
  then have "own (ks @ [k]) n i (s\<lparr>sh_store := st'\<rparr>)"
    using st' assms unfolding append_ok by (auto simp: attempt_inv_def at_trace_def holds_record_def)
  then show ?thesis by (simp add: runs_to_on_store) (simp add: runs_to_def st')
qed

lemma inv_event: "own ks n i s \<Longrightarrow> runs_to (event w a k m) s (\<lambda>_ t. own (ks @ [k]) n i t) E"
  unfolding event_def runs_to_bindS runs_to_yield
  by (rule runs_to_mono [OF inv_append [where E = E]]) (auto intro: inv_yield)

lemma inv_reject:
  "own ks n i s \<Longrightarrow> runs_to (reject w a kind m e) s Q (\<lambda>e' t. e' = e \<and> own (ks @ [kind (code e)]) n i t)"
  unfolding reject_def runs_to_bindS runs_to_yield
  by (rule runs_to_mono [OF inv_append]) (auto simp: runs_to_liftS intro: inv_yield)

lemma inv_insert:
  assumes "own ks n None s" and "az_state r = Issued"
  shows "runs_to (on_store (insert_authorization_for_attempt a r)) s
    (\<lambda>_ t. own ks n (Some (az_record_id r)) t) (\<lambda>_ t. own ks n None t)"
proof (cases "insert_authorization_for_attempt a r (sh_store s)")
  case (Pair q st')
  show ?thesis
  proof (cases q)
    case (Inl e)
    then have "st' = sh_store s" using Pair insert_error_state by simp
    with Pair Inl assms show ?thesis unfolding runs_to_on_store by (simp add: runs_to_def)
  next
    case (Inr u)
    with Pair have ok: "insert_authorization_for_attempt a r (sh_store s) = (Inr (), st')" by simp
    have "R (s\<lparr>sh_store := st'\<rparr>)" using own_keeps does_insert [OF ok assms(2)] assms(1) by (auto simp: attempt_inv_def)
    moreover have "at_trace a ks n st' \<and> holds_record a (Some (az_record_id r)) st'"
      using ok assms unfolding insert_ok
      by (auto simp: attempt_inv_def at_trace_def holds_record_def consumed_for_append consumed_for_rebind
          map_of_bt_insert lookup_appended)
    ultimately show ?thesis using ok unfolding runs_to_on_store by (simp add: runs_to_def attempt_inv_def)
  qed
qed

lemma keeps_inv_yield: "keeps (own ks n i) (yield w m)"
  by (rule keeps_yield) (rule inv_yield)

lemma keeps_inv_metrics: "keeps (own ks n i) (on_metrics f)"
  by (rule keeps_on_metrics) (rule inv_books)

lemma keeps_inv_authorize: "keeps (own ks n i) (authorize P w mission agent l c tool args custody now)"
  unfolding authorize_def by (intro keeps_rules keeps_inv_yield)

text \<open>The commit point spends the record of the attempt, or nothing.\<close>

lemma inv_consume:
  assumes own: "own ks n (Some i) s" and i: "i = ac_authorization_record_id (ax_certificate x)"
  shows "runs_to (consume_and_issue N x v) s (\<lambda>_ t. own ks (Suc n) (Some i) t) (\<lambda>_ t. own ks n (Some i) t)"
proof -
  let ?g = "ac_authorization_generation (ax_certificate x)"
  let ?c = "issue_tokens N (ax_required_capabilities x) v"
  let ?st = "sh_store s"
  show ?thesis
  proof (cases "may_spend i ?g ?st")
    case (Inl e)
    then show ?thesis using own
      by (simp add: runs_to_def consume_and_issue_def consume_with_cases i [symmetric] attempt_inv_def)
  next
    case (Inr rs)
    then obtain r where r: "lookup_record ?st i = Some r" "available ?g r" by (auto simp: may_spend_ok)
    have b: "map_of (bindings ?st) i = Some a" using own by (simp add: attempt_inv_def holds_record_def)
    have "R (s\<lparr>sh_store := spend i ?st\<rparr>)" using own_keeps does_consume [OF b r] own by (auto simp: attempt_inv_def)
    then have "R (s\<lparr>sh_store := spend i ?st, sh_metrics := m\<rparr>)" for m using books_keep(1) by blast
    moreover have "at_trace a ks (Suc n) (spend i ?st)"
      using own b r by (auto simp: attempt_inv_def at_trace_def spend_def consumed_for_own available_def)
    moreover have "holds_record a (Some i) (spend i ?st)"
      using b r by (simp add: holds_record_def lookup_spend frame_simps)
    ultimately show ?thesis using own Inr
      by (cases "?c (sh_metrics s)")
        (auto simp: runs_to_def consume_and_issue_def consume_with_cases i [symmetric] attempt_inv_def
          books_keep split: sum.splits)
  qed
qed

lemma inv_commit_execution:
  assumes "own ks n (Some i) s" and "i = ac_authorization_record_id (ax_certificate x)"
  shows "runs_to (commit_execution P N w custody x m now v) s (\<lambda>_ t. own ks (Suc n) (Some i) t) (\<lambda>_ t. own ks n (Some i) t)"
  unfolding commit_execution_def by (intro run_rules assms(1) inv_consume [OF assms])

lemma inv_commit_phase:
  assumes "own ks n (Some i) s" and i: "i = ac_authorization_record_id (ax_certificate x)"
  shows "runs_to (commit_phase P N w custody x) s (\<lambda>_ t. own ks (Suc n) (Some i) t) (\<lambda>_ t. own ks n (Some i) t)"
proof -
  have "own ks n (Some i) (at_yield w 20 s)" using assms(1) by (rule inv_yield)
  from runs_to_mono [OF inv_commit_execution [OF this i]] this show ?thesis
    unfolding commit_phase_def by (intro run_rules) (auto simp: run_simps assms(1) split: prod.splits)
qed

text \<open>Steps of a run as rules with their continuation.\<close>

lemma step_yield:
  "own ks n i s \<Longrightarrow> (\<And>t. own ks n i t \<Longrightarrow> runs_to (f ()) t Q E) \<Longrightarrow> runs_to (bindS (yield w m) f) s Q E"
  by (auto simp: run_simps intro: inv_yield)

lemma step_metrics:
  "own ks n i s \<Longrightarrow> (\<And>t. own ks n i t \<Longrightarrow> runs_to (f ()) t Q E) \<Longrightarrow> runs_to (bindS (on_metrics g) f) s Q E"
  by (simp add: run_simps inv_books)

lemma step_event:
  "own ks n i s \<Longrightarrow> (\<And>t. own (ks @ [k]) n i t \<Longrightarrow> runs_to (f ()) t Q E) \<Longrightarrow> runs_to (bindS (event w a k m) f) s Q E"
  unfolding runs_to_bindS by (rule runs_to_mono [OF inv_event]) auto

lemma step_append:
  "own ks n i s \<Longrightarrow> (\<And>t. own (ks @ [k]) n i t \<Longrightarrow> runs_to (f ()) t Q E) \<Longrightarrow>
   runs_to (bindS (on_store (append_for_attempt a k now)) f) s Q E"
  unfolding runs_to_bindS by (rule runs_to_mono [OF inv_append]) auto

lemma step_append_err:
  "own ks n i s \<Longrightarrow> (\<And>t. own (ks @ [k]) n i t \<Longrightarrow> runs_to (f ()) t Q E) \<Longrightarrow>
   runs_to (bindS (map_errS h (on_store (append_for_attempt a k now))) f) s Q E"
  unfolding runs_to_bindS runs_to_map_errS by (rule runs_to_mono [OF inv_append]) auto

lemma step_commit:
  assumes "own ks n (Some i) s" and "i = ac_authorization_record_id (ax_certificate x)"
    and "\<And>e t. own ks n (Some i) t \<Longrightarrow> E (h e) t"
    and "\<And>y t. own ks (Suc n) (Some i) t \<Longrightarrow> runs_to (f y) t Q E"
  shows "runs_to (bindS (map_errS h (commit_phase P N w custody x)) f) s Q E"
  unfolding runs_to_bindS runs_to_map_errS
  by (rule runs_to_mono [OF inv_commit_phase [OF assms(1,2)]]) (use assms(3,4) in auto)

lemma inv_execute:
  assumes own: "own ks n (Some i) s" and i: "i = ac_authorization_record_id (ax_certificate x)"
  shows "runs_to (execute_inner P N w custody x a) s
    (\<lambda>_ t. own (ks @ [AuthorizationConsumed, ExecutionStarted]) (Suc n) (Some i) t)
    (\<lambda>e t. pe_position e = BeforeNexus \<and> own ks n (Some i) t
      \<or> pe_position e = Started \<and> own (ks @ [AuthorizationConsumed, ExecutionStarted]) (Suc n) (Some i) t)"
proof -
  have last: "runs_to (liftS (case nx_execute N h d y z of
        None \<Rightarrow> Inl (started (RuntimeError ExecutionFailed msg)) | Some out \<Rightarrow> Inr out)) t Q E"
    if "\<And>out. Q out t" "\<And>e. E (started e) t" for h d y z msg t Q E
    using that by (auto simp: run_simps split: option.splits)
  show ?thesis
    unfolding execute_inner_def
    apply (rule step_metrics [OF own])
    apply (rule step_commit [OF _ i], assumption)
     apply (simp add: before_nexus_def)
    apply (rule run_case_prod, rule run_case_prod)
    apply (rule step_yield, assumption)
    apply (rule step_append_err, assumption)
    apply (rule step_yield, assumption)
    apply (rule step_append_err, assumption)
    apply (rule step_metrics, assumption)
    apply (rule step_yield, assumption)
    apply (rule last)
     apply (simp_all add: started_def)
    done
qed

lemma executed_evidence: "evidence (activation_steps @ [AuthorizationConsumed, ExecutionStarted,
    if b then ExecutionCompleted else EvExecutionFailed c]) = Suc 0"
  by (simp add: evidence_def activation_steps_def)

text \<open>An attempt that has ended: its trace is complete and shows every authorization it consumed.\<close>

definition settled_error :: "runtime_error \<Rightarrow> 'cap runtime \<Rightarrow> bool" where
  "settled_error e t \<longleftrightarrow> (\<exists>ks i. own ks (evidence ks) i t \<and> tail_complete Begun ks \<and> last ks \<in> error_events (code e))"

lemma settled_errorI:
  "own ks n i t \<Longrightarrow> n = evidence ks \<Longrightarrow> tail_complete Begun ks \<Longrightarrow> last ks \<in> error_events (code e) \<Longrightarrow> settled_error e t"
  unfolding settled_error_def by blast

lemma settle_reject:
  assumes "own ks n i s" and "n = evidence (ks @ [kind (code e)])" and "tail_complete Begun (ks @ [kind (code e)])"
    and "kind (code e) \<in> error_events (code e)"
  shows "runs_to (reject w a kind m e) s Q settled_error"
  by (rule runs_to_mono [OF inv_reject [OF assms(1)]]) (use assms(2-) in \<open>auto intro: settled_errorI\<close>)

lemmas trace_simps = activation_steps_def evidence_def tail_complete_unfold error_events_def

lemma inv_run_execution:
  assumes own: "own activation_steps 0 (Some i) s" and i: "i = ac_authorization_record_id (ax_certificate x)"
  shows "runs_to (run_execution P N w a x) s (\<lambda>r t. own (outcome_trace N r) (evidence (outcome_trace N r)) (Some i) t) settled_error"
  unfolding run_execution_def
  apply (rule run_bindS, rule run_reads, simp)
  apply (rule run_onResult)
  apply (rule runs_to_mono [OF inv_execute [OF own i]])
   apply (rule step_append, assumption)
   apply (rule run_liftS)
    apply simp
   apply (clarsimp simp: executed_evidence split del: if_split)
  apply (elim disjE conjE)
   apply (rule settle_reject, assumption, simp_all add: trace_simps)
  apply (rule settle_reject, assumption, simp_all add: trace_simps)
  done

lemma inv_run_authorized:
  assumes own: "own [ProtocolAccepted, PlanAccepted] 0 None s" and ok: "artifact_ok (x, art)"
  shows "runs_to (run_authorized P N w a x art) s (\<lambda>r t. \<exists>i. own (outcome_trace N r) (evidence (outcome_trace N r)) i t) settled_error"
proof -
  have st: "az_state (aa_record art) = Issued"
    and i: "az_record_id (aa_record art) = ac_authorization_record_id (ax_certificate x)"
    using ok by (simp_all add: artifact_ok_def)
  have steps: "[ProtocolAccepted, PlanAccepted] @ [ActionAuthorized] @ [AuthorizationIssued] = activation_steps"
    by (simp add: activation_steps_def)
  show ?thesis
    unfolding run_authorized_def
    apply (rule step_event [OF own])
    apply (rule step_event, assumption)
    apply (rule run_onResult)
    apply (rule runs_to_mono [OF inv_insert [OF _ st]], simp only: append_assoc steps)
     apply (rule step_yield, assumption)
     apply (rule run_onResult)
     apply (rule runs_to_mono [where Q = "\<lambda>_ t. own activation_steps 0 (Some (az_record_id (aa_record art))) t"
           and E = "\<lambda>_ t. own activation_steps 0 (Some (az_record_id (aa_record art))) t"])
       apply (auto simp: runs_to_def push_certificate_def lock_def err_def intro: inv_books) [1]
      apply (rule step_yield, assumption)
      apply (rule runs_to_mono [OF inv_run_execution [OF _ i]], assumption, blast, assumption)
     apply (rule settle_reject, assumption, simp_all add: trace_simps) [1]
    apply (rule settle_reject, assumption, simp_all add: trace_simps)
    done
qed

lemma inv_reserve_action:
  "own ks n i s \<Longrightarrow> runs_to reserve_action s (\<lambda>_ t. own ks n i t) (\<lambda>_ t. own ks n i t)"
  by (auto simp: runs_to_def reserve_action_def reserve_def err_def intro: inv_books)

lemma run_keeps:
  assumes "keeps (own ks n i) m" and "own ks n i s" and "returns Q' m"
    and "\<And>x t. own ks n i t \<Longrightarrow> Q' x \<Longrightarrow> Q x t" and "\<And>e t. own ks n i t \<Longrightarrow> E e t"
  shows "runs_to m s Q E"
proof (cases "m s")
  case (Pair r t)
  have "own ks n i t" using keepsD [OF assms(1,2) Pair] .
  with Pair assms(3-5) show ?thesis by (cases r) (auto simp: runs_to_def dest: returnsD)
qed

lemma inv_run_tool_call:
  assumes own: "own [ProtocolAccepted] 0 None s"
  shows "runs_to (run_tool_call P N w c a p) s (\<lambda>r t. \<exists>i. own (outcome_trace N r) (evidence (outcome_trace N r)) i t) settled_error"
  unfolding run_tool_call_def
  apply (rule step_event [OF own])
  apply (rule step_metrics, assumption)
  apply (rule run_onResult, rule run_reads)
   apply (rule settle_reject, assumption, simp_all add: trace_simps) [1]
  apply (rule step_yield, assumption)
  apply (rule run_onResult)
  apply (rule run_keeps [OF keeps_state [OF keeps_inv_authorize], where Q' = artifact_ok], assumption)
    apply (simp add: returns_def, metis returnsD [OF authorize_artifact])
   apply (rule run_case_prod)
   apply (rule step_yield, assumption)
   apply (rule run_onResult)
   apply (rule runs_to_mono [OF inv_reserve_action], assumption)
    apply (rule inv_run_authorized, simp_all) [1]
   apply (rule settle_reject, assumption, simp_all add: trace_simps) [1]
  apply (rule settle_reject, assumption, simp_all add: trace_simps)
  done

lemma inv_accept_final:
  assumes own: "own ks n i s"
  shows "runs_to (accept_model_final P w ob a now) s (\<lambda>_ t. own (ks @ [FinalProduced]) n i t) (\<lambda>_ t. own ks n i t)"
  unfolding accept_model_final_def
  by (intro run_rules own inv_append)

lemma inv_message:
  assumes own: "own [ProtocolAccepted] 0 None s"
  shows "runs_to (case msg of
      ToolCall proposal \<Rightarrow> run_tool_call P N w c a proposal
    | FinalMessage f \<Rightarrow> onResult (accept_model_final P w ob a now) (reject w a FinalRejected m)
        (\<lambda>_. liftS (Inr (FinalOutcome f)))) s
    (\<lambda>r t. \<exists>i. own (outcome_trace N r) (evidence (outcome_trace N r)) i t) settled_error"
proof (cases msg)
  case (ToolCall p)
  show ?thesis using inv_run_tool_call [OF own] by (simp add: ToolCall)
next
  case (FinalMessage f)
  have "runs_to (onResult (accept_model_final P w ob a now) (reject w a FinalRejected m)
        (\<lambda>_. liftS (Inr (FinalOutcome f)))) s
    (\<lambda>r t. \<exists>i. own (outcome_trace N r) (evidence (outcome_trace N r)) i t) settled_error"
    apply (rule run_onResult, rule runs_to_mono [OF inv_accept_final [OF own]])
     apply (rule run_liftS, simp, clarsimp, rule exI [of _ None], simp add: evidence_def)
    apply (rule settle_reject, assumption, simp_all add: trace_simps)
    done
  then show ?thesis by (simp add: FinalMessage)
qed

text \<open>The whole attempt.\<close>

lemma attempt_settles:
  assumes own: "own [] 0 None s"
  shows "runs_to (run_attempt P N M w c ob instruction a) s
    (\<lambda>r t. \<exists>i. own (outcome_trace N r) (evidence (outcome_trace N r)) i t) settled_error"
  unfolding run_attempt_def
  apply (rule step_metrics [OF own])
  apply (rule step_yield, assumption)
  apply (rule run_onResult, rule run_reads)
   apply (rule settle_reject, assumption, simp_all add: trace_simps) [1]
  apply (rule step_metrics, assumption)
  apply (rule run_onResult, rule run_reads)
   apply (rule settle_reject, assumption, simp_all add: trace_simps) [1]
  apply (rule step_event, assumption)
  apply (rule inv_message, simp)
  done

end

end
