(* ===== verification/RunFrames.thy ===== *)
theory RunFrames
  imports ExecLogic
begin

text \<open>
  What a call of the supervisor leaves alone, and how it spends its reservations. A frame is a
  property of the runtime that the bookkeeping of a call does not touch; a world of reservations has
  one property that holds outside, and one for each point between two of the counted steps of a call:
  the model call, the protocol gate, the action gate, the execution port and Nexus. The calls are
  walked through once, here; the budgets and the kernel behind the runtime are instances.
\<close>

section \<open>A call without interference\<close>

definition alone :: "(nat \<Rightarrow> timestamp) \<Rightarrow> (nat \<Rightarrow> string) \<Rightarrow> 's schedule" where
  "alone clk ids = \<lparr>at_yield = \<lambda>_ s. s, clock = clk, uuid = ids\<rparr>"

lemma alone_simps [simp]: "at_yield (alone clk ids) n s = s" "clock (alone clk ids) = clk" "uuid (alone clk ids) = ids"
  by (simp_all add: alone_def)

section \<open>Counters and frames\<close>

datatype meter = ModelCalls | ProtocolCalls | GateCalls | PortCalls | NexusRuns

fun reading :: "meter \<Rightarrow> r1_metrics \<Rightarrow> u64" where
  "reading ModelCalls m = mc_model_calls m"
| "reading ProtocolCalls m = mc_protocol_gate_calls m"
| "reading GateCalls m = mc_action_gate_calls m"
| "reading PortCalls m = mc_execution_port_calls m"
| "reading NexusRuns m = mc_nexus_executions m"

lemma reading_token [simp]: "reading c (token_issued m) = reading c m"
  by (cases c) (simp_all add: token_issued_def)

text \<open>How often the log of a store says that Nexus was entered.\<close>

definition nexus_entries :: "'cap mission_store \<Rightarrow> nat" where
  "nexus_entries st = length (filter (\<lambda>ev. ev_kind ev = ExecutionStarted) (events st))"

definition quiet :: "'cap mission_store \<Rightarrow> 'cap mission_store \<Rightarrow> bool" where
  "quiet st st' \<longleftrightarrow> ms_next_attempt_id st' = ms_next_attempt_id st \<and> nexus_entries st' = nexus_entries st"

lemma quiet_refl [simp]: "quiet st st"
  by (simp add: quiet_def)

lemma append_event_cases:
  "append_for_attempt a k now st = (if mx_poisoned (ms_events st) then (err Internal ''mission event lock poisoned'', st)
     else (Inr (), st\<lparr>ms_events := (ms_events st)\<lparr>mx_value :=
       push_mission_event (me_mission_id (ms_mission st)) (Some a) k now (events st)\<rparr>\<rparr>))"
  by (simp add: append_for_attempt_def append_event_def atomicS_def lock_def err_def)

lemma append_quiet: "k \<noteq> ExecutionStarted \<Longrightarrow> quiet st (snd (append_for_attempt a k now st))"
  by (simp add: append_event_cases quiet_def nexus_entries_def push_mission_event_def)

lemma append_counted:
  "append_for_attempt a ExecutionStarted now st = (Inr u, st') \<Longrightarrow>
   nexus_entries st' = Suc (nexus_entries st) \<and> ms_next_attempt_id st' = ms_next_attempt_id st"
  by (auto simp: append_event_cases nexus_entries_def push_mission_event_def err_def split: if_splits)

lemma append_error_state: "append_for_attempt a k now st = (Inl e, st') \<Longrightarrow> st' = st"
  by (simp add: append_event_cases split: if_splits)

lemma insert_quiet: "quiet st (snd (insert_authorization_for_attempt a r st))"
  by (auto simp: insert_authorization_for_attempt_def insert_authorization_inner_def atomicS_def quiet_def nexus_entries_def
      bindE_def lock_def err_def split: sum.splits)

lemma spend_quiet: "quiet st (spend i st)"
  by (simp add: spend_def quiet_def nexus_entries_def)

locale run_frame =
  fixes w :: "'cap runtime schedule" and I :: "'cap runtime \<Rightarrow> bool"
  assumes at_yields: "I s \<Longrightarrow> I (at_yield w n s)"
    and at_store: "I s \<Longrightarrow> quiet (sh_store s) st \<Longrightarrow> I (s\<lparr>sh_store := st\<rparr>)"
    and at_ledger: "I s \<Longrightarrow> I (s\<lparr>rt_action_certificates := c\<rparr>)"
    and at_metrics: "I s \<Longrightarrow> (\<And>c. reading c m = reading c (sh_metrics s)) \<Longrightarrow> I (s\<lparr>sh_metrics := m\<rparr>)"
begin

lemma frame_yield: "keeps I (yield w n)"
  by (rule keeps_yield) (rule at_yields)

lemma frame_append: "k \<noteq> ExecutionStarted \<Longrightarrow> keeps I (on_store (append_for_attempt a k now))"
  by (simp add: keeps_def on_store_def case_prod_beta at_store append_quiet)

lemma frame_insert: "keeps I (on_store (insert_authorization_for_attempt a r))"
  by (simp add: keeps_def on_store_def case_prod_beta at_store insert_quiet)

lemma frame_certificate: "keeps I (push_certificate c)"
  by (auto simp: keeps_def push_certificate_def lock_def err_def at_ledger)

lemma issue_loop_counters: "issue_loop N v cs h ts m = (r, m') \<Longrightarrow> reading c m' = reading c m"
  by (induction N v cs h ts m rule: issue_loop.induct) (auto simp: err_def split: option.splits)

lemma frame_consume: "keeps I (consume_and_issue N x v)"
proof -
  have "I (snd (consume_and_issue N x v s))" if I: "I s" for s
  proof (cases "consume_authorization_with (ac_authorization_record_id (ax_certificate x))
      (ac_authorization_generation (ax_certificate x)) (issue_tokens N (ax_required_capabilities x) v)
      (sh_store s, sh_metrics s)")
    case (fields r st m)
    then have "reading c m = reading c (sh_metrics s)" for c
      unfolding consume_with_cases issue_tokens_def
      by (auto simp: err_def split: sum.splits prod.splits option.splits dest: issue_loop_counters)
    moreover have "quiet (sh_store s) st"
      using fields spend_quiet unfolding consume_with_cases by (auto split: sum.splits prod.splits)
    ultimately have "I (s\<lparr>sh_store := st\<rparr>\<lparr>sh_metrics := m\<rparr>)" using I by (intro at_metrics at_store) simp_all
    then show ?thesis by (simp add: consume_and_issue_def fields)
  qed
  then show ?thesis by (simp add: keeps_def)
qed

lemmas frame_steps = keeps_rules frame_yield frame_append frame_insert frame_certificate frame_consume

lemma frame_reject: "(\<And>c. k c \<noteq> ExecutionStarted) \<Longrightarrow> keeps I (reject w a k n e)"
  unfolding reject_def by (intro frame_steps)

lemma frame_event: "k \<noteq> ExecutionStarted \<Longrightarrow> keeps I (event w a k n)"
  unfolding event_def by (intro frame_steps)

lemma frame_authorize: "keeps I (authorize P w mission agent l c tool args custody now)"
  unfolding authorize_def by (intro frame_steps)

lemma frame_commit: "keeps I (commit_phase P N w custody x)"
  unfolding commit_phase_def commit_execution_def by (intro frame_steps)

lemma frame_final: "keeps I (accept_model_final P w ob a now)"
  unfolding accept_model_final_def by (intro frame_steps) simp

lemma frame_snapshot: "keeps I (active_lease_snapshot w n)"
  unfolding active_lease_snapshot_def by (intro frame_steps)

lemma frame_observe: "keeps I (observe_model_authority P w c now)"
  unfolding observe_model_authority_def by (intro frame_steps frame_snapshot)

lemmas frame_calls = frame_steps frame_reject frame_event frame_authorize frame_commit frame_final
  frame_snapshot frame_observe

text \<open>A step that keeps the frame, in front of a run.\<close>

lemma after_frame:
  assumes "keeps I m" and "I s" and "\<And>x t. I t \<Longrightarrow> runs_to (f x) t Q E" and "\<And>e t. I t \<Longrightarrow> E e t"
  shows "runs_to (bindS m f) s Q E"
  unfolding runs_to_bindS by (rule runs_to_mono [OF keeps_runs_to [OF assms(1,2)]]) (auto intro: assms(3,4))

lemma frame_or:
  assumes "keeps I m" and "I s" and "\<And>x t. I t \<Longrightarrow> runs_to (f x) t Q E" and "\<And>e t. I t \<Longrightarrow> runs_to (h e) t Q E"
  shows "runs_to (onResult m h f) s Q E"
  unfolding runs_to_onResult by (rule runs_to_mono [OF keeps_runs_to [OF assms(1,2)]]) (auto intro: assms(3,4))

lemma frame_last:
  assumes "keeps I m" and "I s" and "\<And>t. I t \<Longrightarrow> J t"
  shows "runs_to m s (\<lambda>_. J) (\<lambda>_. J)"
  by (rule runs_to_mono [OF keeps_runs_to [OF assms(1,2)]]) (auto intro: assms(3))

end

section \<open>Reservations\<close>

text \<open>\<open>K\<close> holds outside; \<open>A\<close> while an action is reserved, \<open>X\<close> once its execution has been counted.\<close>

locale action_world = kept: run_frame w K + granted: run_frame w A + executing: run_frame w X
  for w :: "'cap runtime schedule" and K A X +
  assumes granted_kept: "A s \<Longrightarrow> K s" "X s \<Longrightarrow> K s"
    and grant: "K s \<Longrightarrow> runs_to reserve_action s (\<lambda>_. A) (\<lambda>_. K)"
    and port_spends: "A s \<Longrightarrow> X (s\<lparr>sh_metrics := execution_port_call (sh_metrics s)\<rparr>)"
    and nexus_spends: "X s \<Longrightarrow> append_for_attempt a ExecutionStarted now (sh_store s) = (Inr (), st) \<Longrightarrow>
      K (s\<lparr>sh_store := st, sh_metrics := nexus_execution (sh_metrics s)\<rparr>)"
begin

lemma enter_port:
  "A s \<Longrightarrow> (\<And>t. X t \<Longrightarrow> runs_to (f ()) t Q E) \<Longrightarrow> runs_to (bindS (on_metrics execution_port_call) f) s Q E"
  by (simp add: run_simps port_spends)

lemma enter_nexus:
  assumes "X s" and "\<And>t. K t \<Longrightarrow> runs_to (f ()) t (\<lambda>_. K) (\<lambda>_. K)"
  shows "runs_to (bindS (map_errS h (on_store (append_for_attempt a ExecutionStarted now)))
    (\<lambda>_. bindS (on_metrics nexus_execution) f)) s (\<lambda>_. K) (\<lambda>_. K)"
proof (cases "append_for_attempt a ExecutionStarted now (sh_store s)")
  case (Pair r st)
  show ?thesis
  proof (cases r)
    case (Inl e)
    with Pair append_error_state have "st = sh_store s" by blast
    then show ?thesis using Pair Inl granted_kept(2) [OF assms(1)]
      by (simp add: run_simps) (simp add: runs_to_def)
  next
    case (Inr u)
    with Pair nexus_spends [OF assms(1), of a now st] assms(2) show ?thesis
      by (simp add: run_simps) (simp add: runs_to_def)
  qed
qed

lemma execute_spends: "A s \<Longrightarrow> runs_to (execute_inner P N w custody x a) s (\<lambda>_. K) (\<lambda>_. K)"
  unfolding execute_inner_def
  apply (erule enter_port)
  apply (rule executing.after_frame, intro executing.frame_calls, assumption)
   apply (rule run_case_prod, rule run_case_prod)
   apply (rule executing.after_frame, intro executing.frame_calls, assumption)
    apply (rule executing.after_frame, intro executing.frame_calls, simp, assumption)
     apply (rule executing.after_frame, intro executing.frame_calls, assumption)
      apply (erule enter_nexus)
      apply (rule kept.frame_last, intro kept.frame_calls, assumption, assumption)
     apply (erule granted_kept)+
  done

lemma run_execution_spends: "A s \<Longrightarrow> runs_to (run_execution P N w a x) s (\<lambda>_. K) (\<lambda>_. K)"
  unfolding run_execution_def
  apply (rule run_bindS, rule run_reads, simp)
  apply (rule run_onResult, rule runs_to_mono [OF execute_spends], assumption)
   apply (rule kept.frame_last, intro kept.frame_calls, simp, assumption, assumption)
  apply (rule kept.frame_last, intro kept.frame_calls, simp split: execution_position.split, assumption, assumption)
  done

lemma run_authorized_spends: "A s \<Longrightarrow> runs_to (run_authorized P N w a x art) s (\<lambda>_. K) (\<lambda>_. K)"
  unfolding run_authorized_def
  apply (rule granted.after_frame, rule granted.frame_event, simp, assumption)
   apply (rule granted.after_frame, rule granted.frame_event, simp, assumption)
    apply (rule granted.frame_or, intro granted.frame_calls, assumption)
     apply (rule granted.after_frame, intro granted.frame_calls, assumption)
      apply (rule granted.frame_or, intro granted.frame_calls, assumption)
       apply (rule granted.after_frame, intro granted.frame_calls, assumption)
        apply (erule run_execution_spends)
       apply (erule granted_kept)
      apply (rule granted.frame_last, rule granted.frame_reject, simp, assumption, erule granted_kept)
     apply (erule granted_kept)
    apply (rule granted.frame_last, rule granted.frame_reject, simp, assumption, erule granted_kept)
   apply (erule granted_kept)+
  done

end

text \<open>
  \<open>S\<close> holds while a step is reserved, \<open>C\<close> once its model call has been counted and \<open>G\<close> once its
  answer has been counted at the protocol gate.
\<close>

locale step_world = action_world w K A X + reserved: run_frame w S + called: run_frame w C + gated: run_frame w G
  for w :: "'cap runtime schedule" and K A X S C G +
  assumes reserved_kept: "S s \<Longrightarrow> K s" "C s \<Longrightarrow> K s" "G s \<Longrightarrow> K s"
    and reserves: "K s \<Longrightarrow> runs_to reserve_step s (\<lambda>_. S) (\<lambda>_. K)"
    and model_spends: "S s \<Longrightarrow> begin_attempt (sh_store s) = (a, st) \<Longrightarrow>
      C (s\<lparr>sh_store := st, sh_metrics := model_call (sh_metrics s)\<rparr>)"
    and protocol_spends: "C s \<Longrightarrow> G (s\<lparr>sh_metrics := protocol_gate_call (sh_metrics s)\<rparr>)"
    and gate_spends: "G s \<Longrightarrow> K (s\<lparr>sh_metrics := action_gate_call (sh_metrics s)\<rparr>)"
begin

lemma enter_gates:
  "C s \<Longrightarrow> (\<And>t. G t \<Longrightarrow> runs_to (f ()) t Q E) \<Longrightarrow> runs_to (bindS (on_metrics protocol_gate_call) f) s Q E"
  "G s \<Longrightarrow> (\<And>t. K t \<Longrightarrow> runs_to (f ()) t Q E) \<Longrightarrow> runs_to (bindS (on_metrics action_gate_call) f) s Q E"
  by (simp_all add: run_simps protocol_spends gate_spends)

lemma run_tool_call_spends: "G s \<Longrightarrow> runs_to (run_tool_call P N w c a p) s (\<lambda>_. K) (\<lambda>_. K)"
  unfolding run_tool_call_def
  apply (rule gated.after_frame, rule gated.frame_event, simp, assumption)
   apply (erule enter_gates(2))
   apply (rule kept.frame_or, intro kept.frame_calls, assumption)
    apply (rule kept.after_frame, intro kept.frame_calls, assumption)
     apply (rule kept.frame_or, rule keeps_state, intro kept.frame_calls, assumption)
      apply (rule run_case_prod)
      apply (rule kept.after_frame, intro kept.frame_calls, assumption)
       apply (rule run_onResult, rule runs_to_mono [OF grant], assumption)
        apply (erule run_authorized_spends)
       apply (rule kept.frame_last, rule kept.frame_reject, simp, assumption+)
     apply (rule kept.frame_last, rule kept.frame_reject, simp, assumption+)
   apply (rule kept.frame_last, rule kept.frame_reject, simp, assumption+)
  apply (erule reserved_kept)
  done

lemma run_message_spends:
  "G s \<Longrightarrow> runs_to (case msg of
      ToolCall proposal \<Rightarrow> run_tool_call P N w c a proposal
    | FinalMessage f \<Rightarrow> onResult (accept_model_final P w ob a now) (reject w a FinalRejected m)
        (\<lambda>_. liftS (Inr (FinalOutcome f)))) s (\<lambda>_. K) (\<lambda>_. K)"
  apply (cases msg)
   apply (simp add: run_tool_call_spends)
  apply simp
  apply (rule gated.frame_last, intro gated.frame_calls, simp, assumption, erule reserved_kept)
  done

lemma run_attempt_spends:
  assumes "C (s\<lparr>sh_metrics := model_call (sh_metrics s)\<rparr>)"
  shows "runs_to (run_attempt P N M w c ob instruction a) s (\<lambda>_. K) (\<lambda>_. K)"
  unfolding run_attempt_def
  apply (rule run_bindS, rule run_on_metrics)
  apply (rule called.after_frame, intro called.frame_calls, rule assms)
   apply (rule called.frame_or, intro called.frame_calls, assumption)
    apply (erule enter_gates(1))
    apply (rule gated.frame_or, intro gated.frame_calls, assumption)
     apply (rule gated.after_frame, rule gated.frame_event, simp, assumption)
      apply (erule run_message_spends)
     apply (erule reserved_kept)
    apply (rule gated.frame_last, rule gated.frame_reject, simp, assumption, erule reserved_kept)
   apply (rule called.frame_last, rule called.frame_reject, simp, assumption, erule reserved_kept)
  apply (erule reserved_kept)
  done

lemma begin_spends:
  assumes "S s"
  shows "runs_to (bindS (on_store (\<lambda>st. case begin_attempt st of (a, st') \<Rightarrow> (Inr a, st')))
    (run_attempt P N M w c ob instruction)) s (\<lambda>_. K) (\<lambda>_. K)"
proof (cases "begin_attempt (sh_store s)")
  case (Pair a st)
  have "C ((s\<lparr>sh_store := st\<rparr>)\<lparr>sh_metrics := model_call (sh_metrics (s\<lparr>sh_store := st\<rparr>))\<rparr>)"
    using model_spends [OF assms Pair] by simp
  from run_attempt_spends [OF this] show ?thesis
    by (simp add: runs_to_bindS runs_to_on_store) (simp add: runs_to_def Pair)
qed

lemma run_once_spends: "K s \<Longrightarrow> runs_to (run_once P N M w) s (\<lambda>_. K) (\<lambda>_. K)"
  unfolding run_once_def
  apply (rule kept.after_frame, intro kept.frame_calls, assumption)
   apply (rule kept.after_frame, intro kept.frame_calls, assumption)
    apply (rule kept.after_frame, intro kept.frame_calls, assumption)
     apply (rule kept.after_frame, intro kept.frame_calls, assumption)
      apply (rule run_bindS, rule runs_to_mono [OF reserves], assumption)
       apply (rule reserved.after_frame, intro reserved.frame_calls, assumption)
        apply (rule reserved.after_frame, intro reserved.frame_calls, assumption)
         apply (erule begin_spends)
        apply ((erule reserved_kept | assumption))+
  done

end

end
