(* ===== verification/RuntimeRuns.thy ===== *)
theory RuntimeRuns
  imports RunFrames KernelRuns
begin

text \<open>
  Runs of the runtime: sequences of calls of its public methods. In the gaps of a call, where it
  holds no lock, other calls may run, with gaps of their own. Every call has its own model client and
  its own Nexus: a call asks the model at most once and creates a hypervisor of its own, so what they
  answer over a run is arbitrary, and equal requests of different calls may be answered differently. What
  every call keeps is kept by every such run; the budgets and the states of the authority kernel are the instances here.
\<close>

section \<open>Calls\<close>

datatype runtime_op = CallRunOnce | CallPause | CallResume | CallRevoke string | CallRenew timestamp | CallRefresh

fun run_call ::
  "'cap platform \<Rightarrow> ('cap, 'hv, 'tok, 'out) nexus \<Rightarrow> 'cap model_client \<Rightarrow> 'cap runtime schedule
   \<Rightarrow> runtime_op \<Rightarrow> 'cap runtime \<Rightarrow> 'cap runtime" where
  "run_call P N M w CallRunOnce s = snd (run_once P N M w s)"
| "run_call P N M w CallPause s = snd (runtime_pause w s)"
| "run_call P N M w CallResume s = snd (runtime_resume w s)"
| "run_call P N M w (CallRevoke reason) s = snd (runtime_revoke w reason s)"
| "run_call P N M w (CallRenew expires_at) s = snd (runtime_renew P w expires_at s)"
| "run_call P N M w CallRefresh s = snd (runtime_refresh_expirations w s)"

text \<open>The id drawn for a renewed lease is not in use where the renewal takes the lock.\<close>

definition lease_unused :: "lease_id \<Rightarrow> 'cap runtime \<Rightarrow> bool" where
  "lease_unused l s \<longleftrightarrow> map_of (as_leases (ak_state (sh_kernel s))) l = None"

fun call_fresh :: "'cap runtime schedule \<Rightarrow> runtime_op \<Rightarrow> 'cap runtime \<Rightarrow> bool" where
  "call_fresh w (CallRenew expires_at) s \<longleftrightarrow>
     lease_unused (''lease-'' @ uuid w 4) (at_yield w 4 (at_yield w 3 (at_yield w 2 (at_yield w 1 s))))"
| "call_fresh w _ s \<longleftrightarrow> True"

text \<open>\<open>Ns\<close> are the ways Nexus may behave in a call; the model client of a call is arbitrary.\<close>

inductive runtime_run ::
  "'cap platform \<Rightarrow> ('cap, 'hv, 'tok, 'out) nexus set \<Rightarrow> 'cap runtime \<Rightarrow> 'cap runtime \<Rightarrow> bool"
  for P Ns where
  runtime_idle: "runtime_run P Ns s s"
| runtime_call: "runtime_run P Ns s t \<Longrightarrow> (\<And>n u. runtime_run P Ns u (at_yield w n u)) \<Longrightarrow> call_fresh w op t
    \<Longrightarrow> N \<in> Ns \<Longrightarrow> runtime_run P Ns s (run_call P N M w op t)"

section \<open>What a call keeps\<close>

text \<open>The control operations reach the state through the write lock of the kernel only.\<close>

lemma on_kernel_op:
  assumes "\<not> ak_poisoned (sh_kernel s) \<Longrightarrow>
    K (s\<lparr>sh_kernel := (sh_kernel s)\<lparr>ak_state := snd (body (ak_state (sh_kernel s)))\<rparr>\<rparr>)" and "K s"
  shows "runs_to (on_kernel body) s (\<lambda>_. K) (\<lambda>_. K)"
  using assms by (auto simp: runs_to_def on_kernel_def write_state_def err_def split: prod.splits sum.splits)

locale call_world = step_world w K A X S C G for w :: "'cap runtime schedule" and K A X S C G +
  fixes P :: "'cap platform"
  assumes at_kernel: "K s \<Longrightarrow> \<not> ak_poisoned (sh_kernel s) \<Longrightarrow> op_fresh (ak_state (sh_kernel s)) op \<Longrightarrow>
    K (s\<lparr>sh_kernel := (sh_kernel s)\<lparr>ak_state := run_op P op (ak_state (sh_kernel s))\<rparr>\<rparr>)"
begin

lemma kernel_ops:
  assumes "K s"
  shows "runs_to (on_kernel (pause l g now)) s (\<lambda>_. K) (\<lambda>_. K)"
    "runs_to (on_kernel (resume l g now)) s (\<lambda>_. K) (\<lambda>_. K)"
    "runs_to (on_kernel (revoke l g reason now)) s (\<lambda>_. K) (\<lambda>_. K)"
    "runs_to (on_kernel (refresh_expirations now)) s (\<lambda>_. K) (\<lambda>_. K)"
    "lease_unused (''lease-'' @ uu) s \<Longrightarrow> runs_to (on_kernel (renew P req uu now)) s (\<lambda>_. K) (\<lambda>_. K)"
  using at_kernel [OF assms, of "OpPause l g now"] at_kernel [OF assms, of "OpResume l g now"]
    at_kernel [OF assms, of "OpRevoke l g reason now"] at_kernel [OF assms, of "OpRefreshExpirations now"]
    at_kernel [OF assms, of "OpRenew req uu now"] assms
  by (auto intro!: on_kernel_op simp: lease_unused_def)

lemma control_keeps:
  assumes "K s"
  shows "runs_to (runtime_pause w) s (\<lambda>_. K) (\<lambda>_. K)" "runs_to (runtime_resume w) s (\<lambda>_. K) (\<lambda>_. K)"
    "runs_to (runtime_revoke w reason) s (\<lambda>_. K) (\<lambda>_. K)" "runs_to (runtime_refresh_expirations w) s (\<lambda>_. K) (\<lambda>_. K)"
  using assms
  unfolding runtime_pause_def runtime_resume_def runtime_revoke_def runtime_refresh_expirations_def
  by (auto intro!: kept.after_frame [OF kept.frame_snapshot] kept.after_frame [OF kept.frame_yield] kernel_ops)

lemma renew_keeps:
  assumes "K s" and "call_fresh w (CallRenew e) s"
  shows "runs_to (runtime_renew P w e) s (\<lambda>_. K) (\<lambda>_. K)"
proof -
  note y = kept.at_yields
  have K4: "K (at_yield w 4 (at_yield w 3 (at_yield w 2 (at_yield w 1 s))))" using assms(1) by (intro y)
  have last: "runs_to (on_kernel (renew P req (uuid w 4) now)) (at_yield w 4 (at_yield w 3 (at_yield w 2 (at_yield w 1 s))))
      (\<lambda>_. K) (\<lambda>_. K)" for req now
    using kernel_ops(5) [OF K4] assms(2) by simp
  show ?thesis
    unfolding runtime_renew_def active_lease_snapshot_def
    by (intro run_rules runs_to_mono [OF last] kept.after_frame [OF kept.frame_yield])
      (auto intro: assms(1) y simp: runs_to_reads split: sum.splits)
qed

lemma call_keeps:
  assumes "K s" and "call_fresh w op s"
  shows "K (run_call P N M w op s)"
proof -
  have kept: "K (snd (m s))" if "runs_to m s (\<lambda>_. K) (\<lambda>_. K)" for m :: "('cap runtime, runtime_error, 'x) exec"
    using that by (auto simp: runs_to_def split: prod.splits sum.splits)
  show ?thesis
    using kept [OF run_once_spends] kept [OF control_keeps(1)] kept [OF control_keeps(2)]
      kept [OF control_keeps(3)] kept [OF control_keeps(4)] kept [OF renew_keeps] assms
    by (cases op) simp_all
qed

end

section \<open>Budgets\<close>

fun reserved_for :: "meter \<Rightarrow> 'cap runtime \<Rightarrow> u64" where
  "reserved_for PortCalls s = rt_actions_consumed s"
| "reserved_for NexusRuns s = rt_actions_consumed s"
| "reserved_for _ s = rt_steps_consumed s"

fun limit_for :: "meter \<Rightarrow> 'cap runtime \<Rightarrow> u64" where
  "limit_for PortCalls s = me_max_actions (rt_mission s)"
| "limit_for NexusRuns s = me_max_actions (rt_mission s)"
| "limit_for _ s = rb_max_steps (sp_resource_budget (rt_spec s))"

text \<open>
  \<open>tally s0 v s\<close>: each counter has \<open>v\<close> of its reservations still unspent, the reservations are within
  their limit, no counter has fallen since \<open>s0\<close>, as many model calls are counted as attempts were begun
  and as many runs of Nexus as the log shows.
\<close>

definition tally :: "'cap runtime \<Rightarrow> (meter \<Rightarrow> nat) \<Rightarrow> 'cap runtime \<Rightarrow> bool" where
  "tally s0 v s \<longleftrightarrow> (\<forall>c. unat (reading c (sh_metrics s)) + v c \<le> unat (reserved_for c s)
       \<and> reserved_for c s \<le> limit_for c s \<and> reading c (sh_metrics s0) \<le> reading c (sh_metrics s)
       \<and> reserved_for c s0 \<le> reserved_for c s)
     \<and> mc_model_calls (sh_metrics s) = ms_next_attempt_id (sh_store s)
     \<and> unat (mc_nexus_executions (sh_metrics s)) = nexus_entries (sh_store s)"

definition owed :: "meter set \<Rightarrow> (meter \<Rightarrow> nat) \<Rightarrow> meter \<Rightarrow> nat" where
  "owed cs v c = (if c \<in> cs then Suc (v c) else v c)"

lemma unat_Suc_below:
  assumes "(x :: u64) < y"
  shows "unat (x + 1) = unat x + 1"
proof -
  have "unat x + 1 < 2 ^ 64" using assms unsigned_less [of y, where ?'a = nat] by (simp add: word_less_nat_alt)
  then show ?thesis by (simp add: unat_word_ariths)
qed

lemma Suc_below: "(x :: u64) < y \<Longrightarrow> x + 1 \<le> y"
  using unat_Suc_below [of x y] by (simp add: word_less_nat_alt word_le_nat_alt)

lemma unat_Suc_bounded: "unat (x :: u64) + Suc m \<le> unat (y :: u64) \<Longrightarrow> unat (x + 1) = unat x + 1"
  using unat_Suc_below [of x y] by (simp add: word_less_nat_alt)

lemma tally_weaken: "tally s0 (owed cs v) s \<Longrightarrow> ds \<subseteq> cs \<Longrightarrow> tally s0 (owed ds v) s"
  unfolding tally_def owed_def by (smt (verit) Suc_leD add_Suc_right subsetD)

lemma owed_none [simp]: "owed {} v = v"
  by (rule ext) (simp add: owed_def)

text \<open>A reservation gives its counters one unit each; counting one takes it back.\<close>

lemma tally_reserve_action:
  "tally s0 v s \<Longrightarrow> runs_to reserve_action s (\<lambda>_. tally s0 (owed {PortCalls, NexusRuns} v)) (\<lambda>_. tally s0 v)"
proof -
  assume t: "tally s0 v s"
  let ?s = "s\<lparr>rt_actions_consumed := rt_actions_consumed s + 1\<rparr>"
  have "tally s0 (owed {PortCalls, NexusRuns} v) ?s" if less: "rt_actions_consumed s < me_max_actions (rt_mission s)"
  proof -
    have step: "unat (rt_actions_consumed s + 1) = unat (rt_actions_consumed s) + 1" using less by (rule unat_Suc_below)
    have "unat (reading c (sh_metrics ?s)) + owed {PortCalls, NexusRuns} v c \<le> unat (reserved_for c ?s)
       \<and> reserved_for c ?s \<le> limit_for c ?s \<and> reading c (sh_metrics s0) \<le> reading c (sh_metrics ?s)
       \<and> reserved_for c s0 \<le> reserved_for c ?s" for c
      using t [unfolded tally_def, THEN conjunct1, rule_format, of c] step Suc_below [OF less]
      by (cases c) (simp_all add: owed_def word_le_nat_alt)
    with t show ?thesis by (simp add: tally_def)
  qed
  then show ?thesis using t by (auto simp: runs_to_def reserve_action_def reserve_def err_def)
qed

lemma tally_reserve_step:
  "tally s0 v s \<Longrightarrow> runs_to reserve_step s (\<lambda>_. tally s0 (owed {ModelCalls, ProtocolCalls, GateCalls} v)) (\<lambda>_. tally s0 v)"
proof -
  assume t: "tally s0 v s"
  let ?s = "s\<lparr>rt_steps_consumed := rt_steps_consumed s + 1\<rparr>"
  have "tally s0 (owed {ModelCalls, ProtocolCalls, GateCalls} v) ?s"
    if less: "rt_steps_consumed s < rb_max_steps (sp_resource_budget (rt_spec s))"
  proof -
    have step: "unat (rt_steps_consumed s + 1) = unat (rt_steps_consumed s) + 1" using less by (rule unat_Suc_below)
    have "unat (reading c (sh_metrics ?s)) + owed {ModelCalls, ProtocolCalls, GateCalls} v c \<le> unat (reserved_for c ?s)
       \<and> reserved_for c ?s \<le> limit_for c ?s \<and> reading c (sh_metrics s0) \<le> reading c (sh_metrics ?s)
       \<and> reserved_for c s0 \<le> reserved_for c ?s" for c
      using t [unfolded tally_def, THEN conjunct1, rule_format, of c] step Suc_below [OF less]
      by (cases c) (simp_all add: owed_def word_le_nat_alt)
    with t show ?thesis by (simp add: tally_def)
  qed
  then show ?thesis using t by (auto simp: runs_to_def reserve_step_def reserve_def err_def)
qed

text \<open>Counting one step that is still owed: the counter does not wrap around.\<close>

lemma tally_count:
  assumes t: "tally s0 (owed (insert c cs) v) s" and c: "c \<notin> cs"
    and m: "reading c m = reading c (sh_metrics s) + 1" "\<And>d. d \<noteq> c \<Longrightarrow> reading d m = reading d (sh_metrics s)"
    and model: "mc_model_calls m = ms_next_attempt_id st"
    and nexus: "unat (mc_nexus_executions m) = nexus_entries st"
  shows "tally s0 (owed cs v) (s\<lparr>sh_store := st, sh_metrics := m\<rparr>)"
proof -
  have all: "unat (reading d (sh_metrics s)) + owed (insert c cs) v d \<le> unat (reserved_for d s)
       \<and> reserved_for d s \<le> limit_for d s \<and> reading d (sh_metrics s0) \<le> reading d (sh_metrics s)
       \<and> reserved_for d s0 \<le> reserved_for d s" for d using t by (simp add: tally_def)
  have step: "unat (reading c (sh_metrics s) + 1) = unat (reading c (sh_metrics s)) + 1"
    using all [of c] by (intro unat_Suc_bounded [of _ "v c" "reserved_for c s"]) (simp add: owed_def)
  have same: "reserved_for d (s\<lparr>sh_store := st, sh_metrics := m\<rparr>) = reserved_for d s"
    "limit_for d (s\<lparr>sh_store := st, sh_metrics := m\<rparr>) = limit_for d s" for d by (cases d; simp)+
  have "unat (reading d m) + owed cs v d \<le> unat (reserved_for d s) \<and> reserved_for d s \<le> limit_for d s
      \<and> reading d (sh_metrics s0) \<le> reading d m \<and> reserved_for d s0 \<le> reserved_for d s" for d
    using all [of d] step m c by (cases "d = c") (auto simp: owed_def word_le_nat_alt)
  then show ?thesis using model nexus by (simp add: tally_def same)
qed

lemma tally_exact:
  "tally s0 v s \<Longrightarrow> mc_model_calls (sh_metrics s) = ms_next_attempt_id (sh_store s)"
  "tally s0 v s \<Longrightarrow> unat (mc_nexus_executions (sh_metrics s)) = nexus_entries (sh_store s)"
  by (simp_all add: tally_def)

lemma reading_other [simp]:
  "d \<noteq> ModelCalls \<Longrightarrow> reading d (model_call m) = reading d m"
  "d \<noteq> ProtocolCalls \<Longrightarrow> reading d (protocol_gate_call m) = reading d m"
  "d \<noteq> GateCalls \<Longrightarrow> reading d (action_gate_call m) = reading d m"
  "d \<noteq> PortCalls \<Longrightarrow> reading d (execution_port_call m) = reading d m"
  "d \<noteq> NexusRuns \<Longrightarrow> reading d (nexus_execution m) = reading d m"
  by (cases d; simp add: model_call_def protocol_gate_call_def action_gate_call_def execution_port_call_def
      nexus_execution_def)+

lemma reading_own [simp]:
  "reading ModelCalls (model_call m) = reading ModelCalls m + 1"
  "reading ProtocolCalls (protocol_gate_call m) = reading ProtocolCalls m + 1"
  "reading GateCalls (action_gate_call m) = reading GateCalls m + 1"
  "reading PortCalls (execution_port_call m) = reading PortCalls m + 1"
  "reading NexusRuns (nexus_execution m) = reading NexusRuns m + 1"
  by (simp_all add: model_call_def protocol_gate_call_def action_gate_call_def execution_port_call_def nexus_execution_def)

text \<open>The counters that are matched with the store, in terms of readings.\<close>

lemma matched_counters: "mc_model_calls m = reading ModelCalls m" "mc_nexus_executions m = reading NexusRuns m"
  by simp_all

lemma tally_gates:
  "tally s0 (owed {ProtocolCalls, GateCalls} v) s \<Longrightarrow>
     tally s0 (owed {GateCalls} v) (s\<lparr>sh_metrics := protocol_gate_call (sh_metrics s)\<rparr>)" (is "?P \<Longrightarrow> ?P'")
  "tally s0 (owed {GateCalls} v) s \<Longrightarrow> tally s0 v (s\<lparr>sh_metrics := action_gate_call (sh_metrics s)\<rparr>)" (is "?G \<Longrightarrow> ?G'")
  "tally s0 (owed {PortCalls, NexusRuns} v) s \<Longrightarrow>
     tally s0 (owed {NexusRuns} v) (s\<lparr>sh_metrics := execution_port_call (sh_metrics s)\<rparr>)" (is "?X \<Longrightarrow> ?X'")
proof -
  note count = tally_count [where st = "sh_store s" and s = s and v = v and ?s0.0 = s0, simplified,
      unfolded matched_counters]
  note exact = tally_exact [unfolded matched_counters]
  show ?P' if ?P
    using count [of ProtocolCalls "{GateCalls}" "protocol_gate_call (sh_metrics s)"] that exact [OF that]
    by (simp del: reading.simps)
  show ?G' if ?G
    using count [of GateCalls "{}" "action_gate_call (sh_metrics s)"] that exact [OF that]
    by (simp del: reading.simps)
  show ?X' if ?X
    using count [of PortCalls "{NexusRuns}" "execution_port_call (sh_metrics s)"] that exact [OF that]
    by (simp del: reading.simps)
qed

lemma tally_model:
  assumes "tally s0 (owed {ModelCalls, ProtocolCalls, GateCalls} v) s" and "begin_attempt (sh_store s) = (a, st)"
  shows "tally s0 (owed {ProtocolCalls, GateCalls} v) (s\<lparr>sh_store := st, sh_metrics := model_call (sh_metrics s)\<rparr>)"
proof (rule tally_count [OF assms(1)])
  show "mc_model_calls (model_call (sh_metrics s)) = ms_next_attempt_id st"
    "unat (mc_nexus_executions (model_call (sh_metrics s))) = nexus_entries st"
    using assms(2) tally_exact [OF assms(1)] by (auto simp: begin_attempt_def model_call_def nexus_entries_def)
qed (simp_all del: reading.simps)

lemma tally_nexus:
  assumes "tally s0 (owed {NexusRuns} v) s" and "append_for_attempt a ExecutionStarted now (sh_store s) = (Inr (), st)"
  shows "tally s0 v (s\<lparr>sh_store := st, sh_metrics := nexus_execution (sh_metrics s)\<rparr>)"
proof -
  have "unat (mc_nexus_executions (sh_metrics s)) + Suc (v NexusRuns) \<le> unat (rt_actions_consumed s)"
    using assms(1) unfolding tally_def by (metis insertI1 owed_def reading.simps(5) reserved_for.simps(2))
  then have "unat (mc_nexus_executions (sh_metrics s) + 1) = unat (mc_nexus_executions (sh_metrics s)) + 1"
    by (rule unat_Suc_bounded)
  then have "mc_model_calls (nexus_execution (sh_metrics s)) = ms_next_attempt_id st"
    "unat (mc_nexus_executions (nexus_execution (sh_metrics s))) = nexus_entries st"
    using append_counted [OF assms(2)] tally_exact [OF assms(1)] by (simp_all add: nexus_execution_def)
  from tally_count [of s0 NexusRuns "{}" v s "nexus_execution (sh_metrics s)" st, OF assms(1) _ _ _ this]
  show ?thesis by (simp del: reading.simps)
qed

lemma tally_quiet:
  "tally s0 v s \<Longrightarrow> quiet (sh_store s) st \<Longrightarrow> tally s0 v (s\<lparr>sh_store := st\<rparr>)"
  "tally s0 v s \<Longrightarrow> tally s0 v (s\<lparr>rt_action_certificates := c\<rparr>)"
  "tally s0 v s \<Longrightarrow> tally s0 v (s\<lparr>sh_kernel := k\<rparr>)"
proof -
  have same: "reserved_for d (s\<lparr>sh_store := st\<rparr>) = reserved_for d s" "limit_for d (s\<lparr>sh_store := st\<rparr>) = limit_for d s"
    "reserved_for d (s\<lparr>rt_action_certificates := c\<rparr>) = reserved_for d s"
    "limit_for d (s\<lparr>rt_action_certificates := c\<rparr>) = limit_for d s"
    "reserved_for d (s\<lparr>sh_kernel := k\<rparr>) = reserved_for d s" "limit_for d (s\<lparr>sh_kernel := k\<rparr>) = limit_for d s" for d
    by (cases d; simp)+
  show "tally s0 v s \<Longrightarrow> quiet (sh_store s) st \<Longrightarrow> tally s0 v (s\<lparr>sh_store := st\<rparr>)"
    "tally s0 v s \<Longrightarrow> tally s0 v (s\<lparr>rt_action_certificates := c\<rparr>)" "tally s0 v s \<Longrightarrow> tally s0 v (s\<lparr>sh_kernel := k\<rparr>)"
    by (simp_all add: tally_def same quiet_def)
qed

lemma tally_metrics:
  assumes "tally s0 v s" and "\<And>c. reading c m = reading c (sh_metrics s)"
  shows "tally s0 v (s\<lparr>sh_metrics := m\<rparr>)"
proof -
  have same: "reserved_for d (s\<lparr>sh_metrics := m\<rparr>) = reserved_for d s" "limit_for d (s\<lparr>sh_metrics := m\<rparr>) = limit_for d s" for d
    by (cases d; simp)+
  have "mc_model_calls m = mc_model_calls (sh_metrics s)" "mc_nexus_executions m = mc_nexus_executions (sh_metrics s)"
    using assms(2) [of ModelCalls] assms(2) [of NexusRuns] by simp_all
  with assms show ?thesis by (simp add: tally_def same)
qed

lemma tally_call_world:
  assumes "\<And>v k s. tally s0 v s \<Longrightarrow> tally s0 v (at_yield w k s)"
  shows "call_world w (tally s0 v) (tally s0 (owed {PortCalls, NexusRuns} v)) (tally s0 (owed {NexusRuns} v))
    (tally s0 (owed {ModelCalls, ProtocolCalls, GateCalls} v)) (tally s0 (owed {ProtocolCalls, GateCalls} v))
    (tally s0 (owed {GateCalls} v)) P"
proof -
  have frame: "run_frame w (tally s0 u)" for u
    by unfold_locales (rule assms tally_quiet tally_metrics; assumption)+
  have weak: "tally s0 (owed cs v) s \<Longrightarrow> tally s0 v s" for cs s using tally_weaken [of s0 cs v s "{}"] by simp
  have action: "action_world w (tally s0 v) (tally s0 (owed {PortCalls, NexusRuns} v)) (tally s0 (owed {NexusRuns} v))"
    by (rule action_world.intro [OF frame frame frame action_world_axioms.intro])
      (erule weak tally_reserve_action tally_gates tally_nexus, assumption?)+
  have step: "step_world w (tally s0 v) (tally s0 (owed {PortCalls, NexusRuns} v)) (tally s0 (owed {NexusRuns} v))
    (tally s0 (owed {ModelCalls, ProtocolCalls, GateCalls} v)) (tally s0 (owed {ProtocolCalls, GateCalls} v))
    (tally s0 (owed {GateCalls} v))"
    by (rule step_world.intro [OF action frame frame frame step_world_axioms.intro])
      (erule weak tally_reserve_step tally_gates tally_model, assumption?)+
  show ?thesis by (rule call_world.intro [OF step call_world_axioms.intro]) (rule tally_quiet)
qed

interpretation budget: call_world "alone clk ids" "tally s0 v" "tally s0 (owed {PortCalls, NexusRuns} v)"
  "tally s0 (owed {NexusRuns} v)" "tally s0 (owed {ModelCalls, ProtocolCalls, GateCalls} v)"
  "tally s0 (owed {ProtocolCalls, GateCalls} v)" "tally s0 (owed {GateCalls} v)" P
  for clk ids s0 v P
  by (rule tally_call_world) simp

lemma run_tally: "runtime_run P Ns s t \<Longrightarrow> tally s0 v s \<Longrightarrow> tally s0 v t"
proof (induction arbitrary: v rule: runtime_run.induct)
  case (runtime_call s t w op N M)
  note world = tally_call_world [of s0 w, OF runtime_call.IH(2)]
  from call_world.call_keeps [OF world] runtime_call show ?case by blast
qed

section \<open>The kernel behind a runtime\<close>

abbreviation kernel_state :: "'cap runtime \<Rightarrow> 'cap authority_state" where
  "kernel_state s \<equiv> ak_state (sh_kernel s)"

definition same_agent :: "'cap runtime \<Rightarrow> 'cap runtime \<Rightarrow> bool" where
  "same_agent s t \<longleftrightarrow> rt_mission t = rt_mission s \<and> rt_spec t = rt_spec s \<and> rt_agent_id t = rt_agent_id s
     \<and> rt_key_custody t = rt_key_custody s \<and> sh_context t = sh_context s \<and> sh_registry t = sh_registry s
     \<and> ak_poisoned (sh_kernel t) = ak_poisoned (sh_kernel s)"

definition kernel_after :: "'cap platform \<Rightarrow> 'cap runtime \<Rightarrow> 'cap runtime \<Rightarrow> bool" where
  "kernel_after P s t \<longleftrightarrow> kernel_run P (kernel_state s) (kernel_state t) \<and> same_agent s t"

lemma kernel_after_reserve:
  "kernel_after P s u \<Longrightarrow> runs_to reserve_action u (\<lambda>_. kernel_after P s) (\<lambda>_. kernel_after P s)"
  "kernel_after P s u \<Longrightarrow> runs_to reserve_step u (\<lambda>_. kernel_after P s) (\<lambda>_. kernel_after P s)"
  by (simp_all add: runs_to_def reserve_action_def reserve_step_def reserve_def err_def kernel_after_def same_agent_def)

lemma kernel_after_op:
  "kernel_after P s u \<Longrightarrow> op_fresh (kernel_state u) op \<Longrightarrow>
   kernel_after P s (u\<lparr>sh_kernel := (sh_kernel u)\<lparr>ak_state := run_op P op (kernel_state u)\<rparr>\<rparr>)"
  by (simp add: kernel_after_def same_agent_def run_step)

lemma kernel_call_world:
  assumes "\<And>k u. kernel_after P s u \<Longrightarrow> kernel_after P s (at_yield w k u)"
  shows "call_world w (kernel_after P s) (kernel_after P s) (kernel_after P s) (kernel_after P s) (kernel_after P s)
    (kernel_after P s) P"
proof -
  have frame: "run_frame w (kernel_after P s)"
    by unfold_locales (rule assms, simp_all add: kernel_after_def same_agent_def)
  have action: "action_world w (kernel_after P s) (kernel_after P s) (kernel_after P s)"
    by (rule action_world.intro [OF frame frame frame action_world_axioms.intro])
      (simp_all add: kernel_after_reserve, simp_all add: kernel_after_def same_agent_def)
  have step: "step_world w (kernel_after P s) (kernel_after P s) (kernel_after P s) (kernel_after P s) (kernel_after P s)
      (kernel_after P s)"
    by (rule step_world.intro [OF action frame frame frame step_world_axioms.intro])
      (simp_all add: kernel_after_reserve, simp_all add: kernel_after_def same_agent_def)
  show ?thesis by (rule call_world.intro [OF step call_world_axioms.intro]) (rule kernel_after_op)
qed

lemma run_kernel_after: "runtime_run P Ns s t \<Longrightarrow> kernel_after P s t"
proof (induction rule: runtime_run.induct)
  case (runtime_idle s)
  then show ?case by (simp add: kernel_after_def same_agent_def run_refl)
next
  case (runtime_call s t w op N M)
  have "kernel_after P s (at_yield w k u)" if "kernel_after P s u" for k u
    using that runtime_call.IH(2) [of u k] unfolding kernel_after_def same_agent_def
    by (simp add: kernel_run_trans [of P "kernel_state u"])
  note world = kernel_call_world [of P s w, OF this]
  from call_world.call_keeps [OF world] runtime_call show ?case by blast
qed

end
