(* ===== verification/SupervisorRuns.thy ===== *)
theory SupervisorRuns
  imports AttemptTrace RuntimeRuns
begin

text \<open>
  Calls of the supervisor. The contract of an attempt is interpreted for a call that runs alone; the
  other calls of the same runtime satisfy what an attempt relies on. Over any sequence of calls the
  recorded history passes its own check and the budgets bound what reaches the model and Nexus.
\<close>

section \<open>Schedules\<close>

interpretation alone: attempt_world "alone clk ids" a "\<lambda>s. (attempt_does a)\<^sup>*\<^sup>* st (sh_store s)" for clk ids a st
  by unfold_locales (auto intro: rtranclp.rtrancl_into_rtrancl)

text \<open>What other calls do to the store: steps of their own attempts and new attempts.\<close>

inductive other_step :: "u64 \<Rightarrow> 'cap mission_store \<Rightarrow> 'cap mission_store \<Rightarrow> bool" for a where
  other_attempt: "attempt_does b st st' \<Longrightarrow> b \<noteq> a \<Longrightarrow> other_step a st st'"
| other_begin: "begin_attempt st = (b, st') \<Longrightarrow> other_step a st st'"

lemma other_step_undisturbed:
  assumes "other_step a st st'"
  shows "undisturbed a st st'"
  using assms
proof cases
  case (other_begin b)
  then show ?thesis by (auto simp: begin_attempt_def undisturbed_def)
qed (rule other_attempt_undisturbed)

lemma others_undisturbed: "(other_step a)\<^sup>*\<^sup>* st st' \<Longrightarrow> undisturbed a st st'"
  by (induction rule: rtranclp_induct) (auto intro: undisturbed_trans other_step_undisturbed)

lemma world_of_others:
  assumes "\<And>n s. (other_step a)\<^sup>*\<^sup>* (sh_store s) (sh_store (at_yield w n s))"
  shows "attempt_world w a (\<lambda>_. True)"
  by unfold_locales (auto intro: others_undisturbed assms)

lemma attempt_guarantee:
  assumes "attempt_inv (\<lambda>u. (attempt_does a)\<^sup>*\<^sup>* (sh_store s) (sh_store u)) a [] 0 None s"
    and "run_attempt P N M (alone clk ids) c ob instruction a s = (r, t)"
  shows "(attempt_does a)\<^sup>*\<^sup>* (sh_store s) (sh_store t)"
  using alone.attempt_settles [OF assms(1), of P N M clk ids c ob instruction] assms(2)
  by (cases r) (auto simp: runs_to_def alone.settled_error_def attempt_inv_def)

section \<open>The shape of a history\<close>

definition hist_inv :: "'cap mission_store \<Rightarrow> bool" where
  "hist_inv st \<longleftrightarrow> \<not> mx_poisoned (ms_events st) \<and> \<not> mx_poisoned (ms_authorization_records st)
     \<and> \<not> mx_poisoned (ms_authorization_attempts st) \<and> log_ok st
     \<and> map ev_kind (take 4 (events st)) = foundational \<and> (\<forall>e \<in> set (take 4 (events st)). ev_attempt_id e = None)
     \<and> (\<forall>e \<in> set (drop 4 (events st)). \<exists>a. ev_attempt_id e = Some a \<and> a \<noteq> 0)
     \<and> (\<forall>r \<in> set (records st). map_of (bindings st) (az_record_id r) \<noteq> None)"

lemma foundational_prefix: "map ev_kind (take 4 es) = foundational \<Longrightarrow> 4 \<le> length es"
  by (drule arg_cong [of _ _ length]) simp

lemma hist_inv_does:
  assumes "attempt_does a st st'" and "a \<noteq> 0" and "hist_inv st"
  shows "hist_inv st'"
  using assms(1)
proof cases
  case (does_append k now)
  have "log_ok st" "4 \<le> length (events st)"
    using assms(3) foundational_prefix [of "events st"] by (simp_all add: hist_inv_def)
  moreover from this have "log_ok st'" using op_log_ok [of st "OpAppendForAttempt a k now"] does_append by simp
  ultimately show ?thesis using does_append assms(2,3)
    unfolding append_ok hist_inv_def by (auto simp: push_mission_event_def)
next
  case (does_insert r)
  then show ?thesis using assms(3) unfolding insert_ok
    by (auto simp: hist_inv_def log_ok_def map_of_bt_insert)
next
  case (does_consume i r g)
  have "az_record_id ` set (records (spend i st)) = az_record_id ` set (records st)"
    using arg_cong [OF update_record_ids [of consumed_record i "records st"], of set] by (simp add: spend_def)
  then have "\<exists>r \<in> set (records st). az_record_id q = az_record_id r" if "q \<in> set (records (spend i st))" for q
    using that by (metis imageE imageI)
  then show ?thesis using does_consume assms(3)
    by (auto simp: hist_inv_def log_ok_def frame_simps spend_def) metis
qed

definition attempt_settled :: "u64 \<Rightarrow> 'cap mission_store \<Rightarrow> bool" where
  "attempt_settled b st \<longleftrightarrow>
     (attempt_kinds b (events st) = [] \<or> tail_complete Begun (attempt_kinds b (events st)))
     \<and> length (consumed_for b (bindings st) (records st)) \<le> evidence (attempt_kinds b (events st))"

definition attempt_unused :: "u64 \<Rightarrow> 'cap mission_store \<Rightarrow> bool" where
  "attempt_unused b st \<longleftrightarrow> attempt_kinds b (events st) = [] \<and> consumed_for b (bindings st) (records st) = []"

definition store_settled :: "'cap mission_store \<Rightarrow> bool" where
  "store_settled st \<longleftrightarrow> hist_inv st \<and> (\<forall>b. attempt_settled b st)
     \<and> (\<forall>b. ms_next_attempt_id st < b \<longrightarrow> attempt_unused b st)"

lemma attempt_kinds_drop:
  assumes "\<forall>e \<in> set (take n es). ev_attempt_id e = None"
  shows "attempt_kinds b (drop n es) = attempt_kinds b es"
proof -
  have "attempt_kinds b es = attempt_kinds b (take n es @ drop n es)" by simp
  also have "\<dots> = attempt_kinds b (drop n es)" using assms by (simp add: attempt_kinds_def del: append_take_drop_id)
  finally show ?thesis by simp
qed

lemma settled_history:
  assumes "store_settled st"
  shows "verify_event_completeness st = Inr ()"
proof -
  have h: "hist_inv st" and a: "\<And>b. attempt_settled b st" using assms by (simp_all add: store_settled_def)
  then have "attempt_kinds b (drop 4 (events st)) = attempt_kinds b (events st)" for b
    by (intro attempt_kinds_drop) (simp add: hist_inv_def)
  then show ?thesis using h a
    unfolding verify_event_completeness_iff history_complete_def hist_inv_def attempt_settled_def log_ok_def evidence_def
    by simp
qed

lemma unused_settled: "attempt_unused b st \<Longrightarrow> attempt_settled b st"
  by (simp add: attempt_unused_def attempt_settled_def)

lemma undisturbed_settled:
  "undisturbed b st st' \<Longrightarrow> attempt_settled b st' \<longleftrightarrow> attempt_settled b st"
  "undisturbed b st st' \<Longrightarrow> attempt_unused b st' \<longleftrightarrow> attempt_unused b st"
  by (simp_all add: undisturbed_def attempt_settled_def attempt_unused_def)

lemma does_next: "attempt_does a st st' \<Longrightarrow> ms_next_attempt_id st' = ms_next_attempt_id st"
  by (cases rule: attempt_does.cases) (auto simp: append_ok insert_ok spend_def)

end
