(* ===== verification/RuntimeHistory.thy ===== *)
theory RuntimeHistory
  imports SupervisorRuns
begin

text \<open>
  The history of a runtime over runs of its calls. A call leaves the attempts that were begun before
  it alone and settles those it begins, so after any run every attempt is settled and the check of
  the recorded history passes. The step budget keeps the attempt counter from wrapping around.
\<close>

section \<open>Invariant and progress\<close>

definition next_attempt :: "'cap runtime \<Rightarrow> u64" where
  "next_attempt s = ms_next_attempt_id (sh_store s)"

definition good :: "nat \<Rightarrow> 'cap runtime \<Rightarrow> bool" where
  "good k s \<longleftrightarrow> unat (next_attempt s) + k \<le> unat (rt_steps_consumed s)
     \<and> rt_steps_consumed s \<le> rb_max_steps (sp_resource_budget (rt_spec s))
     \<and> rb_max_steps (sp_resource_budget (rt_spec s)) \<le> MAX_AGENT_STEPS
     \<and> hist_inv (sh_store s) \<and> (\<forall>b. next_attempt s < b \<longrightarrow> attempt_unused b (sh_store s))"

text \<open>Progress from one state to another, except that the attempt \<open>a\<close> may still be open.\<close>

definition grown :: "u64 option \<Rightarrow> 'cap runtime \<Rightarrow> 'cap runtime \<Rightarrow> bool" where
  "grown open s t \<longleftrightarrow> next_attempt s \<le> next_attempt t
     \<and> (\<forall>b. b \<le> next_attempt s \<longrightarrow> undisturbed b (sh_store s) (sh_store t))
     \<and> (\<forall>b. next_attempt s < b \<longrightarrow> b \<le> next_attempt t \<longrightarrow> open \<noteq> Some b \<longrightarrow> attempt_settled b (sh_store t))
     \<and> (\<forall>a. open = Some a \<longrightarrow> next_attempt s < a \<and> a \<le> next_attempt t)"

definition advances :: "'cap runtime \<Rightarrow> 'cap runtime \<Rightarrow> bool" where
  "advances s t \<longleftrightarrow> (\<forall>k. good k s \<longrightarrow> good k t \<and> grown None s t)"

lemma good_mono: "good (Suc k) s \<Longrightarrow> good k s"
  by (simp add: good_def)

lemma grown_refl: "grown None s s"
  by (auto simp: grown_def)

lemma grown_trans:
  assumes "grown x s t" and "grown None t u"
  shows "grown x s u"
proof -
  have "attempt_settled b (sh_store u)" if "next_attempt s < b" "b \<le> next_attempt u" "x \<noteq> Some b" for b
  proof (cases "b \<le> next_attempt t")
    case True
    then have "undisturbed b (sh_store t) (sh_store u)" "attempt_settled b (sh_store t)"
      using assms that by (simp_all add: grown_def)
    then show ?thesis by (simp add: undisturbed_settled)
  next
    case False
    then show ?thesis using assms(2) that by (simp add: grown_def)
  qed
  moreover have "undisturbed b (sh_store s) (sh_store u)" if "b \<le> next_attempt s" for b
    using assms that undisturbed_trans unfolding grown_def by (meson order.trans)
  ultimately show ?thesis using assms by (auto simp: grown_def)
qed

lemma advances_refl: "advances s s"
  by (simp add: advances_def grown_refl)

lemma advances_trans: "advances s t \<Longrightarrow> advances t u \<Longrightarrow> advances s u"
  unfolding advances_def by (meson grown_trans)

text \<open>Everything outside the store, the step counter and the specification is irrelevant to both.\<close>

lemma books_irrelevant [simp]:
  "good k (s\<lparr>sh_metrics := m\<rparr>) \<longleftrightarrow> good k s" "good k (s\<lparr>rt_action_certificates := c\<rparr>) \<longleftrightarrow> good k s"
  "good k (s\<lparr>rt_actions_consumed := n\<rparr>) \<longleftrightarrow> good k s" "good k (s\<lparr>sh_kernel := kn\<rparr>) \<longleftrightarrow> good k s"
  "grown x s0 (s\<lparr>sh_metrics := m\<rparr>) \<longleftrightarrow> grown x s0 s" "grown x s0 (s\<lparr>rt_action_certificates := c\<rparr>) \<longleftrightarrow> grown x s0 s"
  "grown x s0 (s\<lparr>rt_actions_consumed := n\<rparr>) \<longleftrightarrow> grown x s0 s" "grown x s0 (s\<lparr>sh_kernel := kn\<rparr>) \<longleftrightarrow> grown x s0 s"
  "grown x s0 (s\<lparr>rt_steps_consumed := n\<rparr>) \<longleftrightarrow> grown x s0 s"
  by (simp_all add: good_def grown_def next_attempt_def)

section \<open>One attempt\<close>

lemma begun_attempt:
  assumes "good (Suc k) s" and "begin_attempt (sh_store s) = (a, st)"
  shows "good k (s\<lparr>sh_store := st\<rparr>) \<and> grown (Some a) s (s\<lparr>sh_store := st\<rparr>) \<and> a \<noteq> 0
    \<and> attempt_unused a st \<and> next_attempt (s\<lparr>sh_store := st\<rparr>) = a"
proof -
  have a: "a = next_attempt s + 1" and st: "st = (sh_store s)\<lparr>ms_next_attempt_id := a\<rparr>"
    using assms(2) by (auto simp: begin_attempt_def next_attempt_def)
  have u: "unat a = unat (next_attempt s) + 1"
    unfolding a using assms(1) unat_Suc_bounded [of "next_attempt s" k "rt_steps_consumed s"] by (simp add: good_def)
  then have less: "next_attempt s < a" by (simp add: word_less_nat_alt)
  have cl: "attempt_unused b st" if "next_attempt s < b" for b
    using assms(1) that by (simp add: good_def st attempt_unused_def)
  have "b = a" if "next_attempt s < b" "b \<le> a" for b
    using that u by (simp add: word_less_nat_alt word_le_nat_alt word_unat_eq_iff)
  then have "grown (Some a) s (s\<lparr>sh_store := st\<rparr>)"
    using less by (auto simp: grown_def next_attempt_def st undisturbed_def)
  moreover have "good k (s\<lparr>sh_store := st\<rparr>)"
    using assms(1) cl less u unfolding good_def
    by (auto simp: next_attempt_def st hist_inv_def log_ok_def intro: order.strict_trans)
  moreover have "a \<noteq> 0" using u by auto
  ultimately show ?thesis using cl [OF less] by (simp add: next_attempt_def st)
qed

lemma own_step:
  assumes "good k u \<and> grown (Some a) s0 u" and "attempt_does a (sh_store u) st"
  shows "good k (u\<lparr>sh_store := st\<rparr>) \<and> grown (Some a) s0 (u\<lparr>sh_store := st\<rparr>)"
proof -
  have nz: "a \<noteq> 0" using assms(1) by (auto simp: grown_def)
  have nx: "ms_next_attempt_id st = next_attempt u" using does_next [OF assms(2)] by (simp add: next_attempt_def)
  have other: "undisturbed b (sh_store u) st" if "b \<noteq> a" for b
    using other_attempt_undisturbed [OF assms(2)] that by metis
  have "hist_inv st" using hist_inv_does [OF assms(2) nz] assms(1) by (simp add: good_def)
  moreover have "attempt_unused b st" if "next_attempt u < b" for b
    using assms(1) that other [of b] undisturbed_settled(2) [of b "sh_store u" st]
    by (auto simp: good_def grown_def)
  ultimately have "good k (u\<lparr>sh_store := st\<rparr>)" using assms(1) nx by (simp add: good_def next_attempt_def)
  moreover have "undisturbed b (sh_store s0) st" if "b \<le> next_attempt s0" for b
    using assms(1) that other [of b] undisturbed_trans [of b _ "sh_store u" st] by (auto simp: grown_def)
  moreover have "attempt_settled b st" if "next_attempt s0 < b" "b \<le> next_attempt u" "b \<noteq> a" for b
    using assms(1) that other [of b] undisturbed_settled(1) [of b "sh_store u" st] by (auto simp: grown_def)
  ultimately show ?thesis using assms(1) nx by (simp add: grown_def next_attempt_def)
qed

lemma attempt_world_of_run:
  assumes env: "\<And>n u. advances u (at_yield w n u)"
  shows "attempt_world w a (\<lambda>u. good k u \<and> grown (Some a) s0 u)"
proof
  show "good k (at_yield w n s) \<and> grown (Some a) s0 (at_yield w n s)" if "good k s \<and> grown (Some a) s0 s" for s n
    using that env [of s n] grown_trans [of "Some a" s0 s] by (auto simp: advances_def)
  show "undisturbed a (sh_store s) (sh_store (at_yield w n s))" if "good k s \<and> grown (Some a) s0 s" for s n
    using that env [of s n] unfolding advances_def by (auto simp: grown_def)
  show "good k (s\<lparr>sh_store := st\<rparr>) \<and> grown (Some a) s0 (s\<lparr>sh_store := st\<rparr>)"
    if "good k s \<and> grown (Some a) s0 s" "attempt_does a (sh_store s) st" for s st
    using that by (rule own_step)
qed simp_all

lemma settled_from_trace:
  assumes "attempt_inv R a ks (evidence ks) i t" and "ks = [] \<or> tail_complete Begun ks"
  shows "attempt_settled a (sh_store t)"
  using assms by (auto simp: attempt_inv_def at_trace_def attempt_settled_def)

lemma outcome_complete: "tail_complete Begun (outcome_trace N r)"
  by (cases r) (simp_all add: tail_complete_unfold activation_steps_def)

lemma attempt_advances:
  assumes env: "\<And>n u. advances u (at_yield w n u)"
    and s: "good (Suc k) s" and b: "begin_attempt (sh_store s) = (a, st)"
  shows "runs_to (run_attempt P N M w c ob instruction a) (s\<lparr>sh_store := st\<rparr>)
    (\<lambda>_ t. good k t \<and> grown None s t) (\<lambda>_ t. good k t \<and> grown None s t)"
proof -
  let ?R = "\<lambda>u. good k u \<and> grown (Some a) s u"
  have world: "attempt_world w a ?R" using env by (rule attempt_world_of_run)
  have "attempt_inv ?R a [] 0 None (s\<lparr>sh_store := st\<rparr>)"
    using begun_attempt [OF s b]
    by (auto simp: attempt_inv_def at_trace_def holds_record_def attempt_unused_def good_def hist_inv_def)
  note run = attempt_world.attempt_settles [OF world this]
  have close: "good k t \<and> grown None s t" if "?R t" "attempt_settled a (sh_store t)" for t
    using that by (auto simp: grown_def)
  show ?thesis
  proof (rule runs_to_mono [OF run])
    fix r t
    assume "\<exists>i. attempt_inv ?R a (outcome_trace N r) (evidence (outcome_trace N r)) i t"
    then show "good k t \<and> grown None s t"
      using close settled_from_trace outcome_complete by (metis (no_types, lifting) attempt_inv_def)
  next
    fix e t
    assume "attempt_world.settled_error a ?R e t"
    then show "good k t \<and> grown None s t"
      using close settled_from_trace unfolding attempt_world.settled_error_def [OF world]
      by (metis (no_types, lifting) attempt_inv_def)
  qed
qed

section \<open>Whole calls\<close>

definition since :: "nat \<Rightarrow> 'cap runtime \<Rightarrow> 'cap runtime \<Rightarrow> bool" where
  "since k s t \<longleftrightarrow> good k t \<and> grown None s t"

lemma since_advances: "since k s t \<Longrightarrow> advances t u \<Longrightarrow> since k s u"
  unfolding since_def advances_def using grown_trans by blast

lemma since_reserve:
  "since k s t \<Longrightarrow> runs_to reserve_step t (\<lambda>_. since (Suc k) s) (\<lambda>_. since k s)"
proof -
  assume t: "since k s t"
  have "good (Suc k) (t\<lparr>rt_steps_consumed := rt_steps_consumed t + 1\<rparr>)"
    if "rt_steps_consumed t < rb_max_steps (sp_resource_budget (rt_spec t))"
    using t that unfolding since_def good_def next_attempt_def
    by (auto simp: unat_Suc_below Suc_below)
  then show ?thesis using t by (auto simp: runs_to_def reserve_step_def reserve_def err_def since_def)
qed

lemma since_begin:
  assumes env: "\<And>n u. advances u (at_yield w n u)" and s: "since (Suc k) s0 s"
  shows "runs_to (bindS (on_store (\<lambda>st. case begin_attempt st of (a, st') \<Rightarrow> (Inr a, st')))
      (\<lambda>a. run_attempt P N M w c ob instruction a)) s (\<lambda>_. since k s0) (\<lambda>_. since k s0)"
proof (cases "begin_attempt (sh_store s)")
  case (Pair a st)
  have s': "good (Suc k) s" "grown None s0 s" using s by (simp_all add: since_def)
  have "runs_to (run_attempt P N M w c ob instruction a) (s\<lparr>sh_store := st\<rparr>) (\<lambda>_. since k s0) (\<lambda>_. since k s0)"
    by (rule runs_to_mono [OF attempt_advances [OF env s'(1) Pair]])
      (auto simp: since_def intro: grown_trans [OF s'(2)])
  then show ?thesis by (simp add: runs_to_bindS runs_to_on_store) (simp add: runs_to_def Pair)
qed

lemma since_keeps_yield:
  assumes "\<And>n u. advances u (at_yield w n u)"
  shows "keeps (since k s) (yield w n)"
  using since_advances assms by (blast intro: keeps_yield)

lemma after_keeps:
  "keeps I m \<Longrightarrow> I s \<Longrightarrow> (\<And>x t. I t \<Longrightarrow> runs_to (f x) t Q E) \<Longrightarrow> (\<And>e t. I t \<Longrightarrow> E e t) \<Longrightarrow> runs_to (bindS m f) s Q E"
  unfolding runs_to_bindS using keeps_runs_to runs_to_mono by (smt (verit, best))

lemma since_run_once:
  assumes env: "\<And>n u. advances u (at_yield w n u)" and s: "since k s0 s"
  shows "runs_to (run_once P N M w) s (\<lambda>_. since k s0) (\<lambda>_. since k s0)"
proof -
  note y = since_keeps_yield [OF env]
  have observe: "keeps (since k s0) (observe_model_authority P w c now)" for c now
    unfolding observe_model_authority_def active_lease_snapshot_def by (intro keeps_rules y)
  have spare: "since (Suc k) s0 t \<Longrightarrow> since k s0 t" for t by (simp add: since_def good_mono)
  show ?thesis
    unfolding run_once_def
    apply (rule after_keeps [where I = "since k s0", OF keeps_reads s])
     apply (rule after_keeps [OF y], assumption)
      apply (rule after_keeps [OF observe], assumption)
       apply (rule after_keeps [OF y], assumption)
        apply (rule run_bindS, rule runs_to_mono [OF since_reserve], assumption)
         apply (rule after_keeps [where I = "since (Suc k) s0", OF keeps_reads], assumption)
          apply (rule after_keeps [OF y], assumption)
           apply (erule since_begin [OF env])
          apply (erule spare | assumption)+
    done
qed

lemma since_on_kernel: "keeps (since k s) (on_kernel body)"
  by (auto simp: keeps_def on_kernel_def write_state_def since_def split: prod.splits)

lemma since_control:
  assumes "\<And>n u. advances u (at_yield w n u)"
  shows "keeps (since k s) (runtime_pause w)" "keeps (since k s) (runtime_resume w)"
    "keeps (since k s) (runtime_revoke w reason)" "keeps (since k s) (runtime_renew P w e)"
    "keeps (since k s) (runtime_refresh_expirations w)"
  unfolding runtime_pause_def runtime_resume_def runtime_revoke_def runtime_renew_def
    runtime_refresh_expirations_def active_lease_snapshot_def
  by (intro keeps_rules since_keeps_yield [OF assms] since_on_kernel)+

lemma call_advances:
  assumes env: "\<And>n u. advances u (at_yield w n u)"
  shows "advances s (run_call P N M w op s)"
proof -
  have "since k s (run_call P N M w op s)" if "good k s" for k
  proof -
    have s: "since k s s" using that by (simp add: since_def grown_refl)
    have "keeps (since k s) (run_once P N M w)" unfolding keeps_iff using since_run_once [OF env] by blast
    then show ?thesis using s since_control [OF env, of k s] by (cases op) (simp_all add: keeps_def)
  qed
  then show ?thesis by (simp add: advances_def since_def)
qed

lemma run_advances: "runtime_run P Ns s t \<Longrightarrow> advances s t"
proof (induction rule: runtime_run.induct)
  case (runtime_call s t w op N M)
  from call_advances [OF runtime_call.IH(2)] runtime_call.IH(1) show ?case by (metis advances_trans)
qed (rule advances_refl)

text \<open>From a settled store every run leads to a settled store.\<close>

lemma run_settled:
  assumes "runtime_run P Ns s t" and "store_settled (sh_store s)" and "good 0 s"
  shows "store_settled (sh_store t)"
proof -
  have t: "good 0 t" "grown None s t" using run_advances [OF assms(1)] assms(3) by (simp_all add: advances_def)
  have "attempt_settled b (sh_store t)" for b
  proof (cases "b \<le> next_attempt s")
    case True
    then have "undisturbed b (sh_store s) (sh_store t)" using t(2) by (simp add: grown_def)
    then show ?thesis using assms(2) by (simp add: undisturbed_settled store_settled_def)
  next
    case False
    then show ?thesis using t unused_settled [of b "sh_store t"]
      by (cases "b \<le> next_attempt t") (auto simp: grown_def good_def not_le)
  qed
  then show ?thesis using t(1) by (simp add: store_settled_def good_def next_attempt_def)
qed

end
