(* ===== verification/RuntimeBootstrap.thy ===== *)
theory RuntimeBootstrap
  imports RuntimeHistory
begin

text \<open>
  What \<open>bootstrap_r2\<close> returns: a runtime over a freshly bootstrapped authority kernel whose root
  lease carries the requested authority, a store with the four activation events, empty ledgers and
  full budgets. It is the start of every run.
\<close>

definition root_request ::
  "'cap mission_envelope \<Rightarrow> agent_id \<Rightarrow> 'cap authority_set \<Rightarrow> 'cap authority_set \<Rightarrow> 'cap capability_manifest
   \<Rightarrow> digest \<Rightarrow> timestamp \<Rightarrow> 'cap root_lease_request" where
  "root_request mission agent granted delegable manifest d expiry =
     \<lparr>rr_mission = mission, rr_agent_id = agent, rr_granted_authority = granted,
      rr_delegable_authority = delegable, rr_capability_manifest = manifest,
      rr_semantic_context_digest = d, rr_expires_at = expiry\<rparr>"

definition activated :: "'cap mission_envelope \<Rightarrow> (nat \<Rightarrow> timestamp) \<Rightarrow> 'cap mission_store" where
  "activated mission clk = (new_store mission)\<lparr>ms_events := new_mutex
     (foldl (\<lambda>es (k, n). push_mission_event (me_mission_id mission) None k (clk n) es) []
        (zip foundational [1, 2, 3, 4]))\<rparr>"

lemma activation:
  "bindS (append_mission MissionCreated (clk 1)) (\<lambda>_. bindS (append_mission ContextResolved (clk 2)) (\<lambda>_.
     bindS (append_mission MissionLeaseIssued (clk 3)) (\<lambda>_. append_mission AgentActivated (clk 4))))
     (new_store mission) = (Inr (), activated mission clk)"
  by (simp add: bindS_def append_mission_def append_event_def atomicS_def new_store_def new_mutex_def lock_def
      activated_def foundational_def)

lemma bootstrap_r2_ok:
  assumes "bootstrap_r2 P N M gk ku lu clk mission agent spec registry cv delegable = Inr s"
  obtains snap md resolver ctx d rc custody granted k where
    "check_bootstrap P mission spec (clk 0) = Inr ()"
    "registry_snapshot_of P registry (sp_requested_tools spec) = Inr snap"
    "md_manifest_digest M (sp_requested_model spec) = Inr md"
    "resolver_for_r1 P md (me_policy_epoch mission) cv = Inr resolver"
    "resolve_context P resolver spec snap = Inr ctx" "context_canonical_digest P ctx = Inr d"
    "gk (''key-'' @ ku) = Inr custody"
    "new_authority_set P (ar_capabilities (sp_requested_authority spec)) = Inr granted"
    "bootstrap P (root_request mission agent granted delegable (bootstrap_manifest spec snap ctx rc) d
       (min (me_expires_at mission) (clk 0 + seconds 300))) custody lu (clk 0) = Inr k"
    "nx_new N \<noteq> None"
    "s = \<lparr>sh_registry = registry, sh_kernel = \<lparr>ak_state = k, ak_poisoned = False\<rparr>,
       sh_context = new_mutex ctx, sh_store = activated mission clk, sh_metrics = default_metrics,
       rt_mission = mission, rt_agent_id = agent, rt_spec = spec, rt_key_custody = custody,
       rt_protocol_gate = default_gate, rt_action_certificates = new_mutex [],
       rt_steps_consumed = 0, rt_actions_consumed = 0\<rparr>"
  using assms unfolding bootstrap_r2_def Let_def bindE_eq_Inr activation ok_or_eq_Inr
  by (auto simp: root_request_def new_id_eq_Inr)

section \<open>The start of every run\<close>

lemma activated_events:
  "map ev_kind (events (activated m clk)) = foundational" "\<forall>e \<in> set (events (activated m clk)). ev_attempt_id e = None"
  "length (events (activated m clk)) = 4" "log_ok (activated m clk)"
  "\<not> mx_poisoned (ms_events (activated m clk))"
  by (simp_all add: activated_def foundational_def push_mission_event_def new_mutex_def log_ok_def new_store_def
      numbered_def)

lemma activated_frame [simp]:
  "ms_authorization_records (activated m clk) = new_mutex []" "ms_authorization_attempts (activated m clk) = new_mutex []"
  "ms_next_attempt_id (activated m clk) = 0" "ms_mission (activated m clk) = m"
  by (simp_all add: activated_def new_store_def)

lemma activated_settled: "store_settled (activated m clk)"
proof -
  have none: "attempt_kinds b (events (activated m clk)) = []" for b
    using activated_events(2) [of m clk] by (simp add: attempt_kinds_def filter_empty_conv)
  have "hist_inv (activated m clk)"
    using activated_events [of m clk] by (simp add: hist_inv_def new_mutex_def)
  then show ?thesis
    by (simp add: store_settled_def attempt_settled_def attempt_unused_def none new_mutex_def)
qed

lemma check_bootstrap_ok:
  "check_bootstrap P mission spec now = Inr () \<Longrightarrow>
     validate_spec P spec = Inr () \<and> is_usable_at mission now \<and> me_max_actions mission \<noteq> 0
     \<and> set (sp_requested_tools spec) \<subseteq> set (me_allowed_tools mission)"
  unfolding check_bootstrap_def bindE_eq_Inr if_err_eq_Inr
  by (auto simp: list_ex_iff is_usable_at_def not_le word_gt_0)

lemma bootstrapped:
  assumes "bootstrap_r2 P N M gk ku lu clk mission agent spec registry cv delegable = Inr s"
  shows "store_settled (sh_store s) \<and> good 0 s \<and> tally s (\<lambda>_. 0) s \<and> reachable P (kernel_state s)"
  using assms
proof (rule bootstrap_r2_ok)
  fix snap md resolver ctx d rc custody granted k
  assume chk: "check_bootstrap P mission spec (clk 0) = Inr ()"
    and k: "bootstrap P (root_request mission agent granted delegable (bootstrap_manifest spec snap ctx rc) d
       (min (me_expires_at mission) (clk 0 + seconds 300))) custody lu (clk 0) = Inr k"
    and s: "s = \<lparr>sh_registry = registry, sh_kernel = \<lparr>ak_state = k, ak_poisoned = False\<rparr>,
       sh_context = new_mutex ctx, sh_store = activated mission clk, sh_metrics = default_metrics,
       rt_mission = mission, rt_agent_id = agent, rt_spec = spec, rt_key_custody = custody,
       rt_protocol_gate = default_gate, rt_action_certificates = new_mutex [],
       rt_steps_consumed = 0, rt_actions_consumed = 0\<rparr>"
  have "rb_max_steps (sp_resource_budget spec) \<le> MAX_AGENT_STEPS"
    using check_bootstrap_ok [OF chk] by (simp add: validate_spec_ok)
  moreover have "reachable P k" using k run_refl unfolding reachable_def by blast
  moreover have "reading c default_metrics = 0" "reserved_for c s = 0" for c
    by (cases c; simp add: default_metrics_def s)+
  then have "tally s (\<lambda>_. 0) s" using activated_events(1) [of mission clk]
    by (simp add: tally_def s default_metrics_def nexus_entries_def activated_def foundational_def push_mission_event_def
        new_mutex_def new_store_def)
  ultimately show ?thesis using activated_settled [of mission clk]
    by (simp add: s good_def next_attempt_def store_settled_def)
qed

end
