(* ===== verification/DemoRuntime.thy ===== *)
theory DemoRuntime
  imports RuntimeBootstrap StoreProperties
begin

text \<open>
  A runtime on the demonstration platform: one registered tool, a model that asks for it and a Nexus
  that runs everything, bootstrapped and stepped once.
\<close>

section \<open>Its surroundings\<close>

definition demo_tool :: "string registered_tool" where
  "demo_tool = \<lparr>rt_manifest = \<lparr>tm_version = 1, tm_tool_id = ''echo'', tm_wasm_sha256 = ''00'', tm_entry_point = ''run'',
       tm_input_schema_digest = demo_digest, tm_required_capabilities = [''fs''], tm_effect_class = ReadOnly,
       tm_output_schema_digest = None\<rparr>,
     rt_wasm_bytes = [0], rt_input_schema = JObject [(''type'', JString ''object'')], rt_output_schema = None\<rparr>"

definition demo_registry :: "string tool_registry" where
  "demo_registry = \<lparr>tr_tools = [demo_tool], tr_poisoned = False\<rparr>"

definition demo_spec :: "string agent_spec" where
  "demo_spec = \<lparr>sp_role = ''r'', sp_objective = ''o'', sp_requested_model = ''m'', sp_requested_tools = [''echo''],
     sp_requested_authority = \<lparr>ar_capabilities = [''fs'']\<rparr>, sp_output_contract = ''c'',
     sp_resource_budget = \<lparr>rb_max_steps = 4\<rparr>, sp_semantic_requirements =
       \<lparr>sq_requested_memory = None, sq_requested_retrieval_index = None, sq_requested_instruction_profile = None\<rparr>\<rparr>"

definition demo_model :: "string \<Rightarrow> string model_client" where
  "demo_model answer = \<lparr>md_generate = \<lambda>_. Inr \<lparr>mr_raw_output = answer\<rparr>, md_manifest_digest = \<lambda>_. Inr demo_digest\<rparr>"

definition demo_nexus :: "(string, nat, string \<times> int, string) nexus" where
  "demo_nexus = \<lparr>nx_new = Some 0, nx_issue_token = (\<lambda>h c who v. Some ((c, v), Suc h)),
     nx_execute = (\<lambda>h d args toks. Some (td_name d)), nx_success = (\<lambda>_. True)\<rparr>"

lemma demo_nexus_simps [simp]:
  "nx_new demo_nexus = Some 0" "nx_issue_token demo_nexus h c who v = Some ((c, v), Suc h)"
  "nx_execute demo_nexus h d args toks = Some (td_name d)" "nx_success demo_nexus out"
  by (simp_all add: demo_nexus_def)

lemma demo_model_simps [simp]:
  "md_generate (demo_model answer) q = Inr \<lparr>mr_raw_output = answer\<rparr>"
  "md_manifest_digest (demo_model answer) m = Inr demo_digest"
  by (simp_all add: demo_model_def)

section \<open>Digests\<close>

abbreviation demo_md :: digest where "demo_md \<equiv> demo_dd ''aeon-tool-manifest-v1''"

abbreviation demo_root :: digest where "demo_root \<equiv> demo_dd ''aeon-tool-registry-root-v1''"

lemma demo_array_digest [simp]:
  "d \<noteq> [] \<Longrightarrow> length d < 2 ^ 32 \<Longrightarrow> canonical_digest demo_platform d (Inr (JArray xs)) = Inr (demo_dd d)"
  by (simp add: canonical_encoding_def canonical_digest_def demo_dd_def demo_hash_def frame_def demo_print_def)

lemma demo_object_digest [simp]:
  "d \<noteq> [] \<Longrightarrow> length d < 2 ^ 32 \<Longrightarrow> canonical_digest demo_platform d (Inr (JObject xs)) = Inr (demo_dd d)"
  by (simp add: canonical_encoding_def canonical_digest_def demo_dd_def demo_hash_def frame_def demo_print_def)

lemma demo_tool_digest [simp]: "manifest_digest demo_platform demo_tool = Inr demo_md"
  by (simp add: manifest_digest_def tool_manifest_digest_def sort_capabilities_def tool_manifest_value_def
      capabilities_value_def demo_tool_def)

lemma demo_tool_id [simp]: "registered_id demo_tool = ''echo''"
  by (simp add: demo_tool_def)

lemma demo_find [simp]: "find_tool [demo_tool] ''echo'' = Inr demo_tool"
  by (simp add: find_tool_def)

lemma demo_snapshot [simp]:
  "snapshot_for_tools demo_platform [demo_tool] [''echo''] =
     Inr \<lparr>rs_resolved_tools = [demo_tool], rs_bound_tools = [BoundTool ''echo'' demo_md], rs_root_digest = demo_root\<rparr>"
  by (simp add: snapshot_for_tools_def bind_tool_def root_digest_for_tools_def root_entry_def)

section \<open>Bootstrap\<close>

definition demo_context :: semantic_context where
  "demo_context = \<lparr>sc_context_version = 1, sc_model_manifest_digest = demo_digest,
     sc_resolved_system_instruction_digest = Digest (replicate 32 52), sc_tool_registry_root_digest = demo_root,
     sc_bound_tool_digests = [demo_md], sc_protocol_schema_digest = demo_dd ''aeon-agent-protocol-schema-v1'',
     sc_policy_epoch = 1, sc_memory_generation = None, sc_retrieval_index_generation = None\<rparr>"

definition demo_caps_manifest :: "string capability_manifest" where
  "demo_caps_manifest = \<lparr>cm_version = 1, cm_model_manifest_digest = demo_digest,
     cm_approved_tools = [BoundTool ''echo'' demo_md], cm_permissions = \<lparr>ps_capabilities = [''fs'']\<rparr>,
     cm_runtime_config_digest = demo_dd ''aeon-r1-runtime-config-v1'', cm_tool_registry_root_digest = demo_root\<rparr>"

definition demo_boot :: "string \<Rightarrow> string runtime result" where
  "demo_boot answer = bootstrap_r2 demo_platform demo_nexus (demo_model answer) (\<lambda>i. Inr (demo_custody i 1)) ''u0'' ''u1'' (\<lambda>_. 1)
     demo_mission ''a1'' demo_spec demo_registry 1 (AuthoritySet [])"

lemma demo_resolved [simp]:
  "resolve_context demo_platform (new_resolver demo_digest (demo_dd ''aeon-agent-protocol-schema-v1'') 1 1) demo_spec
     \<lparr>rs_resolved_tools = [demo_tool], rs_bound_tools = [BoundTool ''echo'' demo_md], rs_root_digest = demo_root\<rparr>
   = Inr demo_context"
  by (simp add: resolve_context_def demo_spec_def resolved_system_instruction_def new_resolver_def demo_context_def
     canonical_digest_def canonical_encoding_def frame_def demo_print_def demo_hash_def sort_dedup_def)

lemma demo_check [simp]: "check_bootstrap demo_platform demo_mission demo_spec 1 = Inr ()"
proof -
  have "validate_spec demo_platform demo_spec = Inr ()"
    by (simp add: validate_spec_ok demo_spec_def MAX_REQUESTED_TOOLS_def MAX_REQUESTED_CAPABILITIES_def MAX_AGENT_STEPS_def)
  then show ?thesis
    by (simp add: check_bootstrap_def demo_mission_def demo_spec_def new_authority_set_def canonical_capabilities_def
        authority_subset_def covers_def)
qed

lemma demo_key [simp]: "new_id ''key id'' ''key-u0'' = Inr ''key-u0''"
  by code_simp

lemma demo_caps_manifest_digest [simp]:
  "manifest_canonical_digest demo_platform demo_caps_manifest = Inr (demo_dd ''aeon-capability-manifest-v1'')"
  by (simp add: manifest_canonical_digest_def demo_caps_manifest_def canonical_capabilities_def Let_def
      canonical_manifest_value_def permission_set_value_def capabilities_value_def del: demo_platform_simps)

definition demo_lease :: "string authority_lease_certificate" where
  "demo_lease = \<lparr>lc_lease_id = ''lease-u1'', lc_mission_id = ''m1'', lc_agent_id = ''a1'', lc_parent_agent_id = None,
     lc_agent_identity_digest = demo_dd ''aeon-agent-identity-certificate-v1'',
     lc_issuer_identity_digest = demo_dd ''aeon-agent-identity-certificate-v1'', lc_issuer_key_id = ''key-u0'',
     lc_parent_lease = None, lc_renewed_from = None, lc_organization_version = 1, lc_policy_epoch = 1,
     lc_granted_authority = AuthoritySet [''fs''], lc_delegable_authority = AuthoritySet [],
     lc_capability_manifest_digest = demo_dd ''aeon-capability-manifest-v1'',
     lc_semantic_context_digest = demo_dd ''aeon-semantic-context-v1'', lc_issued_at = 1, lc_expires_at = 9,
     lc_signature = replicate 64 1\<rparr>"

definition demo_root_entry :: "string lease_entry" where
  "demo_root_entry = \<lparr>en_certificate = demo_lease, en_record = active_lease_record ''lease-u1'',
     en_manifest = demo_caps_manifest\<rparr>"

definition demo_request :: "string root_lease_request" where
  "demo_request = root_request demo_mission ''a1'' (AuthoritySet [''fs'']) (AuthoritySet []) demo_caps_manifest
     (demo_dd ''aeon-semantic-context-v1'') 9"

lemma demo_request_ok: "validate_root_request demo_platform demo_request 1 = Inr ()"
  by (simp add: validate_root_request_ok demo_request_def root_request_def demo_mission_def is_usable_at_def
      authority_is_subset_of_capabilities_def validate_authority_sets_ok authority_is_subset_of_iff validate_manifest_def)
    (simp add: demo_caps_manifest_def canonical_capabilities_def)

definition demo_identity_cert :: identity_certificate where
  "demo_identity_cert = unsigned_identity ''a1'' ''key-u0'' (replicate 32 1) None ''key-u0'' 1
     \<lparr>ic_signature := replicate 64 1\<rparr>"

definition demo_kernel :: "string authority_state" where
  "demo_kernel = push_event ''lease-u1'' None LeaseIssued 1 (push_event ''lease-u1'' None IdentityRegistered 1
     \<lparr>as_mission = demo_mission, as_root_lease_id = ''lease-u1'',
      as_identities = [(''a1'', demo_identity_cert)], as_custodians = [(''a1'', demo_custody ''key-u0'' 1)],
      as_leases = [(''lease-u1'', demo_root_entry)], as_events = []\<rparr>)"

lemma demo_kernel_boot:
  "bootstrap demo_platform demo_request (demo_custody ''key-u0'' 1) ''u1'' 1 = Inr demo_kernel"
  unfolding bootstrap_def using demo_request_ok
  by (simp add: Let_def)
    (simp add: demo_request_def root_request_def unsigned_lease_def demo_root_entry_def demo_lease_def demo_mission_def
      demo_identity_cert_def demo_kernel_def)

lemma demo_kernel_simps [simp]:
  "as_leases demo_kernel = [(''lease-u1'', demo_root_entry)]" "as_root_lease_id demo_kernel = ''lease-u1''"
  "as_mission demo_kernel = demo_mission"
  by (simp_all add: demo_kernel_def)

definition demo_runtime :: "string runtime" where
  "demo_runtime = \<lparr>sh_registry = demo_registry, sh_kernel = \<lparr>ak_state = demo_kernel, ak_poisoned = False\<rparr>,
     sh_context = new_mutex demo_context, sh_store = activated demo_mission (\<lambda>_. 1), sh_metrics = default_metrics,
     rt_mission = demo_mission, rt_agent_id = ''a1'', rt_spec = demo_spec, rt_key_custody = demo_custody ''key-u0'' 1,
     rt_protocol_gate = default_gate, rt_action_certificates = new_mutex [],
     rt_steps_consumed = 0, rt_actions_consumed = 0\<rparr>"

lemma demo_boot_ok: "demo_boot answer = Inr demo_runtime"
proof -
  have manifest: "bootstrap_manifest demo_spec \<lparr>rs_resolved_tools = [demo_tool],
      rs_bound_tools = [BoundTool ''echo'' demo_md], rs_root_digest = demo_root\<rparr> demo_context
      (demo_dd ''aeon-r1-runtime-config-v1'') = demo_caps_manifest"
    by (simp add: bootstrap_manifest_def demo_caps_manifest_def demo_spec_def demo_context_def)
  have snap: "registry_snapshot_of demo_platform demo_registry (sp_requested_tools demo_spec) = Inr
      \<lparr>rs_resolved_tools = [demo_tool], rs_bound_tools = [BoundTool ''echo'' demo_md], rs_root_digest = demo_root\<rparr>"
    by (simp add: registry_snapshot_of_def read_tools_def demo_registry_def demo_spec_def)
  have resolver: "resolver_for_r1 demo_platform demo_digest (me_policy_epoch demo_mission) 1
      = Inr (new_resolver demo_digest (demo_dd ''aeon-agent-protocol-schema-v1'') 1 1)"
    by (simp add: resolver_for_r1_def schema_digest_def demo_mission_def)
  have digest: "context_canonical_digest demo_platform demo_context = Inr (demo_dd ''aeon-semantic-context-v1'')"
    by (simp add: context_canonical_digest_def)
  have granted: "new_authority_set demo_platform (ar_capabilities (sp_requested_authority demo_spec)) = Inr (AuthoritySet [''fs''])"
    by (simp add: new_authority_set_def canonical_capabilities_def demo_spec_def)
  have expiry: "min 9 (1 + seconds 300) = 9"
    by (simp add: demo_mission_def seconds_def)
  show ?thesis
    unfolding demo_boot_def bootstrap_r2_def Let_def
    by (simp add: activation [of "\<lambda>_. 1", simplified] snap resolver digest granted expiry manifest demo_kernel_boot [unfolded demo_request_def root_request_def]
        demo_runtime_def)
qed

section \<open>One step\<close>

definition demo_validated :: validated_authority where
  "demo_validated = \<lparr>va_leaf_lease_id = ''lease-u1'', va_leaf_expires_at = 9,
     va_agent_identity_digest = demo_dd ''aeon-agent-identity-certificate-v1'',
     va_capability_manifest_digest = demo_dd ''aeon-capability-manifest-v1'',
     va_semantic_context_digest = demo_dd ''aeon-semantic-context-v1'',
     va_chain = [\<lparr>lr_lease_id = ''lease-u1'',
       lr_certificate_digest = demo_dd ''aeon-authority-lease-certificate-record-v2''\<rparr>],
     va_observed_generations = [(''lease-u1'', 0)]\<rparr>"

lemma demo_root_entry_simps [simp]:
  "en_certificate demo_root_entry = demo_lease" "en_record demo_root_entry = active_lease_record ''lease-u1''"
  "en_manifest demo_root_entry = demo_caps_manifest" "lc_expires_at demo_lease = 9" "lc_parent_lease demo_lease = None"
  "lc_agent_id demo_lease = ''a1''" "lc_mission_id demo_lease = ''m1''" "lc_lease_id demo_lease = ''lease-u1''"
  "lc_organization_version demo_lease = 1" "lc_policy_epoch demo_lease = 1"
  "lc_capability_manifest_digest demo_lease = demo_dd ''aeon-capability-manifest-v1''"
  "lc_granted_authority demo_lease = AuthoritySet [''fs'']"
  "lc_semantic_context_digest demo_lease = demo_dd ''aeon-semantic-context-v1''"
  "lc_agent_identity_digest demo_lease = demo_dd ''aeon-agent-identity-certificate-v1''"
  by (simp_all add: demo_root_entry_def demo_lease_def)

lemma demo_runtime_validates [simp]:
  assumes "now < 9"
  shows "validate_chain demo_platform demo_kernel ''lease-u1'' (Some 0) demo_caps_manifest now = Inr demo_validated"
proof -
  have inv: "kernel_inv demo_platform demo_kernel" using demo_kernel_boot by (rule bootstrap_inv)
  have look: "map_of (as_leases demo_kernel) ''lease-u1'' = Some demo_root_entry" by simp
  have "\<exists>v. validate_chain demo_platform demo_kernel ''lease-u1'' (Some 0) demo_caps_manifest now = Inr v"
    unfolding validate_chain_exact [OF inv demo_json_total look]
    using assms by (simp add: entry_live_def)
  then obtain v where v: "validate_chain demo_platform demo_kernel ''lease-u1'' (Some 0) demo_caps_manifest now = Inr v" ..
  obtain es where es: "lease_path (map_of (as_leases demo_kernel)) ''lease-u1'' es"
    "chain_observation demo_platform ''lease-u1'' es v"
    using validate_chain_sound [OF v] by (auto simp: authority_chain_def)
  have "lease_path (map_of (as_leases demo_kernel)) ''lease-u1'' [(''lease-u1'', demo_root_entry)]"
    using look by (rule lease_path.lease_root) simp
  then have one: "es = [(''lease-u1'', demo_root_entry)]" using es(1) lease_path_unique by blast
  have "v = demo_validated" using es(2) unfolding one
    by (auto simp: chain_observation_def demo_validated_def intro!: validated_authority.equality)
  with v show ?thesis by simp
qed

definition demo_ids :: "nat \<Rightarrow> string" where
  "demo_ids n = (if n = 1 then ''x1'' else ''x2'')"

abbreviation demo_world :: "string runtime schedule" where
  "demo_world \<equiv> alone (\<lambda>_. 2) demo_ids"

lemma demo_new_ids [simp]:
  "new_id ''authorization id'' ''auth-x1'' = Inr ''auth-x1''" "new_id ''certificate id'' ''cert-x2'' = Inr ''cert-x2''"
  "new_action_target ''echo'' = Inr ''echo''" "validate_identifier ''tool id'' ''echo'' = Inr ()"
  by code_simp+

definition demo_observation :: "string model_authority_observation" where
  "demo_observation = \<lparr>ob_lease = snapshot demo_root_entry, ob_validated = demo_validated\<rparr>"

definition demo_frame :: "string runtime \<Rightarrow> bool" where
  "demo_frame s \<longleftrightarrow> sh_registry s = demo_registry \<and> sh_kernel s = \<lparr>ak_state = demo_kernel, ak_poisoned = False\<rparr>
     \<and> sh_context s = new_mutex demo_context \<and> rt_mission s = demo_mission \<and> rt_agent_id s = ''a1'' \<and> rt_spec s = demo_spec
     \<and> rt_key_custody s = demo_custody ''key-u0'' 1 \<and> rt_protocol_gate s = default_gate
     \<and> \<not> mx_poisoned (ms_events (sh_store s))"

lemma demo_context_digest [simp]:
  "context_canonical_digest demo_platform demo_context = Inr (demo_dd ''aeon-semantic-context-v1'')"
  by (simp add: context_canonical_digest_def)

lemma demo_observes:
  assumes "demo_frame s"
  shows "observe_model_authority demo_platform demo_world demo_context 2 s = (Inr demo_observation, s)"
  using assms
  by (simp add: observe_model_authority_def active_lease_snapshot_def bindS_def reads_def yield_def liftS_def demo_frame_def
      is_usable_at_def demo_mission_def root_lease_id_def get_lease_snapshot_def read_state_def snapshot_def
      check_binding_def validate_active_chain_def demo_observation_def demo_validated_def validate_context_continuation_def)

definition demo_authorized :: "string authorized_execution \<times> authorization_artifact" where
  "demo_authorized = projr (issue_authorization demo_platform demo_mission (snapshot demo_root_entry) ''lease-u1'' demo_validated
     (demo_dd ''aeon-semantic-context-v1'') demo_tool demo_md demo_caps_manifest ''echo'' (JObject [])
     (demo_custody ''key-u0'' 1) ''x1'' ''x2'' 2)"

lemma demo_payload [simp]:
  "action_signing_payload demo_platform c = Inr (frame ''aeon-action-certificate-v1'' [123, 125])"
  by (simp add: action_signing_payload_def)

lemma demo_issues:
  "issue_authorization demo_platform demo_mission (snapshot demo_root_entry) ''lease-u1'' demo_validated
     (demo_dd ''aeon-semantic-context-v1'') demo_tool demo_md demo_caps_manifest ''echo'' (JObject [])
     (demo_custody ''key-u0'' 1) ''x1'' ''x2'' 2 = Inr demo_authorized"
  by (simp add: demo_authorized_def issue_authorization_def Let_def action_ref_of_def)

lemma demo_refresh [simp]:
  "refresh_capability_manifest_for_tools demo_platform [demo_tool] demo_caps_manifest = Inr demo_caps_manifest"
  by (simp add: refresh_capability_manifest_for_tools_def Let_def demo_caps_manifest_def)

lemma demo_checks [simp]:
  "tm_required_capabilities (rt_manifest demo_tool) = [''fs'']"
  "check_bound_digest demo_caps_manifest ''echo'' demo_md = Inr ()"
  "check_binding demo_mission ''a1'' demo_lease = Inr ()"
  "validate_input demo_tool (JObject []) = Inr ()"
  "check_capabilities demo_platform demo_mission (AuthoritySet [''fs'']) [''fs''] = Inr ()"
  "me_active demo_mission" "me_allowed_tools demo_mission = [''echo'']"
  "va_semantic_context_digest demo_validated = demo_dd ''aeon-semantic-context-v1''"
  by (simp_all add: demo_tool_def check_bound_digest_def demo_caps_manifest_def check_binding_def demo_mission_def
      validate_input_def check_capabilities_def validate_instance.simps covers_def type_matches_def schema_properties_def
      new_authority_set_def canonical_capabilities_def demo_validated_def)

lemma demo_authorizes:
  assumes "demo_frame s"
  shows "authorize demo_platform demo_world demo_mission ''a1'' ''lease-u1'' demo_context ''echo'' (JObject [])
     (demo_custody ''key-u0'' 1) 2 s = (Inr demo_authorized, s)"
  using assms demo_issues
  by (simp add: authorize_def bindS_def reads_def yield_def liftS_def demo_frame_def
      get_lease_snapshot_def read_state_def snapshot_def resolve_with_capability_manifest_def read_tools_def demo_registry_def
      validate_active_chain_def demo_ids_def)

lemma demo_authorized_simps [simp]:
  "ax_tool_id (fst demo_authorized) = ''echo''" "ax_arguments (fst demo_authorized) = JObject []"
  "ax_tool_manifest_digest (fst demo_authorized) = demo_md" "ax_required_capabilities (fst demo_authorized) = [''fs'']"
  "ax_capability_manifest (fst demo_authorized) = demo_caps_manifest"
  "ax_observed_generations (fst demo_authorized) = [(''lease-u1'', 0)]"
  "aa_certificate (snd demo_authorized) = ax_certificate (fst demo_authorized)"
  "az_record_id (aa_record (snd demo_authorized)) = ''auth-x1''" "available 0 (aa_record (snd demo_authorized))"
  by (simp_all add: demo_authorized_def issue_authorization_def Let_def action_ref_of_def demo_validated_def available_def)

lemma demo_certificate_simps [simp]:
  "ac_authority_lease_id (ax_certificate (fst demo_authorized)) = ''lease-u1''"
  "ac_authorization_record_id (ax_certificate (fst demo_authorized)) = ''auth-x1''"
  "ac_authorization_generation (ax_certificate (fst demo_authorized)) = 0"
  "ac_expires_at (ax_certificate (fst demo_authorized)) = 9" "ac_tool_id (ax_certificate (fst demo_authorized)) = ''echo''"
  "ac_tool_manifest_digest (ax_certificate (fst demo_authorized)) = demo_md"
  "ac_concrete_input_digest (ax_certificate (fst demo_authorized)) = demo_dd ''aeon-concrete-input-v1''"
  "ac_signature (ax_certificate (fst demo_authorized)) = replicate 64 1"
  "ac_agent_identity_digest (ax_certificate (fst demo_authorized)) = demo_dd ''aeon-agent-identity-certificate-v1''"
  "ac_semantic_context_digest (ax_certificate (fst demo_authorized)) = demo_dd ''aeon-semantic-context-v1''"
  by (simp_all add: demo_authorized_def issue_authorization_def Let_def action_ref_of_def demo_validated_def snapshot_def seconds_def)

lemma demo_live [simp]:
  "check_live_authority demo_platform (fst demo_authorized) demo_caps_manifest demo_validated = Inr ()"
  "validate_action_certificate demo_platform (ax_certificate (fst demo_authorized)) (fst demo_authorized)
     (demo_custody ''key-u0'' 1) 2 = Inr ()"
  "token_validity (va_leaf_expires_at demo_validated) 9 2 = Inr 7"
  by (simp_all add: check_live_authority_def demo_validated_def validate_action_certificate_def demo_sign_def
      token_validity_def TOKEN_VALIDITY_def seconds_def)

lemma demo_commit:
  assumes "demo_frame s" and "may_spend ''auth-x1'' 0 (sh_store s) = Inr rs"
  shows "\<exists>t. commit_phase demo_platform demo_nexus demo_world (demo_custody ''key-u0'' 1) (fst demo_authorized) s
    = (Inr (demo_tool, 1, [(''fs'', 7)]), t) \<and> demo_frame t \<and> sh_store t = spend ''auth-x1'' (sh_store s)"
  using assms
  by (simp add: commit_phase_def bindS_def reads_def yield_def liftS_def demo_frame_def read_state_def
      resolve_with_capability_manifest_def read_tools_def demo_registry_def commit_under_guard_def commit_active_chain_def
      commit_execution_def lock_def new_mutex_def consume_and_issue_def consume_with_cases issue_tokens_def frame_simps)

lemma append_eq:
  "\<not> mx_poisoned (ms_events st) \<Longrightarrow> append_for_attempt a k now st = (Inr (), st\<lparr>ms_events := (ms_events st)\<lparr>mx_value :=
     push_mission_event (me_mission_id (ms_mission st)) (Some a) k now (events st)\<rparr>\<rparr>)"
  by (simp add: append_ok)

lemma demo_executes:
  assumes "demo_frame s" and "may_spend ''auth-x1'' 0 (sh_store s) = Inr rs"
  shows "\<exists>t. run_execution demo_platform demo_nexus demo_world a (fst demo_authorized) s = (Inr (Executed ''echo''), t)"
proof -
  have s: "rt_key_custody s = demo_custody ''key-u0'' 1" using assms(1) by (simp add: demo_frame_def)
  have "demo_frame (s\<lparr>sh_metrics := execution_port_call (sh_metrics s)\<rparr>)" using assms(1) by (simp add: demo_frame_def)
  from demo_commit [OF this] assms(2) obtain t
    where t: "commit_phase demo_platform demo_nexus demo_world (demo_custody ''key-u0'' 1) (fst demo_authorized)
      (s\<lparr>sh_metrics := execution_port_call (sh_metrics s)\<rparr>) = (Inr (demo_tool, 1, [(''fs'', 7)]), t)"
      and "demo_frame t" by auto
  then have h: "\<not> mx_poisoned (ms_events (sh_store t))" by (simp add: demo_frame_def)
  show ?thesis
    by (simp add: run_execution_def bindS_def reads_def s onResult_def execute_inner_def on_metrics_def map_errS_def t
        yield_def on_store_def append_eq h map_err_def liftS_def tool_definition_of_def)
qed

lemma runs_to_eq: "m s = (Inr x, t) \<Longrightarrow> Q x t \<Longrightarrow> runs_to m s Q E"
  by (simp add: runs_to_def)

text \<open>The steps before the execution, from a store without authorizations.\<close>

definition demo_ready :: "u64 \<Rightarrow> string runtime \<Rightarrow> bool" where
  "demo_ready n s \<longleftrightarrow> demo_frame s \<and> ms_authorization_records (sh_store s) = new_mutex []
     \<and> ms_authorization_attempts (sh_store s) = new_mutex [] \<and> rt_actions_consumed s = n
     \<and> \<not> mx_poisoned (rt_action_certificates s)"

lemma ready_event:
  assumes "demo_ready n s" and "\<And>t. demo_ready n t \<Longrightarrow> runs_to (f ()) t Q E"
  shows "runs_to (bindS (event demo_world a k m) f) s Q E"
proof -
  have "\<not> mx_poisoned (ms_events (sh_store s))" using assms(1) by (simp add: demo_ready_def demo_frame_def)
  moreover have "demo_ready n (s\<lparr>sh_store := (sh_store s)\<lparr>ms_events := (ms_events (sh_store s))\<lparr>mx_value := es\<rparr>\<rparr>\<rparr>)" for es
    using assms(1) by (simp add: demo_ready_def demo_frame_def)
  ultimately show ?thesis using assms(2)
    by (simp add: event_def runs_to_bindS runs_to_on_store runs_to_yield) (simp add: runs_to_def append_eq)
qed

lemma ready_frame: "demo_ready n s \<Longrightarrow> demo_frame s"
  by (simp add: demo_ready_def)

lemma ready_metrics:
  "demo_ready n s \<Longrightarrow> (\<And>t. demo_ready n t \<Longrightarrow> runs_to (f ()) t Q E) \<Longrightarrow> runs_to (bindS (on_metrics g) f) s Q E"
  by (simp add: runs_to_bindS runs_to_on_metrics demo_ready_def demo_frame_def)

lemma ready_spends:
  assumes "demo_ready n s" and "a \<noteq> 0"
  shows "runs_to (on_store (insert_authorization_for_attempt a (aa_record (snd demo_authorized)))) s
    (\<lambda>_ t. demo_frame t \<and> (\<exists>rs. may_spend ''auth-x1'' 0 (sh_store t) = Inr rs) \<and> \<not> mx_poisoned (rt_action_certificates t)) E"
  using assms
  by (simp add: on_store_def runs_to_def insert_authorization_for_attempt_def insert_authorization_inner_def atomicS_def
      demo_ready_def demo_frame_def lock_def new_mutex_def may_spend_ok)

lemma ready_authorized:
  assumes "demo_ready n s" and "a \<noteq> 0"
  shows "runs_to (run_authorized demo_platform demo_nexus demo_world a (fst demo_authorized) (snd demo_authorized)) s
    (\<lambda>r _. r = Executed ''echo'') (\<lambda>_ _. False)"
proof -
  have last: "runs_to (run_execution demo_platform demo_nexus demo_world a (fst demo_authorized)) t
      (\<lambda>r _. r = Executed ''echo'') (\<lambda>_ _. False)"
    if "demo_frame t" "may_spend ''auth-x1'' 0 (sh_store t) = Inr rs" for t rs
    using demo_executes [OF that, of a] by (auto simp: runs_to_def)
  show ?thesis
    unfolding run_authorized_def
    apply (rule ready_event [OF assms(1)], rule ready_event, assumption)
    apply (rule run_onResult, rule runs_to_mono [OF ready_spends [OF _ assms(2)]], assumption)
     apply (simp add: runs_to_bindS runs_to_yield runs_to_onResult)
     apply (elim conjE exE)
     apply (simp add: runs_to_def [of "push_certificate _"] push_certificate_def lock_def)
     apply (rule last, simp add: demo_frame_def, simp)
    apply simp
    done
qed

lemma ready_tool_call:
  assumes "demo_ready 0 s" and "a \<noteq> 0"
  shows "runs_to (run_tool_call demo_platform demo_nexus demo_world demo_context a
      \<lparr>tp_tool_id = ''echo'', tp_arguments = JObject []\<rparr>) s (\<lambda>r _. r = Executed ''echo'') (\<lambda>_ _. False)"
proof -
  have gate: "root_lease_id (sh_kernel t) = Inr ''lease-u1''" "rt_mission t = demo_mission" "rt_agent_id t = ''a1''"
    "rt_key_custody t = demo_custody ''key-u0'' 1" "rt_actions_consumed t = 0"
    if "demo_ready 0 t" for t
    using that by (simp_all add: demo_ready_def demo_frame_def root_lease_id_def read_state_def)
  have pass: "authorize demo_platform demo_world demo_mission ''a1'' ''lease-u1'' demo_context ''echo'' (JObject [])
     (demo_custody ''key-u0'' 1) 2 t = (Inr demo_authorized, t)" if "demo_ready 0 t" for t
    by (rule demo_authorizes [OF ready_frame [OF that]])
  have reserve: "runs_to reserve_action t (\<lambda>_. demo_ready 1) (\<lambda>_ _. False)" if "demo_ready 0 t" for t
  proof -
    have "reserve (rt_actions_consumed t) (me_max_actions (rt_mission t)) ''mission action'' = Inr 1"
      unfolding gate [OF that] by (simp add: reserve_def demo_mission_def)
    then show ?thesis using that by (simp add: runs_to_def reserve_action_def demo_ready_def demo_frame_def)
  qed
  show ?thesis
    unfolding run_tool_call_def
    apply (rule ready_event [OF assms(1)], rule ready_metrics, assumption)
    apply (rule run_onResult, rule run_reads)
     apply (simp add: gate)
    apply (simp only: gate sum.inject runs_to_bindS runs_to_yield alone_simps, hypsubst_thin)
    apply (rule run_onResult, rule runs_to_eq [where x = demo_authorized], simp add: gate pass)
    apply (simp add: runs_to_bindS runs_to_yield case_prod_beta)
    apply (rule run_onResult, rule runs_to_mono [OF reserve], assumption)
     apply (rule ready_authorized, assumption, rule assms(2))
    apply simp
    done
qed

lemma demo_message: "parse_message demo_platform default_gate ''call'' =
    Inr (ToolCall \<lparr>tp_tool_id = ''echo'', tp_arguments = JObject []\<rparr>)"
  by (simp add: parse_message_def message_from_str_def visit_map_def default_gate_def DEFAULT_MAX_OUTPUT_BYTES_def
      protocol_defs take_field_def read_variant_def schema_field_def decode_tool_id_def new_id_def decode_value_def)

lemma demo_final: "parse_message demo_platform default_gate ''x'' = Inr (FinalMessage \<lparr>fr_result = ''x''\<rparr>)"
  by (simp add: parse_message_def message_from_str_def visit_map_def default_gate_def DEFAULT_MAX_OUTPUT_BYTES_def
      protocol_defs take_field_def read_variant_def schema_field_def)

lemma demo_attempt:
  assumes "demo_ready 0 s" and "a \<noteq> 0"
  shows "runs_to (run_attempt demo_platform demo_nexus (demo_model ''call'') demo_world demo_context ob instruction a) s
    (\<lambda>r _. r = Executed ''echo'') (\<lambda>_ _. False)"
proof -
  have gate: "rt_protocol_gate t = default_gate" if "demo_ready 0 t" for t
    using that by (simp add: demo_ready_def demo_frame_def)
  show ?thesis
    unfolding run_attempt_def
    apply (rule ready_metrics [OF assms(1)])
    apply (simp only: runs_to_bindS runs_to_yield alone_simps)
    apply (rule run_onResult, rule runs_to_eq, simp add: reads_def, simp)
    apply (rule ready_metrics, assumption)
    apply (rule run_onResult, rule runs_to_eq, simp add: reads_def gate demo_message)
    apply (rule ready_event, assumption)
    apply (simp add: ready_tool_call assms(2))
    done
qed

definition demo_step :: "string run_outcome result \<times> string runtime" where
  "demo_step = run_once demo_platform demo_nexus (demo_model ''call'') demo_world demo_runtime"

lemma demo_runs: "fst demo_step = Inr (Executed ''echo'')"
proof -
  have frame: "demo_frame demo_runtime"
    using activated_events(5) [of demo_mission "\<lambda>_. 1"] by (simp add: demo_frame_def demo_runtime_def)
  let ?s = "demo_runtime\<lparr>rt_steps_consumed := 1, sh_store := (sh_store demo_runtime)\<lparr>ms_next_attempt_id := 1\<rparr>\<rparr>"
  have ready: "demo_ready 0 ?s"
    using frame by (simp add: demo_ready_def demo_frame_def) (simp add: demo_runtime_def new_mutex_def)
  have "run_once demo_platform demo_nexus (demo_model ''call'') demo_world demo_runtime =
      run_attempt demo_platform demo_nexus (demo_model ''call'') demo_world demo_context demo_observation ''json'' 1 ?s"
  proof -
    have "lock msg (sh_context demo_runtime) = Inr demo_context" for msg
      by (simp add: demo_runtime_def new_mutex_def lock_def)
    moreover have "reserve_step demo_runtime = (Inr (), demo_runtime\<lparr>rt_steps_consumed := 1\<rparr>)"
      by (simp add: reserve_step_def reserve_def demo_runtime_def demo_spec_def)
    moreover have "resolved_system_instruction demo_platform spec = Inr ''json''" for spec
      by (simp add: resolved_system_instruction_def)
    moreover have "ms_next_attempt_id (sh_store demo_runtime) = 0" by (simp add: demo_runtime_def)
    ultimately show ?thesis using demo_observes [OF frame]
      by (simp add: run_once_def bindS_def reads_def yield_def on_store_def begin_attempt_def)
  qed
  with demo_attempt [OF ready, of 1 demo_observation "''json''"] show ?thesis
    by (auto simp: demo_step_def runs_to_def split: prod.splits sum.splits)
qed

end
