(* ===== verification/ExecutionSafety.thy ===== *)
theory ExecutionSafety
  imports RuntimeBootstrap
begin

text \<open>
  What an execution that succeeded, an authorization that was granted and a final result that was
  accepted imply about the state they were decided in: the inversion lemmas of the execution port,
  the action gate and the supervisor.
\<close>

section \<open>The commit point\<close>

text \<open>The state in which an execution takes the read guard of the kernel.\<close>

definition at_commit :: "('cap, 'z) shared_scheme schedule \<Rightarrow> ('cap, 'z) shared_scheme \<Rightarrow> ('cap, 'z) shared_scheme" where
  "at_commit w s = at_yield w 20 (s\<lparr>sh_metrics := execution_port_call (sh_metrics s)\<rparr>)"

lemma reads_eq: "reads f s = (q, t) \<longleftrightarrow> f s = q \<and> t = s"
  by (auto simp: reads_def)

lemma lift_eq: "liftS r s = (q, t) \<longleftrightarrow> r = q \<and> t = s"
  by (auto simp: liftS_def)

lemma yield_eq: "yield w n s = (q, t) \<longleftrightarrow> q = Inr () \<and> t = at_yield w n s"
  by (auto simp: yield_def)

lemma on_metrics_eq: "on_metrics f s = (q, t) \<longleftrightarrow> q = Inr () \<and> t = s\<lparr>sh_metrics := f (sh_metrics s)\<rparr>"
  by (auto simp: on_metrics_def)

lemma map_errS_eq_Inr: "map_errS h m s = (Inr x, t) \<longleftrightarrow> m s = (Inr x, t)"
  by (auto simp: map_errS_def map_err_def split: prod.splits sum.splits)

lemmas exec_eqs = bindS_eq_Inr lift_eq reads_eq yield_eq on_metrics_eq map_errS_eq_Inr

lemma read_state_ok [result_simps]: "read_state k = Inr s \<longleftrightarrow> \<not> ak_poisoned k \<and> s = ak_state k"
  by (auto simp: read_state_def)

lemma commit_under_guard_ok:
  "commit_under_guard P l g m now c s = (Inr x, t) \<longleftrightarrow> \<not> ak_poisoned (sh_kernel s)
     \<and> (\<exists>v. validate_chain P (ak_state (sh_kernel s)) l g m now = Inr v \<and> c v s = (Inr x, t))"
  by (auto simp: commit_under_guard_def commit_active_chain_def validate_active_chain_def read_state_def err_def
      split: sum.splits)

lemma token_validity_ok:
  assumes "token_validity leaf cert now = Inr v"
  shows "0 < v \<and> v \<le> TOKEN_VALIDITY \<and> now + v \<le> leaf \<and> now + v \<le> cert"
  using assms unfolding token_validity_def Let_def if_err_eq_Inr by (auto simp: TOKEN_VALIDITY_def seconds_def)

lemma check_live_authority_ok:
  "check_live_authority P x m v = Inr u \<longleftrightarrow> va_observed_generations v = ax_observed_generations x
     \<and> va_agent_identity_digest v = ac_agent_identity_digest (ax_certificate x)
     \<and> va_semantic_context_digest v = ac_semantic_context_digest (ax_certificate x)
     \<and> manifest_canonical_digest P m = Inr (va_capability_manifest_digest v)"
  by (auto simp: check_live_authority_def bindE_eq_Inr split: if_splits)

lemma validate_action_certificate_ok:
  "validate_action_certificate P c x custody now = Inr u \<longleftrightarrow> now < ac_expires_at c \<and> ac_tool_id c = ax_tool_id x
     \<and> ac_tool_manifest_digest c = ax_tool_manifest_digest x
     \<and> canonical_digest P ''aeon-concrete-input-v1'' (Inr (ax_arguments x)) = Inr (ac_concrete_input_digest c)
     \<and> length (ac_signature c) = 64
     \<and> (\<exists>p. action_signing_payload P c = Inr p \<and> ed25519_verify P (kc_verifying_key custody) p (ac_signature c))"
proof (cases "now \<ge> ac_expires_at c \<or> ac_tool_id c \<noteq> ax_tool_id x \<or> ac_tool_manifest_digest c \<noteq> ax_tool_manifest_digest x")
  case True
  then show ?thesis unfolding validate_action_certificate_def by auto
next
  case bound: False
  show ?thesis
  proof (cases "canonical_digest P ''aeon-concrete-input-v1'' (Inr (ax_arguments x))")
    case (Inl e)
    with bound show ?thesis unfolding validate_action_certificate_def by simp
  next
    case (Inr d)
    with bound show ?thesis
      unfolding validate_action_certificate_def
      by (cases "ac_concrete_input_digest c = d"; cases "length (ac_signature c) = 64"; cases "action_signing_payload P c")
        (simp_all add: not_le)
  qed
qed

text \<open>Tokens for a list of capabilities, one each and in their order, all issued for the same time.\<close>

inductive tokens_issued ::
  "('cap, 'hv, 'tok, 'out) nexus \<Rightarrow> int \<Rightarrow> 'cap list \<Rightarrow> 'hv \<Rightarrow> 'tok list \<Rightarrow> 'hv \<Rightarrow> bool" for N d where
  no_token: "tokens_issued N d [] hv [] hv"
| next_token: "nx_issue_token N hv c ''aeon-r2'' d = Some (tok, hv') \<Longrightarrow> tokens_issued N d cs hv' toks hv'' \<Longrightarrow>
    tokens_issued N d (c # cs) hv (tok # toks) hv''"

lemma issue_loop_tokens:
  "issue_loop N d cs hv acc m = (Inr (hv', toks), m') \<Longrightarrow> \<exists>new. toks = acc @ new \<and> tokens_issued N d cs hv new hv'"
proof (induction N d cs hv acc m rule: issue_loop.induct)
  case (1 N d hv acc m)
  then show ?case by (auto intro: no_token)
next
  case (2 N d c cs hv acc m)
  then obtain tok h where t: "nx_issue_token N hv c ''aeon-r2'' d = Some (tok, h)"
    and "issue_loop N d cs h (acc @ [tok]) (token_issued m) = (Inr (hv', toks), m')"
    by (auto simp: err_def split: option.splits)
  with 2(1) obtain new where "toks = (acc @ [tok]) @ new" "tokens_issued N d cs h new hv'" by blast
  with t show ?case by (intro exI [of _ "tok # new"]) (auto intro: next_token)
qed

lemma consume_and_issue_ok:
  assumes "consume_and_issue N x v s = (Inr (hv, toks), t)"
  shows "(\<exists>r. lookup_record (sh_store s) (ac_authorization_record_id (ax_certificate x)) = Some r
      \<and> available (ac_authorization_generation (ax_certificate x)) r)
    \<and> sh_store t = spend (ac_authorization_record_id (ax_certificate x)) (sh_store s)
    \<and> (\<exists>hv0. nx_new N = Some hv0 \<and> tokens_issued N v (ax_required_capabilities x) hv0 toks hv)"
proof (cases "may_spend (ac_authorization_record_id (ax_certificate x))
    (ac_authorization_generation (ax_certificate x)) (sh_store s)")
  case (Inl e)
  with assms show ?thesis by (simp add: consume_and_issue_def consume_with_cases)
next
  case (Inr rs)
  then have r: "\<exists>r. lookup_record (sh_store s) (ac_authorization_record_id (ax_certificate x)) = Some r
      \<and> available (ac_authorization_generation (ax_certificate x)) r" by (simp add: may_spend_ok)
  from assms Inr obtain m where i: "issue_tokens N (ax_required_capabilities x) v (sh_metrics s) = (Inr (hv, toks), m)"
    and t: "sh_store t = spend (ac_authorization_record_id (ax_certificate x)) (sh_store s)"
    by (auto simp: consume_and_issue_def consume_with_cases split: prod.splits sum.splits)
  from i obtain hv0 where "nx_new N = Some hv0"
    "issue_loop N v (ax_required_capabilities x) hv0 [] (sh_metrics s) = (Inr (hv, toks), m)"
    by (auto simp: issue_tokens_def err_def split: option.splits)
  with issue_loop_tokens [OF this(2)] r t show ?thesis by simp
qed

text \<open>What holds in the state of the commit point, with every check of the certificate spelled out.\<close>

definition commit_conditions ::
  "'cap platform \<Rightarrow> key_custody \<Rightarrow> 'cap authorized_execution \<Rightarrow> timestamp \<Rightarrow> ('cap, 'z) shared_scheme
   \<Rightarrow> validated_authority \<Rightarrow> 'cap capability_manifest \<Rightarrow> bool" where
  "commit_conditions P custody x now u v live \<longleftrightarrow>
     validate_chain P (ak_state (sh_kernel u)) (ac_authority_lease_id (ax_certificate x))
       (map_option snd (find (\<lambda>(l, _). l = ac_authority_lease_id (ax_certificate x)) (ax_observed_generations x)))
       live now = Inr v
     \<and> va_observed_generations v = ax_observed_generations x
     \<and> va_agent_identity_digest v = ac_agent_identity_digest (ax_certificate x)
     \<and> va_semantic_context_digest v = ac_semantic_context_digest (ax_certificate x)
     \<and> context_canonical_digest P (mx_value (sh_context u)) = Inr (va_semantic_context_digest v)
     \<and> now < ac_expires_at (ax_certificate x) \<and> ac_tool_id (ax_certificate x) = ax_tool_id x
     \<and> ac_tool_manifest_digest (ax_certificate x) = ax_tool_manifest_digest x
     \<and> canonical_digest P ''aeon-concrete-input-v1'' (Inr (ax_arguments x)) = Inr (ac_concrete_input_digest (ax_certificate x))
     \<and> (\<exists>p. action_signing_payload P (ax_certificate x) = Inr p
          \<and> ed25519_verify P (kc_verifying_key custody) p (ac_signature (ax_certificate x)))
     \<and> (\<exists>r. lookup_record (sh_store u) (ac_authorization_record_id (ax_certificate x)) = Some r
          \<and> available (ac_authorization_generation (ax_certificate x)) r)"

lemma commit_execution_ok:
  assumes "commit_execution P N w custody x live now v u = (Inr (hv, toks), t)"
    and "validate_chain P (ak_state (sh_kernel u)) (ac_authority_lease_id (ax_certificate x)) g live now = Inr v"
    and "g = map_option snd (find (\<lambda>(l, _). l = ac_authority_lease_id (ax_certificate x)) (ax_observed_generations x))"
  shows "commit_conditions P custody x now u v live
    \<and> sh_store t = spend (ac_authorization_record_id (ax_certificate x)) (sh_store u)
    \<and> (\<exists>d hv0. token_validity (va_leaf_expires_at v) (ac_expires_at (ax_certificate x)) (clock w 21) = Inr d
         \<and> nx_new N = Some hv0 \<and> tokens_issued N d (ax_required_capabilities x) hv0 toks hv)"
proof -
  from assms(1) obtain d where c: "check_live_authority P x live v = Inr ()"
    "context_canonical_digest P (mx_value (sh_context u)) = Inr (va_semantic_context_digest v)"
    "validate_action_certificate P (ax_certificate x) x custody now = Inr ()"
    "token_validity (va_leaf_expires_at v) (ac_expires_at (ax_certificate x)) (clock w 21) = Inr d"
    and y: "consume_and_issue N x d u = (Inr (hv, toks), t)"
    unfolding commit_execution_def exec_eqs by (auto simp: bindE_eq_Inr lock_eq_Inr split: if_splits)
  then show ?thesis using consume_and_issue_ok [OF y] assms(2,3)
    unfolding commit_conditions_def by (auto simp: check_live_authority_ok validate_action_certificate_ok)
qed

lemma commit_phase_ok:
  assumes "commit_phase P N w custody x s = (Inr (tool, hv, toks), t)"
  shows "\<exists>live v. resolve_with_capability_manifest P (sh_registry s) (ax_tool_id x) (ax_capability_manifest x) = Inr (tool, live)
    \<and> manifest_digest P tool = Inr (ax_tool_manifest_digest x)
    \<and> commit_conditions P custody x (clock w 20) (at_yield w 20 s) v live
    \<and> sh_store t = spend (ac_authorization_record_id (ax_certificate x)) (sh_store (at_yield w 20 s))
    \<and> (\<exists>d hv0. token_validity (va_leaf_expires_at v) (ac_expires_at (ax_certificate x)) (clock w 21) = Inr d
         \<and> nx_new N = Some hv0 \<and> tokens_issued N d (ax_required_capabilities x) hv0 toks hv)"
proof -
  from assms obtain live g where r: "resolve_with_capability_manifest P (sh_registry s) (ax_tool_id x)
      (ax_capability_manifest x) = Inr (tool, live)" "manifest_digest P tool = Inr (ax_tool_manifest_digest x)"
    and g: "map_option snd (find (\<lambda>(l, _). l = ac_authority_lease_id (ax_certificate x)) (ax_observed_generations x)) = Some g"
    and c: "commit_under_guard P (ac_authority_lease_id (ax_certificate x)) (Some g) live (clock w 20)
      (commit_execution P N w custody x live (clock w 20)) (at_yield w 20 s) = (Inr (hv, toks), t)"
    unfolding commit_phase_def exec_eqs by (auto simp: ok_or_eq_Inr exec_eqs split: if_splits)
  from c obtain v where "validate_chain P (ak_state (sh_kernel (at_yield w 20 s)))
      (ac_authority_lease_id (ax_certificate x)) (Some g) live (clock w 20) = Inr v"
    "commit_execution P N w custody x live (clock w 20) v (at_yield w 20 s) = (Inr (hv, toks), t)"
    unfolding commit_under_guard_ok by blast
  from commit_execution_ok [OF this(2,1) g [symmetric]] r show ?thesis by blast
qed

section \<open>Executions\<close>

lemma execute_inner_ok:
  assumes "execute_inner P N w custody x a s = (Inr out, t)"
  shows "\<exists>tool live v hv0 hv toks d c.
    resolve_with_capability_manifest P (sh_registry s) (ax_tool_id x) (ax_capability_manifest x) = Inr (tool, live)
    \<and> manifest_digest P tool = Inr (ax_tool_manifest_digest x)
    \<and> commit_conditions P custody x (clock w 20) (at_commit w s) v live
    \<and> token_validity (va_leaf_expires_at v) (ac_expires_at (ax_certificate x)) (clock w 21) = Inr d
    \<and> nx_new N = Some hv0 \<and> tokens_issued N d (ax_required_capabilities x) hv0 toks hv
    \<and> commit_phase P N w custody x (s\<lparr>sh_metrics := execution_port_call (sh_metrics s)\<rparr>) = (Inr (tool, hv, toks), c)
    \<and> sh_store c = spend (ac_authorization_record_id (ax_certificate x)) (sh_store (at_commit w s))
    \<and> nx_execute N hv (tool_definition_of tool) (ax_arguments x) toks = Some out"
proof -
  from assms obtain tool hv toks c where
    c: "commit_phase P N w custody x (s\<lparr>sh_metrics := execution_port_call (sh_metrics s)\<rparr>) = (Inr (tool, hv, toks), c)"
    and o: "(case nx_execute N hv (tool_definition_of tool) (ax_arguments x) toks of
        None \<Rightarrow> Inl (started (RuntimeError ExecutionFailed ''Nexus execution failed'')) | Some output \<Rightarrow> Inr output) = Inr out"
    unfolding execute_inner_def exec_eqs by (auto simp: exec_eqs)
  from o have "nx_execute N hv (tool_definition_of tool) (ax_arguments x) toks = Some out"
    by (cases "nx_execute N hv (tool_definition_of tool) (ax_arguments x) toks") auto
  moreover from commit_phase_ok [OF c, folded at_commit_def] obtain live v d hv0 where
    "resolve_with_capability_manifest P (sh_registry s) (ax_tool_id x) (ax_capability_manifest x) = Inr (tool, live)"
    "manifest_digest P tool = Inr (ax_tool_manifest_digest x)"
    "commit_conditions P custody x (clock w 20) (at_commit w s) v live"
    "sh_store c = spend (ac_authorization_record_id (ax_certificate x)) (sh_store (at_commit w s))"
    "token_validity (va_leaf_expires_at v) (ac_expires_at (ax_certificate x)) (clock w 21) = Inr d"
    "nx_new N = Some hv0" "tokens_issued N d (ax_required_capabilities x) hv0 toks hv"
    by auto
  ultimately show ?thesis using c by blast
qed

text \<open>An execution that fails before the commit point has changed nothing but the metrics.\<close>

lemma execute_inner_refused:
  assumes "\<And>g m. \<exists>e. validate_chain P (ak_state (sh_kernel (at_commit w s))) (ac_authority_lease_id (ax_certificate x))
    g m (clock w 20) = Inl e"
  shows "\<exists>e t. execute_inner P N w custody x a s = (Inl (before_nexus e), t)
    \<and> (t = s\<lparr>sh_metrics := execution_port_call (sh_metrics s)\<rparr> \<or> t = at_commit w s)"
proof -
  let ?s = "s\<lparr>sh_metrics := execution_port_call (sh_metrics s)\<rparr>"
  have guard: "runs_to (commit_under_guard P (ac_authority_lease_id (ax_certificate x)) g m (clock w 20) c) (at_commit w s)
      (\<lambda>_ _. False) (\<lambda>_ t. t = at_commit w s)" for g m c
    using assms [of g m]
    by (auto simp: runs_to_def commit_under_guard_def commit_active_chain_def validate_active_chain_def
        read_state_ok split: sum.splits)
  have "runs_to (commit_phase P N w custody x) ?s (\<lambda>_ _. False) (\<lambda>_ t. t = ?s \<or> t = at_commit w s)"
    unfolding commit_phase_def
    by (intro run_bindS run_reads run_liftS run_yield run_case_prod)
      (auto simp: at_commit_def [symmetric] intro: runs_to_mono [OF guard])
  then obtain e t where "commit_phase P N w custody x ?s = (Inl e, t)" "t = ?s \<or> t = at_commit w s"
    by (auto simp: runs_to_def split: prod.splits sum.splits)
  then show ?thesis by (auto simp: execute_inner_def bindS_def on_metrics_def map_errS_def)
qed

section \<open>The action gate\<close>

lemma check_binding_ok:
  "check_binding mission agent c = Inr u \<longleftrightarrow> lc_agent_id c = agent \<and> lc_mission_id c = me_mission_id mission
     \<and> lc_organization_version c = me_organization_version mission \<and> lc_policy_epoch c = me_policy_epoch mission"
  by (auto simp: check_binding_def)

lemma check_capabilities_ok:
  "check_capabilities P mission granted required = Inr u \<longleftrightarrow> cap_all P \<notin> set required
     \<and> (\<exists>auth. new_authority_set P (me_allowed_capabilities mission) = Inr auth
        \<and> (\<forall>c \<in> set required. covers P auth c \<and> covers P granted c))"
  by (auto simp: check_capabilities_def if_err_eq_Inr bindE_eq_Inr list_ex_iff)

lemma check_bound_digest_ok:
  "check_bound_digest m tool d = Inr u \<Longrightarrow> BoundTool tool d \<in> set (cm_approved_tools m)"
  by (auto simp: check_bound_digest_def bindE_eq_Inr ok_or_eq_Inr find_Some_iff in_set_conv_nth
      split: if_splits)

definition issued_for ::
  "'cap mission_envelope \<Rightarrow> lease_id \<Rightarrow> tool_id \<Rightarrow> json \<Rightarrow> timestamp \<Rightarrow> timestamp
   \<Rightarrow> 'cap authorized_execution \<Rightarrow> authorization_artifact \<Rightarrow> bool" where
  "issued_for mission l tool args now lease_expiry x art \<longleftrightarrow>
     ax_tool_id x = tool \<and> ax_arguments x = args \<and> ax_certificate x = aa_certificate art
     \<and> ac_mission_id (aa_certificate art) = me_mission_id mission \<and> ac_tool_id (aa_certificate art) = tool
     \<and> ac_authority_lease_id (aa_certificate art) = l \<and> ac_issued_at (aa_certificate art) = now
     \<and> ac_expires_at (aa_certificate art) = min (now + seconds 300) lease_expiry
     \<and> ac_authorization_record_id (aa_certificate art) = az_record_id (aa_record art)
     \<and> ac_action_ref (aa_certificate art) = az_action_ref (aa_record art)
     \<and> ac_authorization_generation (aa_certificate art) = az_generation (aa_record art)
     \<and> available 0 (aa_record art) \<and> bu_actions (az_remaining_budget (aa_record art)) = 1"

lemma issue_authorization_ok:
  assumes "issue_authorization P mission sn l v d tool md m i args custody u1 u2 now = Inr (x, art)"
  shows "issued_for mission l i args now (lc_expires_at (sn_certificate sn)) x art
    \<and> canonical_digest P ''aeon-concrete-input-v1'' (Inr args) = Inr (ac_concrete_input_digest (aa_certificate art))
    \<and> ac_tool_manifest_digest (aa_certificate art) = md
    \<and> ax_tool_manifest_digest x = md \<and> ax_required_capabilities x = tm_required_capabilities (rt_manifest tool)
    \<and> ax_observed_generations x = va_observed_generations v"
  using assms unfolding issue_authorization_def Let_def bindE_eq_Inr
  by (auto simp: issued_for_def available_def)

lemma get_lease_snapshot_ok:
  "get_lease_snapshot k l = Inr sn \<longleftrightarrow> \<not> ak_poisoned k
     \<and> (\<exists>e. map_of (as_leases (ak_state k)) l = Some e \<and> sn = snapshot e)"
  by (auto simp: get_lease_snapshot_def bindE_eq_Inr read_state_ok ok_or_eq_Inr)

lemma authorize_ok:
  assumes "authorize P w mission agent l c tool args custody now s = (Inr (x, art), t)"
  shows "\<exists>e rt live v u.
      me_active mission \<and> now < me_expires_at mission \<and> tool \<in> set (me_allowed_tools mission)
    \<and> map_of (as_leases (ak_state (sh_kernel s))) l = Some e
    \<and> resolve_with_capability_manifest P (sh_registry (at_yield w 10 s)) tool (en_manifest e) = Inr (rt, live)
    \<and> BoundTool tool (ax_tool_manifest_digest x) \<in> set (cm_approved_tools (en_manifest e))
    \<and> manifest_digest P rt = Inr (ax_tool_manifest_digest x)
    \<and> u = at_yield w 11 (at_yield w 10 s)
    \<and> validate_chain P (ak_state (sh_kernel u)) l (Some (le_generation (en_record e))) live now = Inr v
    \<and> lc_agent_id (en_certificate e) = agent \<and> lc_mission_id (en_certificate e) = me_mission_id mission
    \<and> context_canonical_digest P c = Inr (va_semantic_context_digest v)
    \<and> validate_input rt args = Inr ()
    \<and> ax_required_capabilities x = tm_required_capabilities (rt_manifest rt)
    \<and> check_capabilities P mission (lc_granted_authority (en_certificate e)) (ax_required_capabilities x) = Inr ()
    \<and> ax_observed_generations x = va_observed_generations v
    \<and> canonical_digest P ''aeon-concrete-input-v1'' (Inr args) = Inr (ac_concrete_input_digest (aa_certificate art))
    \<and> issued_for mission l tool args now (lc_expires_at (en_certificate e)) x art \<and> t = u"
proof -
  from assms obtain sn rt live md v d where
    m: "me_active mission" "now < me_expires_at mission" "tool \<in> set (me_allowed_tools mission)"
    and sn: "get_lease_snapshot (sh_kernel s) l = Inr sn"
    and r: "resolve_with_capability_manifest P (sh_registry (at_yield w 10 s)) tool (sn_manifest sn) = Inr (rt, live)"
      "manifest_digest P rt = Inr md" "check_bound_digest (sn_manifest sn) tool md = Inr ()"
    and v: "bindE (read_state (sh_kernel (at_yield w 11 (at_yield w 10 s)))) (\<lambda>k.
        validate_active_chain P k l (Some (le_generation (sn_record sn))) live now) = Inr v"
    and b: "check_binding mission agent (sn_certificate sn) = Inr ()" "context_canonical_digest P c = Inr d"
      "d = va_semantic_context_digest v" "validate_input rt args = Inr ()"
      "check_capabilities P mission (lc_granted_authority (sn_certificate sn)) (tm_required_capabilities (rt_manifest rt)) = Inr ()"
    and i: "issue_authorization P mission sn l v d rt md live tool args custody (uuid w 1) (uuid w 2) now = Inr (x, art)"
    and t: "t = at_yield w 11 (at_yield w 10 s)"
    unfolding authorize_def exec_eqs by (auto simp: exec_eqs not_le split: if_splits)
  obtain e where e: "map_of (as_leases (ak_state (sh_kernel s))) l = Some e" "sn = snapshot e"
    using sn unfolding get_lease_snapshot_ok by blast
  have f: "sn_certificate sn = en_certificate e" "sn_record sn = en_record e" "sn_manifest sn = en_manifest e"
    by (simp_all add: e(2) snapshot_def)
  note x = issue_authorization_ok [OF i]
  have "validate_chain P (ak_state (sh_kernel t)) l (Some (le_generation (en_record e))) live now = Inr v"
    using v unfolding t [symmetric] f bindE_eq_Inr read_state_ok validate_active_chain_def by blast
  moreover have "BoundTool tool md \<in> set (cm_approved_tools (en_manifest e))"
    using check_bound_digest_ok r(3) f by metis
  ultimately show ?thesis using m e(1) r b x t
    by (intro exI [of _ e] exI [of _ rt] exI [of _ live] exI [of _ v] exI [of _ t]) (simp add: f check_binding_ok)
qed

section \<open>Final results\<close>

lemma check_unchanged_ok:
  "check_unchanged ob v = Inr u \<longleftrightarrow> va_observed_generations v = va_observed_generations (ob_validated ob)
     \<and> va_chain v = va_chain (ob_validated ob) \<and> va_agent_identity_digest v = va_agent_identity_digest (ob_validated ob)
     \<and> va_capability_manifest_digest v = va_capability_manifest_digest (ob_validated ob)
     \<and> va_semantic_context_digest v = va_semantic_context_digest (ob_validated ob)"
  by (auto simp: check_unchanged_def)

lemma on_store_append_ok:
  "on_store (append_for_attempt a k now) s = (Inr u, t) \<longleftrightarrow> \<not> mx_poisoned (ms_events (sh_store s))
     \<and> t = s\<lparr>sh_store := (sh_store s)\<lparr>ms_events := (ms_events (sh_store s))\<lparr>mx_value :=
         push_mission_event (me_mission_id (ms_mission (sh_store s))) (Some a) k now (events (sh_store s))\<rparr>\<rparr>\<rparr>"
  by (cases "mx_poisoned (ms_events (sh_store s))")
    (auto simp: on_store_def append_for_attempt_def append_event_def atomicS_def lock_def err_def)

lemma accept_model_final_ok:
  "accept_model_final P w ob a now s = (Inr (), t) \<longleftrightarrow>
     is_usable_at (rt_mission s) now \<and> \<not> ak_poisoned (sh_kernel s)
     \<and> (\<exists>v. validate_chain P (ak_state (sh_kernel s)) (lc_lease_id (sn_certificate (ob_lease ob)))
            (Some (le_generation (sn_record (ob_lease ob)))) (sn_manifest (ob_lease ob)) now = Inr v
        \<and> check_unchanged ob v = Inr ())
     \<and> \<not> mx_poisoned (sh_context s)
     \<and> context_canonical_digest P (mx_value (sh_context s)) = Inr (va_semantic_context_digest (ob_validated ob))
     \<and> on_store (append_for_attempt a FinalProduced (clock w 32)) s = (Inr (), t)"
  unfolding accept_model_final_def exec_eqs commit_under_guard_ok
  by (auto simp: exec_eqs lock_eq_Inr validate_context_continuation_ok)

section \<open>The root lease of a bootstrap\<close>

lemma root_validates:
  assumes "bootstrap P req custody uu now0 = Inr k" and "json_total P" and "now < rr_expires_at req"
  obtains l e v where "as_root_lease_id k = l" "map_of (as_leases k) l = Some e" "en_record e = active_lease_record l"
    "en_manifest e = rr_capability_manifest req" "lc_lease_id (en_certificate e) = l"
    "check_binding (rr_mission req) (rr_agent_id req) (en_certificate e) = Inr ()"
    "validate_chain P k l (Some 0) (rr_capability_manifest req) now = Inr v"
    "va_semantic_context_digest v = rr_semantic_context_digest req"
proof -
  have inv: "kernel_inv P k" using assms(1) by (rule bootstrap_inv)
  from assms(1) obtain ident d l md cert where
    md: "manifest_canonical_digest P (rr_capability_manifest req) = Inr md"
    and cert: "signed_lease P (root_draft req l d md now0) d custody = Inr cert"
    and k: "k = push_event l None LeaseIssued now0 (push_event l None IdentityRegistered now0
        \<lparr>as_mission = rr_mission req, as_root_lease_id = l,
         as_identities = [(rr_agent_id req, ident)], as_custodians = [(rr_agent_id req, custody)],
         as_leases = [(l, \<lparr>en_certificate = cert, en_record = active_lease_record l,
           en_manifest = rr_capability_manifest req\<rparr>)], as_events = []\<rparr>)"
    by (rule bootstrap_effect)
  let ?e = "\<lparr>en_certificate = cert, en_record = active_lease_record l, en_manifest = rr_capability_manifest req\<rparr>"
  note f = signed_lease_fields [OF cert, simplified root_draft_def, simplified]
  have look: "map_of (as_leases k) l = Some ?e" and only: "as_leases k = [(l, ?e)]" by (simp_all add: k)
  have live: "entry_live ?e now" using assms(3) f by (simp add: entry_live_def active_lease_record_def)
  have "\<exists>v. validate_chain P k l (Some 0) (rr_capability_manifest req) now = Inr v"
    unfolding validate_chain_exact [OF inv assms(2) look] using live f md by (simp add: only active_lease_record_def)
  then obtain v where v: "validate_chain P k l (Some 0) (rr_capability_manifest req) now = Inr v" ..
  obtain es where es: "lease_path (map_of (as_leases k)) l es" "chain_observation P l es v"
    using validate_chain_sound [OF v] by (auto simp: authority_chain_def)
  have "hd es = (l, ?e)" using lease_path_hd [OF es(1)] look by auto
  then have "va_semantic_context_digest v = rr_semantic_context_digest req"
    using es(2) f by (simp add: chain_observation_def)
  with v look f that [of l ?e v] show ?thesis by (simp add: k check_binding_ok)
qed

end
