(* ===== verification/ExecutionProperties.thy ===== *)
theory ExecutionProperties
  imports ExecutionSafety DemoRuntime KernelHistory
begin

text \<open>
  The properties of the execution port, the action gate and the acceptance of final results, under
  any interference of other calls between their lock acquisitions; of commits after the authority has
  changed since it was observed; and of a runtime whose kernel lock is poisoned.
\<close>

section \<open>Nexus is entered through the commit point only\<close>

text \<open>C26: An execution that returns an output went through the commit point. In the one state in which
  the execution held the read guard of the kernel, the chain of the lease the action was authorized
  under validated with the generations observed at authorization, against the manifest refreshed
  from the live registry; the semantic context had the authorized digest; the action certificate was
  unexpired, bound this tool, manifest and input and carried a valid signature; and the authorization
  record was available and was spent there. The tokens handed to Nexus were issued by a fresh hypervisor,
  one for each required capability in turn, all for the same positive time of at most thirty seconds that
  ends with neither the lease nor the certificate outlived.\<close>

theorem execution_commits:
  assumes "execute_inner P N w custody x a s = (Inr out, t)"
  shows "\<exists>tool live v hv0 hv toks d c.
    resolve_with_capability_manifest P (sh_registry s) (ax_tool_id x) (ax_capability_manifest x) = Inr (tool, live)
    \<and> manifest_digest P tool = Inr (ax_tool_manifest_digest x)
    \<and> commit_conditions P custody x (clock w 20) (at_commit w s) v live
    \<and> nx_new N = Some hv0 \<and> tokens_issued N d (ax_required_capabilities x) hv0 toks hv
    \<and> 0 < d \<and> d \<le> seconds 30 \<and> clock w 21 + d \<le> va_leaf_expires_at v
    \<and> clock w 21 + d \<le> ac_expires_at (ax_certificate x)
    \<and> commit_phase P N w custody x (s\<lparr>sh_metrics := execution_port_call (sh_metrics s)\<rparr>) = (Inr (tool, hv, toks), c)
    \<and> sh_store c = spend (ac_authorization_record_id (ax_certificate x)) (sh_store (at_commit w s))
    \<and> nx_execute N hv (tool_definition_of tool) (ax_arguments x) toks = Some out"
proof -
  from execute_inner_ok [OF assms] obtain tool live v hv0 hv toks d c where
    "resolve_with_capability_manifest P (sh_registry s) (ax_tool_id x) (ax_capability_manifest x) = Inr (tool, live)"
    "manifest_digest P tool = Inr (ax_tool_manifest_digest x)"
    "commit_conditions P custody x (clock w 20) (at_commit w s) v live"
    and d: "token_validity (va_leaf_expires_at v) (ac_expires_at (ax_certificate x)) (clock w 21) = Inr d"
    and "nx_new N = Some hv0" "tokens_issued N d (ax_required_capabilities x) hv0 toks hv"
    "commit_phase P N w custody x (s\<lparr>sh_metrics := execution_port_call (sh_metrics s)\<rparr>) = (Inr (tool, hv, toks), c)"
    "sh_store c = spend (ac_authorization_record_id (ax_certificate x)) (sh_store (at_commit w s))"
    "nx_execute N hv (tool_definition_of tool) (ax_arguments x) toks = Some out" by blast
  with token_validity_ok [OF d, unfolded TOKEN_VALIDITY_def] show ?thesis by blast
qed

lemma demo_issued_runs:
  assumes "demo_frame s" and "may_spend ''auth-x1'' 0 (sh_store s) = Inr rs"
  shows "\<exists>t. execute_inner demo_platform demo_nexus demo_world (demo_custody ''key-u0'' 1) (fst demo_authorized) a s
    = (Inr ''echo'', t)"
proof -
  have "demo_frame (s\<lparr>sh_metrics := execution_port_call (sh_metrics s)\<rparr>)" using assms(1) by (simp add: demo_frame_def)
  from demo_commit [OF this] assms(2) obtain t
    where t: "commit_phase demo_platform demo_nexus demo_world (demo_custody ''key-u0'' 1) (fst demo_authorized)
      (s\<lparr>sh_metrics := execution_port_call (sh_metrics s)\<rparr>) = (Inr (demo_tool, 1, [(''fs'', 7)]), t)"
      and "demo_frame t" by auto
  then have h: "\<not> mx_poisoned (ms_events (sh_store t))" by (simp add: demo_frame_def)
  show ?thesis
    by (simp add: bindS_def execute_inner_def on_metrics_def map_errS_def t yield_def on_store_def append_eq h map_err_def
        liftS_def tool_definition_of_def)
qed

definition demo_issued :: "string runtime" where
  "demo_issued = demo_runtime\<lparr>sh_store := (sh_store demo_runtime)\<lparr>
     ms_authorization_records := new_mutex [aa_record (snd demo_authorized)],
     ms_authorization_attempts := new_mutex [(''auth-x1'', 1)]\<rparr>\<rparr>"

lemma demo_issued_ready: "demo_frame demo_issued" "may_spend ''auth-x1'' 0 (sh_store demo_issued) = Inr (records (sh_store demo_issued))"
  using activated_events(5) [of demo_mission "\<lambda>_. 1"]
  by (simp_all add: demo_frame_def demo_issued_def demo_runtime_def may_spend_ok new_mutex_def)

theorem execution_commits_witness:
  "\<exists>v live. commit_conditions demo_platform (demo_custody ''key-u0'' 1) (fst demo_authorized) 2
     (at_commit demo_world demo_issued) v live"
proof -
  obtain t where "execute_inner demo_platform demo_nexus demo_world (demo_custody ''key-u0'' 1) (fst demo_authorized) 1
      demo_issued = (Inr ''echo'', t)" using demo_issued_runs [OF demo_issued_ready] by blast
  from execution_commits [OF this] show ?thesis by auto
qed

text \<open>C27: A lease that is no longer live stops every execution under it. If, in the state in which an
  execution takes the read guard of the kernel, the lease the action was authorized under or any of
  its ancestors has been revoked, paused, renewed away or has expired, then the execution returns an
  error positioned before Nexus and has changed nothing but its own call counter: the authorization
  record is not spent and no token is issued.\<close>

theorem dead_lease_stops_execution:
  assumes "reachable P (ak_state (sh_kernel (at_commit w s)))" and "cap_trans P" and "json_total P"
    and "map_of (as_leases (ak_state (sh_kernel (at_commit w s)))) k = Some d"
    and "ac_authority_lease_id (ax_certificate x) \<in> descendants (map_of (as_leases (ak_state (sh_kernel (at_commit w s))))) k"
    and "\<not> entry_live d (clock w 20)"
  shows "\<exists>e t. execute_inner P N w custody x a s = (Inl (before_nexus e), t)
    \<and> (t = s\<lparr>sh_metrics := execution_port_call (sh_metrics s)\<rparr> \<or> t = at_commit w s)"
proof (rule execute_inner_refused)
  fix g m
  let ?k = "ak_state (sh_kernel (at_commit w s))" and ?l = "ac_authority_lease_id (ax_certificate x)"
  have "validate_chain P ?k ?l g m (clock w 20) \<noteq> Inr v" for v
  proof
    assume v: "validate_chain P ?k ?l g m (clock w 20) = Inr v"
    then obtain e where "map_of (as_leases ?k) ?l = Some e"
      using validate_chain_sound [OF v] lease_path_hd by (fastforce simp: authority_chain_def)
    from validate_chain_exact [OF reachable_inv [OF assms(1,2)] assms(3) this, of g m "clock w 20"] v assms(4-6)
    show False by blast
  qed
  then show "\<exists>e. validate_chain P ?k ?l g m (clock w 20) = Inl e"
    by (cases "validate_chain P ?k ?l g m (clock w 20)") auto
qed

definition stop_world :: "string runtime schedule" where
  "stop_world = \<lparr>at_yield = \<lambda>n u. if n = 20 then snd (on_kernel (revoke ''lease-u1'' 0 ''stop'' 2) u) else u,
     clock = \<lambda>_. 2, uuid = demo_ids\<rparr>"

lemma stop_kernel:
  "ak_state (sh_kernel (at_commit stop_world demo_issued)) = snd (revoke ''lease-u1'' 0 ''stop'' 2 demo_kernel)"
  by (simp add: at_commit_def stop_world_def on_kernel_def write_state_def demo_issued_def demo_runtime_def split: prod.splits)

theorem dead_lease_stops_execution_witness:
  "\<exists>e t. execute_inner demo_platform demo_nexus stop_world (demo_custody ''key-u0'' 1) (fst demo_authorized) 1 demo_issued
     = (Inl (before_nexus e), t)"
proof -
  let ?k = "snd (revoke ''lease-u1'' 0 ''stop'' 2 demo_kernel)"
  have inv: "kernel_inv demo_platform demo_kernel" using demo_kernel_boot by (rule bootstrap_inv)
  have boot: "reachable demo_platform demo_kernel" unfolding reachable_def using demo_kernel_boot run_refl by blast
  have "kernel_run demo_platform demo_kernel ?k"
    using run_step [OF run_refl, of demo_kernel "OpRevoke ''lease-u1'' 0 ''stop'' 2" demo_platform] by simp
  then have r: "reachable demo_platform ?k" using boot reachable_run by blast
  have "map_of (as_leases demo_kernel) ''lease-u1'' = Some demo_root_entry" "le_generation (en_record demo_root_entry) = 0"
    "live_state (le_state (en_record demo_root_entry))" by (simp_all add: live_state_def)
  from revoke_result [OF kernel_inv_hm [OF inv] this, of "''stop''" 2] obtain ds t
    where t: "revoke ''lease-u1'' 0 ''stop'' 2 demo_kernel = (Inr ds, t)"
      and l: "\<And>k. map_of (as_leases t) k = (if k \<in> descendants (map_of (as_leases demo_kernel)) ''lease-u1''
        then map_option (revoke_entry ''stop'' 2) (map_of (as_leases demo_kernel) k)
        else map_of (as_leases demo_kernel) k)"
    by metis
  have "map_of (as_leases ?k) ''lease-u1'' = Some (revoke_entry ''stop'' 2 demo_root_entry)"
    using t l [of "''lease-u1''"] by (simp add: descendants_self)
  moreover have "\<not> entry_live (revoke_entry ''stop'' 2 demo_root_entry) 2"
    by (simp add: entry_live_def revoke_entry_def live_state_def revoked_record_def)
  ultimately show ?thesis
    using dead_lease_stops_execution [of demo_platform stop_world demo_issued "''lease-u1''"
        "revoke_entry ''stop'' 2 demo_root_entry" "fst demo_authorized" demo_nexus "demo_custody ''key-u0'' 1" 1]
      r demo_cap_trans demo_json_total stop_kernel
    by (auto simp: stop_world_def descendants_self)
qed

section \<open>What was observed is what is committed\<close>

text \<open>C13: A commit sees every change of authority since the observation. Take an observation that the
  chain of a lease validated, and let the kernel run on, for fewer than \<open>2 ^ 64\<close> events. If the lease and
  all leases above it still have the entries they had and have not expired, a commit validates to the same
  observation and its closure passes the check against it. If anything about one of them has changed, a
  pause that was resumed again included, or one has expired, the commit of a final result and the commit
  of an execution authorized under the observation are refused and change nothing.\<close>

theorem commit_sees_every_change:
  assumes "reachable P s" and "cap_trans P" and "json_total P"
    and "validate_chain P s k g m now = Inr (ob_validated ob)"
    and "kernel_run P s u" and "length (as_events u) < length (as_events s) + 2 ^ 64"
    and "ax_observed_generations x = va_observed_generations (ob_validated ob)"
  shows "(chain_unchanged s u k later \<longrightarrow>
      commit_active_chain P u k g m later (\<lambda>v. bindS (liftS (check_unchanged ob v)) (\<lambda>_. body)) c = body c)
    \<and> (\<not> chain_unchanged s u k later \<longrightarrow>
      (\<exists>e. commit_active_chain P u k g m later (\<lambda>v. bindS (liftS (check_unchanged ob v)) (\<lambda>_. body)) c = (Inl e, c))
      \<and> (\<exists>e. commit_active_chain P u k g m later (commit_execution P N w custody x live later) t = (Inl e, t)))"
proof (cases "chain_unchanged s u k later")
  case True
  have "validate_chain P u k g m later = Inr (ob_validated ob)"
    using reachable_inv [OF assms(1,2)] assms(2,3,5,4) True by (rule unchanged_validates)
  with True show ?thesis by (simp add: commit_active_chain_def check_unchanged_def bindS_def liftS_def)
next
  case False
  have differ: "va_observed_generations v \<noteq> va_observed_generations (ob_validated ob)"
    if "validate_chain P u k g m later = Inr v" for v
    using same_observation_unchanged [OF reachable_inv [OF assms(1,2)] assms(2,5,6,4) that] False by blast
  show ?thesis
  proof (cases "validate_chain P u k g m later")
    case (Inl e)
    with False show ?thesis by (simp add: commit_active_chain_def)
  next
    case (Inr v)
    with differ [OF Inr] False assms(7) show ?thesis
      by (simp add: commit_active_chain_def check_unchanged_def commit_execution_def check_live_authority_def bindS_def
          liftS_def err_def)
  qed
qed

lemma demo_unchanged: "chain_unchanged demo_state demo_state2 ''lease-u1'' 4"
  by (auto simp: chain_unchanged_def demo_leases demo_leases2)

lemma demo_few_events: "length (as_events demo_state2) < length (as_events demo_state) + 2 ^ 64"
  using demo_delegate
  by (rule delegate_effect) (drule arg_cong [where f = "\<lambda>s. length (as_events s)"], simp add: push_event_def)

theorem commit_sees_every_change_witness:
  "\<exists>v. commit_active_chain demo_platform demo_state2 ''lease-u1'' (Some 0) demo_manifest 4
     (\<lambda>v'. bindS (liftS (check_unchanged (demo_observation\<lparr>ob_validated := v\<rparr>) v')) (\<lambda>_ n. (Inr n, Suc n))) 0
     = (Inr 0, 1 :: nat)"
proof -
  obtain v where v: "validate_chain demo_platform demo_state ''lease-u1'' (Some 0) demo_manifest 2 = Inr v"
    using demo_validates [of 2] by auto
  let ?x = "(fst demo_authorized)\<lparr>ax_observed_generations := va_observed_generations v\<rparr>"
  from commit_sees_every_change [of demo_platform demo_state "''lease-u1''" "Some 0" demo_manifest 2
      "demo_observation\<lparr>ob_validated := v\<rparr>" demo_state2 ?x 4 "\<lambda>n. (Inr n, Suc n)" "0 :: nat"]
    demo_reachable demo_cap_trans demo_json_total v demo_run demo_few_events demo_unchanged
  show ?thesis by auto
qed

section \<open>A poisoned lock\<close>

definition refuses :: "error_code set \<Rightarrow> ('s, runtime_error, 'a) exec \<Rightarrow> 's \<Rightarrow> bool" where
  "refuses codes m s \<longleftrightarrow> (\<exists>e. m s = (Inl e, s) \<and> code e \<in> codes)"

lemmas poisoned_defs = refuses_def bindS_def reads_def liftS_def on_kernel_def write_state_def err_def read_state_def
  root_lease_id_def get_lease_snapshot_def

lemma poisoned_snapshot:
  "ak_poisoned (sh_kernel u) \<Longrightarrow> \<exists>e. active_lease_snapshot w n u = (Inl e, u) \<and> code e = Internal"
  by (simp add: active_lease_snapshot_def poisoned_defs)

lemma poisoned_controls:
  assumes "ak_poisoned (sh_kernel s)"
  shows "refuses {Internal} (runtime_pause w) s" "refuses {Internal} (runtime_resume w) s"
    "refuses {Internal} (runtime_revoke w reason) s" "refuses {Internal} (runtime_renew P w expiry) s"
  using poisoned_snapshot [OF assms, of w 1]
  by (auto simp: runtime_pause_def runtime_resume_def runtime_revoke_def runtime_renew_def refuses_def bindS_def)

lemma poisoned_observe:
  "ak_poisoned (sh_kernel u) \<Longrightarrow> refuses {Internal, MissionInactive} (observe_model_authority P w c n) u"
  using poisoned_snapshot [of u w 1] by (auto simp: observe_model_authority_def poisoned_defs)

lemma poisoned_commit_phase:
  assumes "ak_poisoned (sh_kernel (at_commit w s))"
  shows "runs_to (commit_phase P N w key x) (s\<lparr>sh_metrics := execution_port_call (sh_metrics s)\<rparr>) (\<lambda>_ _. False)
      (\<lambda>_ t. t = s\<lparr>sh_metrics := execution_port_call (sh_metrics s)\<rparr> \<or> t = at_commit w s)"
proof -
  have guard: "runs_to (commit_under_guard P l g m n c) (at_commit w s) (\<lambda>_ _. False) (\<lambda>_ t. t = at_commit w s)"
    for l g m n c using assms by (simp add: runs_to_def commit_under_guard_def read_state_def err_def)
  show ?thesis unfolding commit_phase_def
    by (intro run_bindS run_reads run_liftS run_yield run_case_prod)
      (auto simp: at_commit_def [symmetric] intro: runs_to_mono [OF guard])
qed

text \<open>C15: The runtime fails closed when the lock of its kernel is poisoned. Every accessor of the kernel
  reports an internal error. Pausing, resuming, revoking, renewing, refreshing and delegating, and every
  commit under the guard, report it and leave the whole runtime as it was: no closure of a commit is run.
  A step of the agent is refused before it reserves a step, begins an attempt or calls the model, an
  execution before it spends its authorization, enters Nexus or issues a token, and neither a final
  result nor an authorization is granted, whatever other calls do in between.\<close>

theorem poisoned_kernel_refuses:
  assumes "ak_poisoned (sh_kernel s)" and "\<And>n u. ak_poisoned (sh_kernel u) \<Longrightarrow> ak_poisoned (sh_kernel (at_yield w n u))"
  shows "fails_with Internal (root_lease_id (sh_kernel s)) \<and> fails_with Internal (get_identity_certificate (sh_kernel s) a)
    \<and> fails_with Internal (get_lease_snapshot (sh_kernel s) l) \<and> fails_with Internal (authority_events (sh_kernel s))
    \<and> refuses {Internal} (runtime_pause w) s \<and> refuses {Internal} (runtime_resume w) s
    \<and> refuses {Internal} (runtime_revoke w reason) s \<and> refuses {Internal} (runtime_renew P w expiry) s
    \<and> refuses {Internal} (runtime_refresh_expirations w) s \<and> refuses {Internal} (on_kernel (delegate P req key nonce now)) s
    \<and> refuses {Internal} (commit_under_guard P l g m now commit) s
    \<and> refuses {Internal, MissionInactive} (observe_model_authority P w ctx now) s
    \<and> refuses {Internal, MissionInactive} (accept_model_final P w ob attempt now) s
    \<and> refuses {Internal, MissionInactive, ToolOutsideMission} (authorize P w mission agent l ctx tool args key now) s
    \<and> (\<exists>e. (run_once P N M w s = (Inl e, s) \<or> run_once P N M w s = (Inl e, at_yield w 0 s))
         \<and> code e \<in> {Internal, MissionInactive})
    \<and> (\<exists>e t. execute_inner P N w key x attempt s = (Inl (before_nexus e), t)
         \<and> (t = s\<lparr>sh_metrics := execution_port_call (sh_metrics s)\<rparr> \<or> t = at_commit w s))"
proof -
  have y: "ak_poisoned (sh_kernel (at_yield w n s))" for n using assms by blast
  have "fails_with Internal (root_lease_id (sh_kernel s))" "fails_with Internal (get_identity_certificate (sh_kernel s) a)"
    "fails_with Internal (get_lease_snapshot (sh_kernel s) l)" "fails_with Internal (authority_events (sh_kernel s))"
    using assms(1) by (simp_all add: root_lease_id_def get_identity_certificate_def get_lease_snapshot_def
        authority_events_def read_state_def)
  moreover have "refuses {Internal} (runtime_refresh_expirations w) s"
    "refuses {Internal} (on_kernel (delegate P req key nonce now)) s"
    "refuses {Internal} (commit_under_guard P l g m now commit) s"
    "refuses {Internal, MissionInactive} (accept_model_final P w ob attempt now) s"
    "refuses {Internal, MissionInactive, ToolOutsideMission} (authorize P w mission agent l ctx tool args key now) s"
    using assms(1) by (auto simp: runtime_refresh_expirations_def commit_under_guard_def accept_model_final_def
        authorize_def poisoned_defs)
  moreover have "\<exists>e. (run_once P N M w s = (Inl e, s) \<or> run_once P N M w s = (Inl e, at_yield w 0 s))
      \<and> code e \<in> {Internal, MissionInactive}"
    using poisoned_observe [OF y [of 0], of P w "mx_value (sh_context s)" "clock w 0"]
    by (auto simp: run_once_def refuses_def bindS_def reads_def lock_def yield_def err_def)
  moreover have "\<exists>e t. execute_inner P N w key x attempt s = (Inl (before_nexus e), t)
      \<and> (t = s\<lparr>sh_metrics := execution_port_call (sh_metrics s)\<rparr> \<or> t = at_commit w s)"
    using poisoned_commit_phase [of w s P N key x] assms
    by (auto simp: at_commit_def runs_to_def execute_inner_def bindS_def on_metrics_def map_errS_def
        split: prod.splits sum.splits)
  ultimately show ?thesis using poisoned_controls [OF assms(1)] poisoned_observe [OF assms(1)] by blast
qed

definition demo_poisoned :: "string runtime" where
  "demo_poisoned = demo_runtime\<lparr>sh_kernel := \<lparr>ak_state = demo_kernel, ak_poisoned = True\<rparr>\<rparr>"

theorem poisoned_kernel_refuses_witness:
  "refuses {Internal} (runtime_pause demo_world) demo_poisoned
   \<and> (\<exists>e. run_once demo_platform demo_nexus (demo_model ''call'') demo_world demo_poisoned = (Inl e, demo_poisoned))"
proof -
  have p: "ak_poisoned (sh_kernel demo_poisoned)" by (simp add: demo_poisoned_def)
  have w: "ak_poisoned (sh_kernel (at_yield demo_world n u))" if "ak_poisoned (sh_kernel u)" for n u using that by simp
  note all = poisoned_kernel_refuses [OF p w, where P = demo_platform and N = demo_nexus and M = "demo_model ''call''"]
  have "\<exists>e. (run_once demo_platform demo_nexus (demo_model ''call'') demo_world demo_poisoned = (Inl e, demo_poisoned)
      \<or> run_once demo_platform demo_nexus (demo_model ''call'') demo_world demo_poisoned
          = (Inl e, at_yield demo_world 0 demo_poisoned)) \<and> code e \<in> {Internal, MissionInactive}"
    by (simp only: all)
  then show ?thesis by (auto simp: all)
qed

section \<open>The action gate\<close>

text \<open>C28: Nothing is authorized that the mission and the lease do not allow. When the gate grants an
  action, the mission was active and unexpired and allows the tool; the tool is bound in the
  manifest of the lease with the digest its registered manifest has now; the chain of the lease
  validated; the arguments conform to the schema of the tool; no required capability is
  \<open>Capability::All\<close> and each is covered by a capability of the mission and one the lease grants;
  the lease is that of the agent and the mission;
  and what is issued is a certificate for exactly this tool and input that expires with the lease
  and within five minutes, and a fresh record for a single action.\<close>

theorem authorization_sound:
  assumes "authorize P w mission agent l c tool args custody now s = (Inr (x, art), t)"
  shows "\<exists>e rt live v auth.
      me_active mission \<and> now < me_expires_at mission \<and> tool \<in> set (me_allowed_tools mission)
    \<and> map_of (as_leases (ak_state (sh_kernel s))) l = Some e
    \<and> lc_agent_id (en_certificate e) = agent \<and> lc_mission_id (en_certificate e) = me_mission_id mission
    \<and> BoundTool tool (ax_tool_manifest_digest x) \<in> set (cm_approved_tools (en_manifest e))
    \<and> resolve_with_capability_manifest P (sh_registry (at_yield w 10 s)) tool (en_manifest e) = Inr (rt, live)
    \<and> manifest_digest P rt = Inr (ax_tool_manifest_digest x)
    \<and> validate_chain P (ak_state (sh_kernel t)) l (Some (le_generation (en_record e))) live now = Inr v
    \<and> ax_observed_generations x = va_observed_generations v
    \<and> context_canonical_digest P c = Inr (va_semantic_context_digest v)
    \<and> validate_input rt args = Inr () \<and> ax_required_capabilities x = tm_required_capabilities (rt_manifest rt)
    \<and> new_authority_set P (me_allowed_capabilities mission) = Inr auth
    \<and> cap_all P \<notin> set (ax_required_capabilities x)
    \<and> list_all (\<lambda>cap. covers P auth cap \<and> covers P (lc_granted_authority (en_certificate e)) cap) (ax_required_capabilities x)
    \<and> canonical_digest P ''aeon-concrete-input-v1'' (Inr args) = Inr (ac_concrete_input_digest (aa_certificate art))
    \<and> issued_for mission l tool args now (lc_expires_at (en_certificate e)) x art"
proof -
  from authorize_ok [OF assms] obtain e rt live v where a: "me_active mission" "now < me_expires_at mission"
    "tool \<in> set (me_allowed_tools mission)" "map_of (as_leases (ak_state (sh_kernel s))) l = Some e"
    "resolve_with_capability_manifest P (sh_registry (at_yield w 10 s)) tool (en_manifest e) = Inr (rt, live)"
    "BoundTool tool (ax_tool_manifest_digest x) \<in> set (cm_approved_tools (en_manifest e))"
    "manifest_digest P rt = Inr (ax_tool_manifest_digest x)"
    "validate_chain P (ak_state (sh_kernel t)) l (Some (le_generation (en_record e))) live now = Inr v"
    "context_canonical_digest P c = Inr (va_semantic_context_digest v)" "validate_input rt args = Inr ()"
    "ax_required_capabilities x = tm_required_capabilities (rt_manifest rt)"
    "ax_observed_generations x = va_observed_generations v"
    "lc_agent_id (en_certificate e) = agent" "lc_mission_id (en_certificate e) = me_mission_id mission"
    "canonical_digest P ''aeon-concrete-input-v1'' (Inr args) = Inr (ac_concrete_input_digest (aa_certificate art))"
    "issued_for mission l tool args now (lc_expires_at (en_certificate e)) x art"
    and caps: "check_capabilities P mission (lc_granted_authority (en_certificate e)) (ax_required_capabilities x) = Inr ()"
    by blast
  from caps obtain auth where "new_authority_set P (me_allowed_capabilities mission) = Inr auth"
    "cap_all P \<notin> set (ax_required_capabilities x)"
    "list_all (\<lambda>cap. covers P auth cap \<and> covers P (lc_granted_authority (en_certificate e)) cap) (ax_required_capabilities x)"
    unfolding check_capabilities_ok list_all_iff by blast
  with a show ?thesis
    by (intro exI [of _ e] exI [of _ rt] exI [of _ live] exI [of _ v] exI [of _ auth]) simp
qed

theorem authorization_sound_witness:
  "\<exists>e. map_of (as_leases (ak_state (sh_kernel demo_runtime))) ''lease-u1'' = Some e
    \<and> issued_for demo_mission ''lease-u1'' ''echo'' (JObject []) 2 (lc_expires_at (en_certificate e))
        (fst demo_authorized) (snd demo_authorized)"
proof -
  have "demo_frame demo_runtime"
    using activated_events(5) [of demo_mission "\<lambda>_. 1"] by (simp add: demo_frame_def demo_runtime_def)
  then have "authorize demo_platform demo_world demo_mission ''a1'' ''lease-u1'' demo_context ''echo'' (JObject [])
     (demo_custody ''key-u0'' 1) 2 demo_runtime = (Inr (fst demo_authorized, snd demo_authorized), demo_runtime)"
    using demo_authorizes by simp
  from authorization_sound [OF this] show ?thesis by blast
qed

section \<open>Final results\<close>

text \<open>C29: A final result is accepted exactly when the mission is usable and, under the read guard of the
  kernel, the chain observed before the model call still validates with the same generations, the
  same chain of certificates, identity, manifest and context digests, and the current semantic
  context has the digest that was authorized; accepting it appends \<open>FinalProduced\<close> to the events of
  the attempt and changes nothing else.\<close>

theorem final_accepted_exactly:
  "accept_model_final P w ob a now s = (Inr (), t) \<longleftrightarrow>
     is_usable_at (rt_mission s) now \<and> \<not> ak_poisoned (sh_kernel s)
     \<and> (\<exists>v. validate_chain P (ak_state (sh_kernel s)) (lc_lease_id (sn_certificate (ob_lease ob)))
            (Some (le_generation (sn_record (ob_lease ob)))) (sn_manifest (ob_lease ob)) now = Inr v
          \<and> va_observed_generations v = va_observed_generations (ob_validated ob)
          \<and> va_chain v = va_chain (ob_validated ob)
          \<and> va_agent_identity_digest v = va_agent_identity_digest (ob_validated ob)
          \<and> va_capability_manifest_digest v = va_capability_manifest_digest (ob_validated ob)
          \<and> va_semantic_context_digest v = va_semantic_context_digest (ob_validated ob))
     \<and> \<not> mx_poisoned (sh_context s)
     \<and> context_canonical_digest P (mx_value (sh_context s)) = Inr (va_semantic_context_digest (ob_validated ob))
     \<and> \<not> mx_poisoned (ms_events (sh_store s))
     \<and> t = s\<lparr>sh_store := (sh_store s)\<lparr>ms_events := (ms_events (sh_store s))\<lparr>mx_value :=
         push_mission_event (me_mission_id (ms_mission (sh_store s))) (Some a) FinalProduced (clock w 32)
           (events (sh_store s))\<rparr>\<rparr>\<rparr>"
  unfolding accept_model_final_ok check_unchanged_ok on_store_append_ok by blast

section \<open>A bootstrapped runtime can start\<close>

text \<open>C30: What a bootstrap returns can start working. Until its lease expires, which is at the end of the mission
  or after five minutes, the observation that precedes every model call succeeds in a bootstrapped
  runtime: it returns the root lease, active with generation zero and issued to the agent of the
  runtime, with its validated chain, and changes nothing.\<close>

theorem bootstrap_can_start:
  assumes "bootstrap_r2 P N M gk ku lu clk mission agent spec registry cv delegable = Inr s"
    and "json_total P" and "now < me_expires_at mission" and "now < clk 0 + seconds 300"
  shows "\<exists>ob. observe_model_authority P (alone clk' ids) (mx_value (sh_context s)) now s = (Inr ob, s)
    \<and> sn_record (ob_lease ob) = active_lease_record (as_root_lease_id (ak_state (sh_kernel s)))
    \<and> lc_agent_id (sn_certificate (ob_lease ob)) = agent"
  using assms(1)
proof (rule bootstrap_r2_ok)
  fix snap md resolver ctx d rc custody granted k
  assume chk: "check_bootstrap P mission spec (clk 0) = Inr ()"
    and d: "context_canonical_digest P ctx = Inr d"
    and k: "bootstrap P (root_request mission agent granted delegable (bootstrap_manifest spec snap ctx rc) d
       (min (me_expires_at mission) (clk 0 + seconds 300))) custody lu (clk 0) = Inr k"
    and s: "s = \<lparr>sh_registry = registry, sh_kernel = \<lparr>ak_state = k, ak_poisoned = False\<rparr>,
       sh_context = new_mutex ctx, sh_store = activated mission clk, sh_metrics = default_metrics,
       rt_mission = mission, rt_agent_id = agent, rt_spec = spec, rt_key_custody = custody,
       rt_protocol_gate = default_gate, rt_action_certificates = new_mutex [],
       rt_steps_consumed = 0, rt_actions_consumed = 0\<rparr>"
  let ?m = "bootstrap_manifest spec snap ctx rc"
  have usable: "is_usable_at mission now" using check_bootstrap_ok [OF chk] assms(3) by (simp add: is_usable_at_def)
  obtain l e v where l: "as_root_lease_id k = l" "map_of (as_leases k) l = Some e"
    and e: "en_record e = active_lease_record l" "en_manifest e = ?m" "lc_lease_id (en_certificate e) = l"
      "check_binding mission agent (en_certificate e) = Inr ()"
    and v: "validate_chain P k l (Some 0) ?m now = Inr v" "va_semantic_context_digest v = d"
    using root_validates [OF k, of now] assms(2-4) by (auto simp: root_request_def)
  have agent: "lc_agent_id (en_certificate e) = agent" using e(4) by (simp add: check_binding_ok)
  show ?thesis
    using usable l e v d agent
    by (simp add: observe_model_authority_def active_lease_snapshot_def bindS_def reads_def yield_def liftS_def s
        root_lease_id_def read_state_def get_lease_snapshot_def snapshot_def validate_active_chain_def
        validate_context_continuation_def new_mutex_def)
qed

theorem bootstrap_can_start_witness:
  "\<exists>ob. observe_model_authority demo_platform demo_world (mx_value (sh_context demo_runtime)) 2 demo_runtime = (Inr ob, demo_runtime)"
proof -
  have "bootstrap_r2 demo_platform demo_nexus (demo_model ''call'') (\<lambda>i. Inr (demo_custody i 1)) ''u0'' ''u1'' (\<lambda>_. 1)
     demo_mission ''a1'' demo_spec demo_registry 1 (AuthoritySet []) = Inr demo_runtime"
    using demo_boot_ok [of "''call''"] by (simp add: demo_boot_def)
  from bootstrap_can_start [OF this demo_json_total, of 2] show ?thesis by (auto simp: seconds_def)
qed

end
