(* ===== verification/SignatureCoverage.thy ===== *)
theory SignatureCoverage
  imports ExecutionSafety
begin

text \<open>
  What the signatures of the runtime cover. Every signed document (\<open>authority.rs\<close>,
  \<open>identity.rs\<close>, \<open>action.rs\<close>) is printed canonically before it is signed, so two documents that
  carry one signature and both verify are the same document, unless the signature is good for two
  different byte strings. No signature scheme is idealised: that exception is part of the lemmas.
\<close>

section \<open>Documents with one signature\<close>

definition signature_reused :: "'cap platform \<Rightarrow> byte list \<Rightarrow> signature_bytes \<Rightarrow> bool" where
  "signature_reused P k s \<longleftrightarrow> (\<exists>p q. p \<noteq> q \<and> ed25519_verify P k p s \<and> ed25519_verify P k q s)"

text \<open>The documented behaviour of the time printer: it shows a time stamp completely.\<close>

definition times_injective :: "'cap platform \<Rightarrow> bool" where
  "times_injective P \<longleftrightarrow> (\<forall>s t. rfc3339 P s = rfc3339 P t \<longrightarrow> s = t)"

context signed_document
begin

lemma one_signature:
  assumes "doc_verify a k = Inr ()" and "doc_verify b k = Inr ()" and "doc_signature a = doc_signature b"
  shows "(\<exists>p. doc_payload a = Inr p \<and> doc_payload b = Inr p)
    \<or> (\<exists>p q. p \<noteq> q \<and> good_signature k p (doc_signature a) \<and> good_signature k q (doc_signature a))"
  using assms unfolding verify_iff by metis

end

lemma payload_binds_members:
  assumes inj: "json_injective P" and dist: "distinct (map fst fs)" "distinct (map fst fs')"
    and p: "canonical_bytes P d (Inr (json_struct fs)) = Inr p" "canonical_bytes P d (Inr (json_struct fs')) = Inr p"
  shows "map_option canonicalize_json (map_of fs k) = map_option canonicalize_json (map_of fs' k)"
proof -
  obtain e e' where e: "canonical_encoding P (Inr (json_struct fs)) = Inr e"
    "canonical_encoding P (Inr (json_struct fs')) = Inr e'" "frame d e = frame d e'" "length d < 2 ^ 32"
    using p by (auto simp: canonical_bytes_eq_Inr)
  then have "e = e'" using frame_inj by blast
  with e have "canonicalize_json (json_struct fs) = canonicalize_json (json_struct fs')"
    using canonical_encoding_inj [OF inj] by blast
  then show ?thesis
    using canonicalize_struct_lookup [OF dist(1)] canonicalize_struct_lookup [OF dist(2)] by fastforce
qed

section \<open>Action certificates\<close>

text \<open>The part of the check of an action certificate that does not read its signature.\<close>

definition certificate_fits :: "'cap platform \<Rightarrow> 'cap authorized_execution \<Rightarrow> timestamp \<Rightarrow> action_certificate \<Rightarrow> bool" where
  "certificate_fits P x now c \<longleftrightarrow> now < ac_expires_at c \<and> ac_tool_id c = ax_tool_id x
     \<and> ac_tool_manifest_digest c = ax_tool_manifest_digest x
     \<and> canonical_digest P ''aeon-concrete-input-v1'' (Inr (ax_arguments x)) = Inr (ac_concrete_input_digest c)"

interpretation action_doc: signed_document "action_signing_payload P" ac_signature
  "\<lambda>s c. c\<lparr>ac_signature := s\<rparr>" "certificate_fits P x now"
  "\<lambda>c k. validate_action_certificate P c x \<lparr>kc_key_id = i, kc_verifying_key = k, kc_sign = f\<rparr> now"
  "ed25519_verify P" for P x now i f
  by unfold_locales
    (auto simp: validate_action_certificate_ok action_signing_payload_def action_payload_fields_def
      certificate_fits_def)

lemma widened_u32: "(ucast (x :: u32) :: u64) = ucast y \<longleftrightarrow> x = y"
proof -
  have "ucast (ucast z :: u64) = z" for z :: u32 by (rule bit_word_eqI) (simp add: bit_ucast_iff)
  then show ?thesis by metis
qed

lemma action_payload_covers:
  assumes inj: "json_injective P" "times_injective P"
    and p: "action_signing_payload P a = Inr p" "action_signing_payload P b = Inr p"
  shows "b\<lparr>ac_signature := ac_signature a\<rparr> = a"
proof -
  have dist: "distinct (map fst (action_payload_fields P c))" for c by (simp add: action_payload_fields_def)
  note eq = payload_binds_members [OF inj(1) dist dist p [unfolded action_signing_payload_def]]
  have "ac_certificate_id a = ac_certificate_id b" "ac_mission_id a = ac_mission_id b"
    "ac_agent_identity_digest a = ac_agent_identity_digest b" "ac_authority_lease_id a = ac_authority_lease_id b"
    using eq [of "''certificate_id''"] eq [of "''mission_id''"] eq [of "''agent_identity_digest''"]
      eq [of "''authority_lease_id''"] by (simp_all add: action_payload_fields_def)
  moreover have "ac_organization_version a = ac_organization_version b" "ac_policy_epoch a = ac_policy_epoch b"
    "ac_semantic_context_digest a = ac_semantic_context_digest b" "ac_action_ref a = ac_action_ref b"
    using eq [of "''organization_version''"] eq [of "''policy_epoch''"] eq [of "''semantic_context_digest''"]
      eq [of "''action_ref''"] by (simp_all add: action_payload_fields_def action_ref.expand)
  moreover have "ac_tool_id a = ac_tool_id b" "ac_tool_manifest_digest a = ac_tool_manifest_digest b"
    "ac_concrete_input_digest a = ac_concrete_input_digest b"
    "ac_authorization_record_id a = ac_authorization_record_id b"
    using eq [of "''tool_id''"] eq [of "''tool_manifest_digest''"] eq [of "''concrete_input_digest''"]
      eq [of "''authorization_record_id''"] by (simp_all add: action_payload_fields_def)
  moreover have "ac_granted_uses a = ac_granted_uses b"
    "ac_authorization_generation a = ac_authorization_generation b"
    using eq [of "''granted_uses''"] eq [of "''authorization_generation''"]
    by (simp_all add: action_payload_fields_def widened_u32)
  moreover have "ac_issued_at a = ac_issued_at b" "ac_expires_at a = ac_expires_at b"
    using eq [of "''issued_at''"] eq [of "''expires_at''"] inj(2)
    by (simp_all add: action_payload_fields_def times_injective_def)
  ultimately show ?thesis by simp
qed

section \<open>Lease certificates\<close>

lemma capabilities_covered:
  assumes inj: "cap_keys_inj P" "json_total P"
  shows "mapE (cap_to_value P) cs = Inr vs \<Longrightarrow> mapE (cap_to_value P) ds = Inr ws \<Longrightarrow>
    map canonicalize_json vs = map canonicalize_json ws \<Longrightarrow> cs = ds"
proof (induction cs arbitrary: vs ds ws)
  case Nil
  then show ?case by (cases ds) (auto simp: bindE_eq_Inr)
next
  case (Cons c cs)
  then obtain v vs' where v: "cap_to_value P c = Inr v" "mapE (cap_to_value P) cs = Inr vs'" "vs = v # vs'"
    by (auto simp: bindE_eq_Inr)
  with Cons.prems obtain d ds' w ws' where w: "ds = d # ds'" "cap_to_value P d = Inr w"
    "mapE (cap_to_value P) ds' = Inr ws'" "ws = w # ws'"
    by (cases ds) (auto simp: bindE_eq_Inr)
  have same: "canonicalize_json v = canonicalize_json w" using Cons.prems(3) v(3) w(4) by simp
  obtain k where "json_to_vec P (canonicalize_json v) = Inr k" using inj(2) by (auto simp: json_total_def)
  then have "capability_key P c = Inr k" "capability_key P d = Inr k"
    using v(1) w(2) same by (simp_all add: capability_key_def canonical_value_bytes_def)
  then have "c = d" using inj(1) unfolding cap_keys_inj_def by blast
  moreover have "cs = ds'" using Cons.IH [OF v(2) w(3)] Cons.prems(3) v(3) w(4) by simp
  ultimately show ?case using w(1) by simp
qed

lemma authority_covered:
  assumes "cap_keys_inj P" "json_total P" and "authority_set_value P a = Inr v" "authority_set_value P b = Inr w"
    and "canonicalize_json v = canonicalize_json w"
  shows "a = b"
proof -
  obtain vs ws where vs: "mapE (cap_to_value P) (capabilities a) = Inr vs" "v = json_struct [(''capabilities'', JArray vs)]"
    and ws: "mapE (cap_to_value P) (capabilities b) = Inr ws" "w = json_struct [(''capabilities'', JArray ws)]"
    using assms(3,4) by (auto simp: authority_set_value_def capabilities_value_def bindE_eq_Inr)
  have "map canonicalize_json vs = map canonicalize_json ws"
    using assms(5) vs(2) ws(2) by (simp add: json_struct_def bt_collect_def)
  then have "capabilities a = capabilities b" using capabilities_covered [OF assms(1,2) vs(1) ws(1)] by simp
  then show ?thesis by (rule authority_set.expand)
qed

lemma lease_ref_canonical [simp]: "canonicalize_json (lease_ref_value r) = lease_ref_value r"
  by (simp add: lease_ref_value_def json_struct_def bt_collect_def digest_value_def)

lemma lease_ref_value_inj [simp]: "lease_ref_value a = lease_ref_value b \<longleftrightarrow> a = b"
  by (auto simp: lease_ref_value_def json_struct_def bt_collect_def)

lemma lease_ref_option_inj [simp]:
  "json_option lease_ref_value x = json_option lease_ref_value y \<longleftrightarrow> x = y"
  by (rule json_option_inj) (auto simp: lease_ref_value_def json_struct_def bt_collect_def)

lemma string_option_inj [simp]: "json_option JString x = json_option JString y \<longleftrightarrow> x = y"
  by (rule json_option_inj) simp_all

lemma lease_payload_covers:
  assumes inj: "json_injective P" "times_injective P" and caps: "cap_keys_inj P" "json_total P"
    and p: "lease_signing_payload P a = Inr p" "lease_signing_payload P b = Inr p"
  shows "b\<lparr>lc_signature := lc_signature a\<rparr> = a"
proof -
  obtain fs gs where fs: "lease_payload_fields P a = Inr fs" and gs: "lease_payload_fields P b = Inr gs"
    and p': "canonical_bytes P ''aeon-authority-lease-certificate-v2'' (Inr (json_struct fs)) = Inr p"
      "canonical_bytes P ''aeon-authority-lease-certificate-v2'' (Inr (json_struct gs)) = Inr p"
    using p unfolding lease_signing_payload_def canonical_bytes_eq_Inr canonical_encoding_eq_Inr bindE_eq_Inr by auto
  obtain ga da where ga: "authority_set_value P (lc_granted_authority a) = Inr ga"
    "authority_set_value P (lc_delegable_authority a) = Inr da"
    using fs by (auto simp: lease_payload_fields_def bindE_eq_Inr)
  obtain gb db where gb: "authority_set_value P (lc_granted_authority b) = Inr gb"
    "authority_set_value P (lc_delegable_authority b) = Inr db"
    using gs by (auto simp: lease_payload_fields_def bindE_eq_Inr)
  have fields: "fs = projr (lease_payload_fields P a)" "gs = projr (lease_payload_fields P b)" by (simp_all add: fs gs)
  have dist: "distinct (map fst fs)" "distinct (map fst gs)" by (simp_all add: fields lease_payload_fields_def ga gb)
  note eq = payload_binds_members [OF inj(1) dist p']
  have "lc_lease_id a = lc_lease_id b" "lc_mission_id a = lc_mission_id b" "lc_agent_id a = lc_agent_id b"
    "lc_parent_agent_id a = lc_parent_agent_id b" "lc_agent_identity_digest a = lc_agent_identity_digest b"
    using eq [of "''lease_id''"] eq [of "''mission_id''"] eq [of "''agent_id''"] eq [of "''parent_agent_id''"]
      eq [of "''agent_identity_digest''"] by (simp_all add: fields lease_payload_fields_def ga gb)
  moreover have "lc_issuer_identity_digest a = lc_issuer_identity_digest b" "lc_issuer_key_id a = lc_issuer_key_id b"
    "lc_parent_lease a = lc_parent_lease b" "lc_renewed_from a = lc_renewed_from b"
    "lc_organization_version a = lc_organization_version b"
    using eq [of "''issuer_identity_digest''"] eq [of "''issuer_key_id''"] eq [of "''parent_lease''"]
      eq [of "''renewed_from''"] eq [of "''organization_version''"] by (simp_all add: fields lease_payload_fields_def ga gb)
  moreover have "lc_policy_epoch a = lc_policy_epoch b"
    "lc_capability_manifest_digest a = lc_capability_manifest_digest b"
    "lc_semantic_context_digest a = lc_semantic_context_digest b"
    using eq [of "''policy_epoch''"] eq [of "''capability_manifest_digest''"] eq [of "''semantic_context_digest''"]
    by (simp_all add: fields lease_payload_fields_def ga gb)
  moreover have "lc_issued_at a = lc_issued_at b" "lc_expires_at a = lc_expires_at b"
    using eq [of "''issued_at''"] eq [of "''expires_at''"] inj(2) by (simp_all add: fields lease_payload_fields_def ga gb times_injective_def)
  moreover have "canonicalize_json ga = canonicalize_json gb" "canonicalize_json da = canonicalize_json db"
    using eq [of "''granted_authority''"] eq [of "''delegable_authority''"] by (simp_all add: fields lease_payload_fields_def ga gb)
  then have "lc_granted_authority a = lc_granted_authority b" "lc_delegable_authority a = lc_delegable_authority b"
    using authority_covered [OF caps ga(1) gb(1)] authority_covered [OF caps ga(2) gb(2)] by simp_all
  ultimately show ?thesis by simp
qed

section \<open>Identity certificates\<close>

lemma identity_payload_covers:
  assumes inj: "json_injective P" "times_injective P"
    and p: "identity_signing_payload P a = Inr p" "identity_signing_payload P b = Inr p"
  shows "b\<lparr>ic_signature := ic_signature a\<rparr> = a"
proof -
  have dist: "distinct (map fst (identity_payload_fields P c))" for c by (simp add: identity_payload_fields_def)
  note eq = payload_binds_members [OF inj(1) dist dist p [unfolded identity_signing_payload_def]]
  have "ic_agent_id a = ic_agent_id b" "ic_key_id a = ic_key_id b" "ic_issuer_key_id a = ic_issuer_key_id b"
    "ic_issuer_agent_id a = ic_issuer_agent_id b"
    using eq [of "''agent_id''"] eq [of "''key_id''"] eq [of "''issuer_key_id''"] eq [of "''issuer_agent_id''"]
    by (simp_all add: identity_payload_fields_def)
  moreover have "map json_byte (ic_verifying_key_bytes a) = map json_byte (ic_verifying_key_bytes b)"
    using eq [of "''verifying_key_bytes''"] by (simp add: identity_payload_fields_def comp_def)
  then have "ic_verifying_key_bytes a = ic_verifying_key_bytes b" by (simp add: inj_map_eq_map inj_def)
  moreover have "ic_issued_at a = ic_issued_at b"
    using eq [of "''issued_at''"] inj(2) by (simp add: identity_payload_fields_def times_injective_def)
  ultimately show ?thesis by simp
qed

lemma digest_binds_document:
  assumes "json_injective P" and d: "canonical_digest P d (Inr v) = Inr h" "canonical_digest P d (Inr w) = Inr h"
  shows "canonicalize_json v = canonicalize_json w \<or> digest_collision P d (Inr v) (Inr w)"
proof -
  obtain e where "canonical_encoding P (Inr v) = Inr e" using d(1) by (auto simp: canonical_digest_eq_Inr)
  note e = this
  from canonical_digest_binds [OF d] show ?thesis
  proof
    assume "d = d \<and> canonical_encoding P (Inr v) = canonical_encoding P (Inr w)"
    then show ?thesis using canonical_encoding_inj [OF assms(1) e] e by simp
  qed (auto simp: digest_collision_def)
qed

end
