(* ===== verification/DemoPrinter.thy ===== *)
theory DemoPrinter
  imports SignatureCoverage DemoRuntime
begin

text \<open>
  A second concrete platform for the examples about digests and signatures: its printer shows a value
  completely. Everything is written as a tag, a text as marked bytes and a number in unary, so no
  printed value is a proper beginning of another.
\<close>

section \<open>A complete printer\<close>

definition print_nat :: "nat \<Rightarrow> byte list" where
  "print_nat n = replicate n 1 @ [0]"

fun print_text :: "string \<Rightarrow> byte list" where
  "print_text [] = [0]"
| "print_text (c # cs) = 1 # byte_of c # print_text cs"

fun print_number :: "json_number \<Rightarrow> byte list" where
  "print_number (PosInt n) = 1 # print_nat (unat n)"
| "print_number (NegInt i) = 2 # (if i < 0 then 1 else 0) # print_nat (nat \<bar>i\<bar>)"
| "print_number (Float n) = 3 # print_nat (unat n)"

function print_json :: "json \<Rightarrow> byte list" where
  "print_json JNull = [1]"
| "print_json (JBool b) = [2, if b then 1 else 0]"
| "print_json (JNumber n) = 3 # print_number n"
| "print_json (JString s) = 4 # print_text s"
| "print_json (JArray vs) = 5 # concat (map (\<lambda>v. 1 # print_json v) vs) @ [0]"
| "print_json (JObject es) = 6 # concat (map (\<lambda>(k, v). 1 # print_text k @ print_json v) es) @ [0]"
  by pat_completeness auto
termination
  by (relation "measure size") (auto simp: less_Suc_eq_le size_list_estimation' dest: size_member_json)

lemma print_nat_prefix: "print_nat n @ r = print_nat m @ s \<Longrightarrow> n = m \<and> r = s"
proof (induction n arbitrary: m)
  case 0
  then show ?case by (cases m) (simp_all add: print_nat_def)
next
  case (Suc n)
  then show ?case by (cases m) (auto simp: print_nat_def)
qed

lemma print_text_prefix: "print_text a @ r = print_text b @ s \<Longrightarrow> a = b \<and> r = s"
proof (induction a arbitrary: b)
  case Nil
  then show ?case by (cases b) simp_all
next
  case (Cons c cs)
  then show ?case by (cases b) auto
qed

lemma print_number_prefix: "print_number a @ r = print_number b @ s \<Longrightarrow> a = b \<and> r = s"
  by (cases a; cases b) (auto dest!: print_nat_prefix simp: word_unat_eq_iff split: if_splits)

lemma print_items_prefix:
  assumes "\<And>x y r s. x \<in> set xs \<Longrightarrow> f x @ r = f y @ s \<Longrightarrow> x = y \<and> r = s"
    and "concat (map (\<lambda>x. (1 :: byte) # f x) xs) @ 0 # r = concat (map (\<lambda>x. 1 # f x) ys) @ 0 # s"
  shows "xs = ys \<and> r = s"
  using assms
proof (induction xs arbitrary: ys)
  case Nil
  then show ?case by (cases ys) simp_all
next
  case (Cons x xs)
  then obtain y ys' where ys: "ys = y # ys'" by (cases ys) simp_all
  have "f x @ concat (map (\<lambda>x. 1 # f x) xs) @ 0 # r = f y @ concat (map (\<lambda>x. 1 # f x) ys') @ 0 # s"
    using Cons.prems(2) ys by simp
  then have "x = y \<and> concat (map (\<lambda>x. 1 # f x) xs) @ 0 # r = concat (map (\<lambda>x. 1 # f x) ys') @ 0 # s"
    using Cons.prems(1) by (meson list.set_intros(1))
  moreover from this have "xs = ys' \<and> r = s" using Cons.IH Cons.prems(1) by (meson list.set_intros(2))
  ultimately show ?case using ys by simp
qed

lemma print_json_prefix: "print_json v @ r = print_json w @ s \<Longrightarrow> v = w \<and> r = s"
proof (induction v arbitrary: w r s rule: print_json.induct)
  case (3 n)
  then show ?case by (cases w) (auto dest: print_number_prefix)
next
  case (4 t)
  then show ?case by (cases w) (auto dest: print_text_prefix)
next
  case (5 vs)
  then obtain ws where w: "w = JArray ws" by (cases w) auto
  with 5 show ?case using print_items_prefix [of vs print_json r ws s] by simp
next
  case (6 es)
  then obtain fs where w: "w = JObject fs" by (cases w) auto
  have "x = y \<and> r = s" if x: "x \<in> set es" and eq: "(case x of (k, v) \<Rightarrow> print_text k @ print_json v) @ r
      = (case y of (k, v) \<Rightarrow> print_text k @ print_json v) @ s" for x y r s
  proof -
    obtain k v l u where xy: "x = (k, v)" "y = (l, u)" by (cases x; cases y)
    from eq have "print_text k @ print_json v @ r = print_text l @ print_json u @ s" by (simp add: xy)
    then have "k = l" "print_json v @ r = print_json u @ s" using print_text_prefix by blast+
    moreover have "v = u \<and> r = s" using "6.IH" [OF x xy(1) [symmetric]] calculation(2) by blast
    ultimately show ?thesis using xy by simp
  qed
  note items = this
  have "concat (map (\<lambda>x. 1 # (case x of (k, v) \<Rightarrow> print_text k @ print_json v)) es) @ 0 # r
      = concat (map (\<lambda>x. 1 # (case x of (k, v) \<Rightarrow> print_text k @ print_json v)) fs) @ 0 # s"
    using "6.prems" unfolding w by (simp add: case_prod_unfold)
  then have "es = fs \<and> r = s" by (rule print_items_prefix [rotated]) (rule items)
  then show ?case by (simp add: w)
qed (case_tac w; auto split: if_splits)+

definition print_time :: "timestamp \<Rightarrow> string" where
  "print_time t = (if t < 0 then CHR ''-'' # replicate (nat (- t)) CHR ''I'' else replicate (nat t) CHR ''I'')"

lemma print_time_inj: "print_time s = print_time t \<longleftrightarrow> s = t"
proof
  assume eq: "print_time s = print_time t"
  then have "s < 0 \<longleftrightarrow> t < 0" by (cases "nat s"; cases "nat t") (auto simp: print_time_def split: if_splits)
  moreover from this have "length (print_time s) = length (print_time t)" using eq by simp
  ultimately show "s = t" by (auto simp: print_time_def split: if_splits)
qed simp

section \<open>The platform\<close>

definition print_platform :: "string platform" where
  "print_platform = demo_platform\<lparr>json_to_vec := \<lambda>v. Inr (print_json v),
     json_display := \<lambda>v. map (\<lambda>b. char_of (unat b)) (print_json v), rfc3339 := print_time\<rparr>"

lemma print_platform_simps [simp]:
  "sha256 print_platform = demo_hash" "json_to_vec print_platform v = Inr (print_json v)"
  "rfc3339 print_platform = print_time"
  "json_display print_platform v = map (\<lambda>b. char_of (unat b)) (print_json v)"
  "ed25519_verify print_platform k p s \<longleftrightarrow> s = demo_sign k p"
  "cap_to_value print_platform c = Inr (JString c)"
  by (simp_all add: print_platform_def)

lemma print_json_total: "json_total print_platform"
  by (simp add: json_total_def)

lemma print_json_injective: "json_injective print_platform"
proof -
  have "v = w" if "print_json v = print_json w" for v w using print_json_prefix [of v "[]" w "[]"] that by simp
  then show ?thesis by (simp add: json_injective_def)
qed

lemma print_display_injective: "inj (json_display print_platform)"
proof (rule injI)
  fix v w assume eq: "json_display print_platform v = json_display print_platform w"
  have bytes: "a = b" if "char_of (unat a) = (char_of (unat b) :: char)" for a b :: byte
  proof -
    have "unat a < 256" "unat b < 256" using unsigned_less [of a] unsigned_less [of b] by simp_all
    moreover have "unat a mod 256 = unat b mod 256" using arg_cong [OF that, of "of_char :: char \<Rightarrow> nat"] by simp
    ultimately show ?thesis by (simp add: word_unat_eq_iff)
  qed
  have "inj (\<lambda>b :: byte. char_of (unat b) :: char)" by (rule injI) (rule bytes)
  then have "print_json v = print_json w" using eq by (simp add: inj_map_eq_map)
  then show "v = w" using print_json_prefix [of v "[]" w "[]"] by simp
qed

lemma print_times_injective: "times_injective print_platform"
  by (simp add: times_injective_def print_time_inj)

lemma print_caps: "cap_keys_inj print_platform"
proof -
  have "a = b" if "print_text a = print_text b" for a b using print_text_prefix [of a "[]" b "[]"] that by simp
  then show ?thesis by (simp add: cap_keys_inj_def capability_key_def canonical_value_bytes_def)
qed

section \<open>The length of a printed struct\<close>

lemma bt_collect_members:
  assumes "distinct (map fst es)"
  shows "mset (bt_collect es) = mset es"
proof -
  have d: "distinct (map fst (bt_collect es))" using bt_collect_ok bt.entries_distinct by blast
  have "map_of (bt_collect es) = map_of es"
    using assms by (simp add: bt_collect_lookup map_of_mset_cong [of "rev es" es] hm_ok_def rev_map [symmetric])
  then have "set (bt_collect es) = set es" using map_of_inject_set [OF d assms] by simp
  then show ?thesis using d assms by (simp add: set_eq_iff_mset_eq_distinct distinct_map)
qed

lemma length_print_text [simp]: "length (print_text s) = 2 * length s + 1"
  by (induction s) simp_all

lemma length_print_nat [simp]: "length (print_nat n) = n + 1"
  by (simp add: print_nat_def)

lemma sum_list_permuted: "mset xs = mset ys \<Longrightarrow> (\<Sum>x \<leftarrow> xs. f x :: nat) = (\<Sum>x \<leftarrow> ys. f x)"
  by (simp flip: sum_mset_sum_list)

lemma length_print_struct:
  assumes "distinct (map fst fs)"
  shows "length (print_json (canonicalize_json (json_struct fs)))
    = 2 + (\<Sum>(k, v) \<leftarrow> fs. 2 * length k + 2 + length (print_json (canonicalize_json v)))"
proof -
  let ?c = "\<lambda>(k, v). (k, canonicalize_json v)" and ?l = "\<lambda>(k, v). 2 * length k + 2 + length (print_json v)"
  let ?ms = "bt_collect (map ?c (sort_key fst (bt_collect fs)))"
  have d: "distinct (map fst (bt_collect fs))" using bt_collect_ok bt.entries_distinct by blast
  have "distinct (map fst (sort_key fst (bt_collect fs)))"
    using d by (metis mset_eq_imp_distinct_iff mset_map mset_sort)
  then have "distinct (map fst (map ?c (sort_key fst (bt_collect fs))))" by (simp add: comp_def case_prod_unfold)
  from bt_collect_members [OF this] have "mset ?ms = mset (map ?c fs)" using bt_collect_members [OF assms] by simp
  then have "(\<Sum>x \<leftarrow> ?ms. ?l x) = (\<Sum>x \<leftarrow> map ?c fs. ?l x)" by (rule sum_list_permuted)
  moreover have "length (print_json (JObject es)) = 2 + (\<Sum>x \<leftarrow> es. ?l x)" for es
    by (simp add: length_concat comp_def case_prod_unfold)
  ultimately show ?thesis by (simp add: json_struct_def Let_def comp_def case_prod_unfold)
qed

section \<open>Documents on it\<close>

definition demo_tool2 :: "string registered_tool" where
  "demo_tool2 = demo_tool\<lparr>rt_manifest := (rt_manifest demo_tool)\<lparr>tm_tool_id := ''other''\<rparr>\<rparr>"

lemma demo_action_payload:
  assumes "length i < 100"
  shows "\<exists>p. action_signing_payload print_platform ((ax_certificate (fst demo_authorized))\<lparr>ac_certificate_id := i\<rparr>) = Inr p"
proof -
  let ?fs = "action_payload_fields print_platform ((ax_certificate (fst demo_authorized))\<lparr>ac_certificate_id := i\<rparr>)"
  have "distinct (map fst ?fs)" by (simp add: action_payload_fields_def)
  then have "length (print_json (canonicalize_json (json_struct ?fs))) < 2 ^ 64"
    using assms
    by (simp add: length_print_struct action_payload_fields_def demo_authorized_def issue_authorization_def Let_def
        action_ref_of_def demo_validated_def snapshot_def seconds_def digest_value_def json_u64_def print_time_def
        demo_dd_def demo_mission_def)
  then show ?thesis by (auto simp: action_signing_payload_def canonical_bytes_eq_Inr canonical_encoding_eq_Inr)
qed

lemma demo_lease_payload:
  assumes "length i < 100"
  shows "\<exists>p. lease_signing_payload print_platform (demo_cert\<lparr>lc_lease_id := i\<rparr>) = Inr p"
proof -
  obtain fs where fs: "lease_payload_fields print_platform (demo_cert\<lparr>lc_lease_id := i\<rparr>) = Inr fs"
    by (simp add: lease_payload_fields_def authority_set_value_def capabilities_value_def demo_cert_def)
  have eq: "fs = projr (lease_payload_fields print_platform (demo_cert\<lparr>lc_lease_id := i\<rparr>))" by (simp add: fs)
  have "distinct (map fst fs)"
    by (simp add: eq lease_payload_fields_def authority_set_value_def capabilities_value_def demo_cert_def)
  then have "length (print_json (canonicalize_json (json_struct fs))) < 2 ^ 64"
    using assms
    by (simp add: length_print_struct eq lease_payload_fields_def authority_set_value_def capabilities_value_def
        demo_cert_def digest_value_def json_u64_def print_time_def demo_dd_def demo_digest_def json_option_def)
  then show ?thesis by (auto simp: lease_signing_payload_def fs canonical_bytes_eq_Inr canonical_encoding_eq_Inr)
qed

lemma print_digest: "d \<noteq> [] \<Longrightarrow> length d < 2 ^ 32 \<Longrightarrow> \<exists>h. canonical_digest print_platform d (Inr v) = Inr h"
  by (simp add: canonical_digest_def canonical_encoding_def)

lemma print_tool_digest: "\<exists>d. manifest_digest print_platform t = Inr d"
proof -
  have caps: "mapE f xs = Inr (map g xs)" if "\<And>x. f x = Inr (g x)" for f :: "'x \<Rightarrow> 'e + 'y" and g xs
    using that by (intro mapE_total) simp
  have "\<exists>cs. sort_capabilities print_platform xs = Inr cs" for xs
    by (simp add: sort_capabilities_def print_platform_def caps [of _ id])
  moreover have "\<exists>v. tool_manifest_value print_platform m = Inr v" for m
    by (simp add: tool_manifest_value_def capabilities_value_def caps [of _ JString])
  ultimately obtain cs v where "sort_capabilities print_platform (tm_required_capabilities (rt_manifest t)) = Inr cs"
    "tool_manifest_value print_platform ((rt_manifest t)\<lparr>tm_required_capabilities := cs\<rparr>) = Inr v" by blast
  then show ?thesis
    using print_digest [of "''aeon-tool-manifest-v1''" v] by (simp add: manifest_digest_def tool_manifest_digest_def)
qed

lemma print_root: "\<exists>h. root_digest_for_tools print_platform ts = Inr h"
proof -
  have "root_entry print_platform t = Inr (projr (root_entry print_platform t))" for t
    using print_tool_digest [of t] by (auto simp: root_entry_def)
  then have "mapE (root_entry print_platform) ts = Inr (map (\<lambda>t. projr (root_entry print_platform t)) ts)"
    by (intro mapE_total) simp
  then show ?thesis using print_digest [of "''aeon-tool-registry-root-v1''"] by (simp add: root_digest_for_tools_def)
qed

end
