(* ===== verification/ToolSchemas.thy ===== *)
theory ToolSchemas
  imports ToolRegistry
begin

text \<open>
  The schema language of tools against a strict reading of it, stated without the code's own tests.
  \<open>json_type\<close> says which values a type name describes, \<open>conforms\<close> which values a schema describes: an
  unknown keyword, an \<open>additionalProperties\<close> that is not a boolean or any other malformed member
  describes nothing. \<open>schema_language\<close> is the set of well-formed schemas. The validator looks members of
  a schema up leniently (what has the wrong shape is skipped); the registry accepts exactly the
  well-formed schemas, and on them nothing is skipped: an input validates exactly when it conforms.
\<close>

section \<open>Conformance\<close>

inductive json_type :: "string \<Rightarrow> json \<Rightarrow> bool" where
  null_type: "json_type ''null'' JNull"
| boolean_type: "json_type ''boolean'' (JBool b)"
| number_type: "json_type ''number'' (JNumber n)"
| positive_type: "json_type ''integer'' (JNumber (PosInt n))"
| negative_type: "json_type ''integer'' (JNumber (NegInt i))"
| string_type: "json_type ''string'' (JString s)"
| array_type: "json_type ''array'' (JArray vs)"
| object_type: "json_type ''object'' (JObject es)"

definition known_keywords :: "(string \<times> json) list \<Rightarrow> bool" where
  "known_keywords schema \<longleftrightarrow> fst ` set schema \<subseteq> {''type'', ''required'', ''properties'', ''additionalProperties''}"

definition typed_as :: "(string \<times> json) list \<Rightarrow> json \<Rightarrow> bool" where
  "typed_as schema v \<longleftrightarrow> (\<forall>t. map_of schema ''type'' = Some t \<longrightarrow> (\<exists>s. t = JString s \<and> json_type s v))"

definition has_required :: "(string \<times> json) list \<Rightarrow> json \<Rightarrow> bool" where
  "has_required schema v \<longleftrightarrow> (\<forall>r. map_of schema ''required'' = Some r \<longrightarrow>
     (\<exists>names object. r = JArray (map JString names) \<and> v = JObject object \<and> set names \<subseteq> dom (map_of object)))"

definition no_additional :: "(string \<times> json) list \<Rightarrow> json \<Rightarrow> bool" where
  "no_additional schema v \<longleftrightarrow> (\<forall>a. map_of schema ''additionalProperties'' = Some a \<longrightarrow>
     a = JBool True
     \<or> a = JBool False \<and> (\<forall>object. v = JObject object \<longrightarrow> (\<forall>name \<in> fst ` set object.
          \<exists>known. map_of schema ''properties'' = Some (JObject known) \<and> map_of known name \<noteq> None)))"

inductive conforms :: "json \<Rightarrow> json \<Rightarrow> bool" where
  conforms_schema:
  "known_keywords schema \<Longrightarrow> typed_as schema v \<Longrightarrow> has_required schema v \<Longrightarrow> no_additional schema v \<Longrightarrow>
   \<forall>ps. map_of schema ''properties'' = Some ps \<longrightarrow>
     (\<exists>known object. ps = JObject known \<and> v = JObject object
        \<and> (\<forall>name p w. (name, p) \<in> set known \<longrightarrow> map_of object name = Some w \<longrightarrow> conforms p w)) \<Longrightarrow>
   conforms (JObject schema) v"

inductive_simps conforms_JObject: "conforms (JObject schema) v"

definition schema_shape :: "(string \<times> json) list \<Rightarrow> bool" where
  "schema_shape schema \<longleftrightarrow> known_keywords schema
     \<and> (\<forall>t. map_of schema ''type'' = Some t \<longrightarrow>
          t \<in> JString ` {''object'', ''array'', ''string'', ''number'', ''integer'', ''boolean'', ''null''})
     \<and> (map_of schema ''required'' \<noteq> None \<or> map_of schema ''properties'' \<noteq> None
        \<longrightarrow> map_of schema ''type'' = Some (JString ''object''))
     \<and> (\<forall>r. map_of schema ''required'' = Some r \<longrightarrow> (\<exists>names. r = JArray (map JString names)))
     \<and> (\<forall>a. map_of schema ''additionalProperties'' = Some a \<longrightarrow> a \<in> {JBool True, JBool False})"

inductive schema_language :: "json \<Rightarrow> bool" where
  schema_object:
  "schema_shape schema \<Longrightarrow>
   \<forall>ps. map_of schema ''properties'' = Some ps \<longrightarrow>
     (\<exists>known. ps = JObject known \<and> (\<forall>p \<in> snd ` set known. schema_language p)) \<Longrightarrow>
   schema_language (JObject schema)"

inductive_simps schema_language_JObject: "schema_language (JObject schema)"
inductive_cases schema_languageE: "schema_language s"

section \<open>Schemas the registry accepts\<close>

lemma known_keywords_iff: "set (map fst schema) \<subseteq> set SUPPORTED_KEYWORDS \<longleftrightarrow> known_keywords schema"
  by (simp add: known_keywords_def SUPPORTED_KEYWORDS_def)

lemma is_boolean_iff: "is_boolean v \<longleftrightarrow> v \<in> {JBool True, JBool False}"
  by (cases v) auto

lemma type_matches_iff: "type_matches t v \<longleftrightarrow> json_type t v"
proof (cases v)
  case (JNumber n)
  then show ?thesis by (cases n) (auto simp: type_matches_def json_type.simps)
qed (auto simp: type_matches_def json_type.simps)

lemma find_keyword:
  "find (\<lambda>k. k \<notin> set ks) xs = None \<longleftrightarrow> set xs \<subseteq> set ks"
  by (auto simp: find_None_iff)

lemma strings_only: "\<not> list_ex (\<lambda>n. \<not> is_string n) vs \<longleftrightarrow> (\<exists>names. vs = map JString names)"
proof
  assume "\<not> list_ex (\<lambda>n. \<not> is_string n) vs"
  then have "\<forall>v \<in> set vs. \<exists>s. v = JString s" by (auto simp: list_ex_iff elim: is_string.elims)
  then show "\<exists>names. vs = map JString names"
  proof (induction vs)
    case (Cons v vs)
    then obtain s names where "v = JString s" "vs = map JString names" by auto
    then have "v # vs = map JString (s # names)" by simp
    then show ?case ..
  qed simp
qed (auto simp: list_ex_iff)

lemma strings_of_map [simp]: "strings_of (map JString names) = names"
  by (induction names) (simp_all add: strings_of_def map_filter_simps)

lemma as_array_Some [simp]: "as_array v = Some vs \<longleftrightarrow> v = JArray vs"
  and as_object_Some [simp]: "as_object v = Some es \<longleftrightarrow> v = JObject es"
  and as_str_Some [simp]: "as_str v = Some s \<longleftrightarrow> v = JString s"
  by (cases v; auto)+

lemma required_check:
  "(case r of None \<Rightarrow> Inr () | Some required \<Rightarrow> bindE (ok_or InvalidInput m (as_array required)) (\<lambda>required.
      if list_ex (\<lambda>name. \<not> is_string name) required then err InvalidInput m' else Inr ())) = Inr ()
   \<longleftrightarrow> (\<forall>v. r = Some v \<longrightarrow> (\<exists>names. v = JArray (map JString names)))"
proof (cases r)
  case (Some v)
  show ?thesis unfolding Some by (simp add: bindE_eq_Inr ok_or_eq_Inr strings_only) auto
qed simp

lemma validate_schema_ok:
  "validate_schema_definition (JObject schema) = Inr () \<longleftrightarrow> schema_shape schema
     \<and> (\<forall>ps. map_of schema ''properties'' = Some ps \<longrightarrow>
          (\<exists>known. ps = JObject known \<and> (\<forall>p \<in> snd ` set known. validate_schema_definition p = Inr ())))"
proof (cases "find (\<lambda>keyword. keyword \<notin> set SUPPORTED_KEYWORDS) (map fst schema)")
  case (Some k)
  then have "\<not> known_keywords schema"
    by (metis find_keyword known_keywords_iff option.distinct(1))
  then show ?thesis unfolding validate_schema_definition.simps Some schema_shape_def by auto
next
  case None
  have keys: "known_keywords schema" using None by (simp only: find_keyword known_keywords_iff)
  have props: "(case map_of schema ''properties'' of None \<Rightarrow> Inr ()
         | Some (JObject properties) \<Rightarrow> allE_loop validate_schema_definition (map snd properties)
         | Some _ \<Rightarrow> err InvalidInput ''schema properties must be an object'') = Inr ()
     \<longleftrightarrow> (\<forall>ps. map_of schema ''properties'' = Some ps \<longrightarrow>
          (\<exists>known. ps = JObject known \<and> (\<forall>p \<in> snd ` set known. validate_schema_definition p = Inr ())))"
    by (auto simp: allE_loop_ok split: option.splits json.splits)
  have types: "\<not> (case map_of schema ''type'' of None \<Rightarrow> False
         | Some schema_type \<Rightarrow> \<not> (case as_str schema_type of None \<Rightarrow> False | Some t \<Rightarrow> supported_type t))
     \<longleftrightarrow> (\<forall>t. map_of schema ''type'' = Some t \<longrightarrow>
          t \<in> JString ` {''object'', ''array'', ''string'', ''number'', ''integer'', ''boolean'', ''null''})"
    unfolding supported_type_def image_iff by (auto split: option.splits)
  have obj: "\<not> ((map_of schema ''required'' \<noteq> None \<or> map_of schema ''properties'' \<noteq> None)
       \<and> Option.bind (map_of schema ''type'') as_str \<noteq> Some ''object'')
     \<longleftrightarrow> (map_of schema ''required'' \<noteq> None \<or> map_of schema ''properties'' \<noteq> None
        \<longrightarrow> map_of schema ''type'' = Some (JString ''object''))"
    by (auto simp: bind_eq_Some_conv)
  have addl: "\<not> (case map_of schema ''additionalProperties'' of None \<Rightarrow> False | Some value \<Rightarrow> \<not> is_boolean value)
     \<longleftrightarrow> (\<forall>a. map_of schema ''additionalProperties'' = Some a \<longrightarrow> a \<in> {JBool True, JBool False})"
    unfolding is_boolean_iff by (auto split: option.splits)
  show ?thesis
    unfolding validate_schema_definition.simps None option.case if_err_eq_Inr bindE_eq_Inr types obj addl
    using keys props by (auto simp: schema_shape_def required_check)
qed

lemma schema_is_object: "validate_schema_definition s = Inr () \<Longrightarrow> \<exists>schema. s = JObject schema"
  by (cases s) auto

lemma accepted_schemas: "validate_schema_definition s = Inr () \<longleftrightarrow> schema_language s"
proof (induction "size s" arbitrary: s rule: less_induct)
  case less
  show ?case
  proof (cases "\<exists>es. s = JObject es")
    case True
    then obtain es where es: "s = JObject es" ..
    have "validate_schema_definition p = Inr () \<longleftrightarrow> schema_language p"
      if "map_of es ''properties'' = Some (JObject known)" "p \<in> snd ` set known" for known p
      using less size_property [OF that(1), of p] that(2) es by simp
    then show ?thesis unfolding es validate_schema_ok schema_language_JObject by auto
  next
    case False
    then show ?thesis using schema_is_object by (blast elim: schema_languageE)
  qed
qed

section \<open>The validator is exact on accepted schemas\<close>

lemma type_object [simp]: "json_type ''object'' v \<longleftrightarrow> (\<exists>es. v = JObject es)"
  by (auto simp: json_type.simps)

lemma required_ok:
  "(case Option.bind r as_array of None \<Rightarrow> Inr ()
     | Some required \<Rightarrow> allE_loop (\<lambda>name. if map_of object name = None then err InvalidInput (m name) else Inr ())
         (strings_of required)) = Inr u
   \<longleftrightarrow> (\<forall>vs. r = Some (JArray vs) \<longrightarrow> set (strings_of vs) \<subseteq> dom (map_of object))"
  by (auto simp: allE_loop_ok bind_eq_Some_conv split: option.splits)

lemma closed_ok:
  "(if b then allE_loop (\<lambda>name. if \<not> (case ps of None \<Rightarrow> False | Some known \<Rightarrow> map_of known name \<noteq> None)
       then err InvalidInput (m name) else Inr ()) names else Inr ()) = Inr u
   \<longleftrightarrow> (b \<longrightarrow> (\<forall>name \<in> set names. \<exists>known. ps = Some known \<and> map_of known name \<noteq> None))"
  by (auto simp: allE_loop_ok split: option.splits)

declare validate_instance.simps [simp del]

lemma validate_members_ok:
  "validate_members (JObject schema) (JObject object) path = Inr () \<longleftrightarrow>
     (\<forall>vs. map_of schema ''required'' = Some (JArray vs) \<longrightarrow> set (strings_of vs) \<subseteq> dom (map_of object))
     \<and> (map_of schema ''additionalProperties'' = Some (JBool False) \<longrightarrow>
          (\<forall>name \<in> fst ` set object. \<exists>known. schema_properties schema = Some known \<and> map_of known name \<noteq> None))
     \<and> (\<forall>known name p w. schema_properties schema = Some known \<longrightarrow> (name, p) \<in> set known \<longrightarrow>
          map_of object name = Some w \<longrightarrow> validate_instance p w (path @ ''.'' @ name) = Inr ())"
proof -
  have props: "(case schema_properties schema of None \<Rightarrow> Inr ()
      | Some properties \<Rightarrow> allE_loop (\<lambda>(name, property_schema).
          (case map_of object name of None \<Rightarrow> Inr ()
           | Some property \<Rightarrow> validate_instance property_schema property (path @ ''.'' @ name))) properties) = Inr ()
    \<longleftrightarrow> (\<forall>known name p w. schema_properties schema = Some known \<longrightarrow> (name, p) \<in> set known \<longrightarrow>
          map_of object name = Some w \<longrightarrow> validate_instance p w (path @ ''.'' @ name) = Inr ())"
  proof (cases "schema_properties schema")
    case (Some known)
    have "(case x of (name, p) \<Rightarrow> case map_of object name of None \<Rightarrow> Inr ()
        | Some w \<Rightarrow> validate_instance p w (path @ ''.'' @ name)) = Inr () \<longleftrightarrow>
      (\<forall>w. map_of object (fst x) = Some w \<longrightarrow> validate_instance (snd x) w (path @ ''.'' @ fst x) = Inr ())" for x
      by (cases x) (simp split: option.splits)
    then show ?thesis unfolding Some option.case allE_loop_ok by force
  qed simp
  show ?thesis
    unfolding validate_members.simps bindE_eq_Inr required_ok closed_ok props set_map
    by (simp only: ex_simps all_simps simp_thms)
qed

lemma validate_instance_ok:
  "validate_instance schema value path = Inr () \<longleftrightarrow>
     (\<forall>t. json_get ''type'' schema = Some (JString t) \<longrightarrow> type_matches t value)
     \<and> validate_members schema value path = Inr ()"
proof -
  have some: "Option.bind (json_get ''type'' schema) as_str = Some t \<longleftrightarrow> json_get ''type'' schema = Some (JString t)" for t
    by (auto simp: bind_eq_Some_conv)
  show ?thesis
  proof (cases "Option.bind (json_get ''type'' schema) as_str")
    case None
    then have "json_get ''type'' schema \<noteq> Some (JString t)" for t using some [of t] by auto
    then show ?thesis unfolding validate_instance.simps None by simp
  next
    case (Some t)
    then have "json_get ''type'' schema = Some (JString t)" using some by simp
    then show ?thesis unfolding validate_instance.simps Some by simp
  qed
qed

lemma schema_properties_Some:
  "schema_properties es = Some known \<longleftrightarrow> map_of es ''properties'' = Some (JObject known)"
  by (simp add: schema_properties_def bind_eq_Some_conv)

lemma typed_check:
  "schema_shape es \<Longrightarrow> (\<forall>t. json_get ''type'' (JObject es) = Some (JString t) \<longrightarrow> type_matches t v) \<longleftrightarrow> typed_as es v"
  unfolding schema_shape_def typed_as_def type_matches_iff by auto

lemma required_check_exact:
  assumes "schema_shape es"
  shows "(\<forall>vs. map_of es ''required'' = Some (JArray vs) \<longrightarrow> set (strings_of vs) \<subseteq> dom (map_of object))
    \<longleftrightarrow> has_required es (JObject object)"
proof (cases "map_of es ''required''")
  case (Some r)
  then obtain names where "r = JArray (map JString names)" using assms by (auto simp: schema_shape_def)
  with Some show ?thesis by (auto simp: has_required_def inj_map_eq_map inj_def)
qed (simp add: has_required_def)

lemma shape_known_keywords: "schema_shape es \<Longrightarrow> known_keywords es"
  by (simp add: schema_shape_def)

lemma closed_check_exact:
  assumes "schema_shape es"
  shows "(map_of es ''additionalProperties'' = Some (JBool False) \<longrightarrow>
      (\<forall>name \<in> fst ` set object. \<exists>known. map_of es ''properties'' = Some (JObject known) \<and> map_of known name \<noteq> None))
    \<longleftrightarrow> no_additional es (JObject object)"
proof (cases "map_of es ''additionalProperties''")
  case (Some a)
  then have "a = JBool True \<or> a = JBool False" using assms by (simp add: schema_shape_def)
  then show ?thesis using Some by (elim disjE) (simp_all add: no_additional_def)
qed (simp add: no_additional_def)

lemma non_object_additional: "schema_shape es \<Longrightarrow> \<not> is_object v \<Longrightarrow> no_additional es v"
  by (cases v) (auto simp: schema_shape_def no_additional_def)

lemma non_object_schema:
  assumes "schema_shape es" and "typed_as es v" and "\<not> is_object v"
  shows "map_of es ''required'' = None" and "map_of es ''properties'' = None"
proof -
  have "map_of es ''type'' \<noteq> Some (JString ''object'')" using assms(2,3) by (auto simp: typed_as_def)
  then show "map_of es ''required'' = None" "map_of es ''properties'' = None"
    using assms(1) by (auto simp: schema_shape_def)
qed

lemma validate_non_object: "\<not> is_object v \<Longrightarrow> validate_members s v path = Inr ()"
  by (cases s; cases v) simp_all

lemma accepted_schema_exact:
  "validate_schema_definition schema = Inr () \<Longrightarrow>
   validate_instance schema v path = Inr () \<longleftrightarrow> conforms schema v"
proof (induction "size schema" arbitrary: schema v path rule: less_induct)
  case less
  obtain es where es: "schema = JObject es" using schema_is_object [OF less.prems] by blast
  from less.prems have shape: "schema_shape es"
    and props: "\<And>ps. map_of es ''properties'' = Some ps \<Longrightarrow>
      \<exists>known. ps = JObject known \<and> (\<forall>p \<in> snd ` set known. validate_schema_definition p = Inr ())"
    unfolding es validate_schema_ok by blast+
  have sub: "validate_instance p w q = Inr () \<longleftrightarrow> conforms p w"
    if "map_of es ''properties'' = Some (JObject known)" "(name, p) \<in> set known" for known name p w q
  proof -
    have "size p < size schema" using size_property [OF that(1), of p] that(2) es by force
    moreover have "validate_schema_definition p = Inr ()" using props [OF that(1)] that(2) by force
    ultimately show ?thesis using less.hyps by blast
  qed
  show ?case
  proof (cases "is_object v")
    case True
    then obtain object where v: "v = JObject object" by (cases v) auto
    have p: "(\<forall>known name p w. map_of es ''properties'' = Some (JObject known) \<longrightarrow> (name, p) \<in> set known \<longrightarrow>
          map_of object name = Some w \<longrightarrow> validate_instance p w (path @ ''.'' @ name) = Inr ()) \<longleftrightarrow>
        (\<forall>ps. map_of es ''properties'' = Some ps \<longrightarrow>
          (\<exists>known object'. ps = JObject known \<and> v = JObject object'
           \<and> (\<forall>name p w. (name, p) \<in> set known \<longrightarrow> map_of object' name = Some w \<longrightarrow> conforms p w)))"
    proof (cases "map_of es ''properties''")
      case (Some ps)
      then obtain known where ps: "ps = JObject known" using props by blast
      show ?thesis using sub Some unfolding ps v by simp
    qed simp
    show ?thesis
      unfolding validate_instance_ok es typed_check [OF shape] conforms_JObject
      unfolding v validate_members_ok required_check_exact [OF shape] schema_properties_Some p [unfolded v]
        closed_check_exact [OF shape]
      using shape_known_keywords [OF shape] by blast
  next
    case False
    show ?thesis
      unfolding validate_instance_ok es typed_check [OF shape] conforms_JObject validate_non_object [OF False]
      using non_object_schema [OF shape _ False] non_object_additional [OF shape False] shape_known_keywords [OF shape]
      by (auto simp: has_required_def)
  qed
qed

end
