(* ===== verification/RegistryRoots.thy ===== *)
theory RegistryRoots
  imports ToolRegistry
begin

text \<open>
  The root digest of the tool registry: it does not depend on the order in which the tools were
  registered, and it binds the name and the manifest digest of every registered tool.
\<close>

definition root_entry_value :: "tool_id \<Rightarrow> digest \<Rightarrow> json" where
  "root_entry_value i d = json_struct [(''tool_id'', JString i), (''manifest_digest'', digest_value d)]"

lemma root_entry_ok [result_simps]:
  "root_entry P t = Inr v \<longleftrightarrow> (\<exists>d. manifest_digest P t = Inr d \<and> v = root_entry_value (registered_id t) d)"
  by (auto simp: root_entry_def bindE_eq_Inr root_entry_value_def)

lemma root_entry_value_inj [simp]: "root_entry_value i d = root_entry_value j e \<longleftrightarrow> i = j \<and> d = e"
proof
  assume "root_entry_value i d = root_entry_value j e"
  then have "map_of (bt_collect [(''tool_id'', JString i), (''manifest_digest'', digest_value d)])
      = map_of (bt_collect [(''tool_id'', JString j), (''manifest_digest'', digest_value e)])"
    by (simp only: root_entry_value_def json_struct_def json.inject)
  from fun_cong [OF this, of "''tool_id''"] fun_cong [OF this, of "''manifest_digest''"]
  show "i = j \<and> d = e" by (simp add: bt_collect_lookup)
qed simp

lemma canonicalize_root_entry [simp]: "canonicalize_json (root_entry_value i d) = root_entry_value i d"
  by (rule canonicalize_id)
    (simp add: root_entry_value_def json_struct_def bt_collect_def bt_ok_def digest_value_def)

text \<open>The names and manifest digests of the registered tools.\<close>

definition tool_bindings :: "'cap platform \<Rightarrow> 'cap registered_tool list \<Rightarrow> (tool_id \<times> digest) set" where
  "tool_bindings P tools = {(registered_id t, d) | t d. t \<in> set tools \<and> manifest_digest P t = Inr d}"

lemma root_entries_bindings:
  assumes "mapE (root_entry P) tools = Inr es"
  shows "set es = (\<lambda>(i, d). root_entry_value i d) ` tool_bindings P tools"
proof (rule set_eqI, rule iffI)
  fix v assume "v \<in> set es"
  then obtain t where "t \<in> set tools" "root_entry P t = Inr v" using mapE_source [OF assms] by blast
  then show "v \<in> (\<lambda>(i, d). root_entry_value i d) ` tool_bindings P tools"
    by (force simp: root_entry_ok tool_bindings_def)
next
  fix v assume "v \<in> (\<lambda>(i, d). root_entry_value i d) ` tool_bindings P tools"
  then obtain t d where t: "t \<in> set tools" "manifest_digest P t = Inr d" "v = root_entry_value (registered_id t) d"
    by (auto simp: tool_bindings_def)
  then obtain w where "w \<in> set es" "root_entry P t = Inr w" using mapE_member [OF assms] by blast
  with t show "v \<in> set es" by (auto simp: root_entry_ok)
qed

lemma root_digest_ok:
  "root_digest_for_tools P tools = Inr d \<longleftrightarrow> (\<exists>es. mapE (root_entry P) tools = Inr es
     \<and> canonical_digest P ''aeon-tool-registry-root-v1'' (Inr (JArray (sort_key (json_display P) es))) = Inr d)"
  by (simp add: root_digest_for_tools_def bindE_eq_Inr)

lemma mapE_permuted:
  "mapE f xs = Inr ys \<Longrightarrow> mset xs = mset xs' \<Longrightarrow> \<exists>ys'. mapE f xs' = Inr ys' \<and> mset ys' = mset ys"
proof -
  assume ys: "mapE f xs = Inr ys" and perm: "mset xs = mset xs'"
  have ok: "f x = Inr (projr (f x))" if "x \<in> set xs" for x
    using mapE_member [OF ys that] by auto
  have "set xs = set xs'" using perm by (rule mset_eq_setD)
  then have "mapE f xs' = Inr (map (projr \<circ> f) xs')" using ok by (intro mapE_total) simp
  moreover have "ys = map (projr \<circ> f) xs" using ys mapE_total [of xs f "projr \<circ> f"] ok by simp
  moreover have "mset (map (projr \<circ> f) xs') = mset (map (projr \<circ> f) xs)" using perm by simp
  ultimately show ?thesis by blast
qed

lemma root_digest_permuted:
  assumes root: "root_digest_for_tools P tools = Inr d" and perm: "mset tools = mset tools'"
    and inj: "inj_on (json_display P) ((\<lambda>(i, d). root_entry_value i d) ` tool_bindings P tools)"
  shows "root_digest_for_tools P tools' = Inr d"
proof -
  obtain es where es: "mapE (root_entry P) tools = Inr es"
    and d: "canonical_digest P ''aeon-tool-registry-root-v1'' (Inr (JArray (sort_key (json_display P) es))) = Inr d"
    using root unfolding root_digest_ok by blast
  obtain es' where es': "mapE (root_entry P) tools' = Inr es'" "mset es' = mset es"
    using mapE_permuted [OF es perm] by blast
  have "sort_key (json_display P) es = sort_key (json_display P) es'"
    using es'(2) inj unfolding root_entries_bindings [OF es, symmetric]
    by (intro sort_key_inj_key_eq) simp_all
  with es'(1) d show ?thesis unfolding root_digest_ok by auto
qed

text \<open>The document the root digest hashes.\<close>

definition root_document :: "'cap platform \<Rightarrow> 'cap registered_tool list \<Rightarrow> json" where
  "root_document P tools = JArray (sort_key (json_display P) (projr (mapE (root_entry P) tools)))"

lemma root_digest_binds:
  assumes inj: "json_injective P"
    and root: "root_digest_for_tools P tools = Inr d" and root': "root_digest_for_tools P tools' = Inr d"
  shows "tool_bindings P tools = tool_bindings P tools'
    \<or> digest_collision P ''aeon-tool-registry-root-v1'' (Inr (root_document P tools)) (Inr (root_document P tools'))"
proof -
  let ?D = "''aeon-tool-registry-root-v1''"
  obtain es es' where es: "mapE (root_entry P) tools = Inr es" "mapE (root_entry P) tools' = Inr es'"
    and d: "canonical_digest P ?D (Inr (root_document P tools)) = Inr d"
      "canonical_digest P ?D (Inr (root_document P tools')) = Inr d"
    using root root' unfolding root_digest_ok root_document_def by auto
  have docs: "root_document P tools = JArray (sort_key (json_display P) es)"
    "root_document P tools' = JArray (sort_key (json_display P) es')"
    using es by (simp_all add: root_document_def)
  have fixed: "map canonicalize_json (sort_key (json_display P) xs) = sort_key (json_display P) xs"
    if "mapE (root_entry P) ts = Inr xs" for xs ts
    by (rule map_idI) (use that root_entries_bindings in fastforce)
  have inj_val: "inj (\<lambda>(i, d). root_entry_value i d)" by (rule injI) auto
  from canonical_digest_binds [OF d] show ?thesis
  proof
    assume "?D = ?D \<and> canonical_encoding P (Inr (root_document P tools)) = canonical_encoding P (Inr (root_document P tools'))"
    moreover obtain e where "canonical_encoding P (Inr (root_document P tools)) = Inr e"
      using d(1) by (auto simp: canonical_digest_eq_Inr)
    ultimately have "canonicalize_json (root_document P tools) = canonicalize_json (root_document P tools')"
      using canonical_encoding_inj [OF inj] by metis
    then have "sort_key (json_display P) es = sort_key (json_display P) es'"
      by (simp add: docs fixed [OF es(1)] fixed [OF es(2)])
    then have "set es = set es'" by (metis set_sort)
    then have "tool_bindings P tools = tool_bindings P tools'"
      unfolding root_entries_bindings [OF es(1)] root_entries_bindings [OF es(2)] inj_image_eq_iff [OF inj_val] .
    then show ?thesis ..
  qed (auto simp: digest_collision_def)
qed

lemma root_entries_distinct:
  "mapE (root_entry P) tools = Inr es \<Longrightarrow> distinct (map registered_id tools) \<Longrightarrow> distinct es"
proof (induction tools arbitrary: es)
  case (Cons t ts)
  then obtain e fs where e: "root_entry P t = Inr e" "mapE (root_entry P) ts = Inr fs" "es = e # fs"
    by (auto simp: bindE_eq_Inr)
  have "e \<notin> set fs"
  proof
    assume "e \<in> set fs"
    then obtain u where "u \<in> set ts" "root_entry P u = Inr e" using mapE_source [OF e(2)] by blast
    with e(1) Cons.prems(2) show False by (auto simp: root_entry_ok image_iff)
  qed
  with Cons e show ?case by simp
qed simp

lemma root_digest_same_bindings:
  assumes root: "root_digest_for_tools P tools = Inr d" "root_digest_for_tools P tools' = Inr d'"
    and ids: "distinct (map registered_id tools)" "distinct (map registered_id tools')"
    and same: "tool_bindings P tools = tool_bindings P tools'" and inj: "inj (json_display P)"
  shows "d = d'"
proof -
  obtain es es' where es: "mapE (root_entry P) tools = Inr es" "mapE (root_entry P) tools' = Inr es'"
    and d: "canonical_digest P ''aeon-tool-registry-root-v1'' (Inr (JArray (sort_key (json_display P) es))) = Inr d"
      "canonical_digest P ''aeon-tool-registry-root-v1'' (Inr (JArray (sort_key (json_display P) es'))) = Inr d'"
    using root unfolding root_digest_ok by blast
  have "set es = set es'" using root_entries_bindings es same by metis
  moreover have "distinct es" "distinct es'" using root_entries_distinct es ids by metis+
  ultimately have "mset es = mset es'" by (simp add: set_eq_iff_mset_eq_distinct)
  then have "sort_key (json_display P) es = sort_key (json_display P) es'"
    using inj by (intro sort_key_inj_key_eq) (auto intro: inj_on_subset)
  with d show ?thesis by simp
qed

end
