(* ===== verification/WireForms.thy ===== *)
theory WireForms
  imports ProtocolGate
begin

text \<open>
  The hand-written readers of the data types that restore an invariant when a value comes from outside
  (\<open>digest.rs\<close>, \<open>authority.rs\<close>): a digest is read through its hexadecimal form, an authority set from
  the members of its JSON form through its constructor, a canonical JSON document by canonicalizing what
  was read. Each reads back what its writer produced, and produces nothing the constructor would not.
  The reader of a single capability belongs to Nexus and is an argument.
\<close>

section \<open>The readers\<close>

definition digest_from_value :: "json \<Rightarrow> string + digest" where
  "digest_from_value v = bindE (decode_string v) (\<lambda>text. map_err error_display (from_hex text))"

text \<open>
  The derived reader of the helper struct, on the members as they are delivered: one known field, once;
  the form without names is a sequence of one element.
\<close>

fun decode_vec :: "(json \<Rightarrow> string + 'a) \<Rightarrow> json \<Rightarrow> string + 'a list" where
  "decode_vec decode (JArray vs) = mapE decode vs"
| "decode_vec decode _ = Inl ''invalid type''"

fun capabilities_members ::
  "(json \<Rightarrow> string + 'cap) \<Rightarrow> (string \<times> json) list \<Rightarrow> 'cap list option \<Rightarrow> string + 'cap list" where
  "capabilities_members decode [] None = Inl ''missing field `capabilities`''"
| "capabilities_members decode [] (Some caps) = Inr caps"
| "capabilities_members decode ((name, v) # members) seen =
     (if name \<noteq> ''capabilities'' then Inl (''unknown field `'' @ name @ ''`, expected `capabilities`'')
      else case seen of Some _ \<Rightarrow> Inl ''duplicate field `capabilities`''
      | None \<Rightarrow> bindE (decode_vec decode v) (\<lambda>caps. capabilities_members decode members (Some caps)))"

fun serialized_authority_set :: "(json \<Rightarrow> string + 'cap) \<Rightarrow> json \<Rightarrow> string + 'cap list" where
  "serialized_authority_set decode (JObject members) = capabilities_members decode members None"
| "serialized_authority_set decode (JArray [v]) = decode_vec decode v"
| "serialized_authority_set decode (JArray _) = Inl ''invalid length''"
| "serialized_authority_set decode _ = Inl ''invalid type''"

definition authority_set_from_value ::
  "'cap platform \<Rightarrow> (json \<Rightarrow> string + 'cap) \<Rightarrow> json \<Rightarrow> string + 'cap authority_set" where
  "authority_set_from_value P decode v =
     bindE (serialized_authority_set decode v) (\<lambda>caps. map_err error_display (new_authority_set P caps))"

text \<open>What the readers rely on: a capability is read back from what it is written as.\<close>

definition cap_reads_back :: "'cap platform \<Rightarrow> (json \<Rightarrow> string + 'cap) \<Rightarrow> bool" where
  "cap_reads_back P decode \<longleftrightarrow> (\<forall>c v. cap_to_value P c = Inr v \<longrightarrow> decode v = Inr c)"

definition canonical_json_value :: "json \<Rightarrow> json" where
  "canonical_json_value document = document"

definition canonical_json_from_value :: "string + json \<Rightarrow> string + json" where
  "canonical_json_from_value read = bindE read (\<lambda>v. Inr (new_canonical_json v))"

section \<open>Round trips\<close>

lemma digest_from_value_exact: "digest_from_value v = Inr d \<longleftrightarrow> digest_ok d \<and> v = digest_value d"
  using from_hex_canonical from_hex_to_hex
  by (auto simp: digest_from_value_def bindE_eq_Inr map_err_eq_Inr digest_value_def)

lemma new_authority_set_ok:
  "new_authority_set P cs = Inr a \<longleftrightarrow> cap_all P \<notin> set cs \<and> canonical_capabilities P cs = Inr (capabilities a)"
  by (cases a) (auto simp: new_authority_set_def bindE_eq_Inr list_ex_iff)

lemma capabilities_members_Cons:
  "capabilities_members decode ((name, v) # ms) seen = Inr cs \<longleftrightarrow> name = ''capabilities'' \<and> seen = None
     \<and> (\<exists>caps. decode_vec decode v = Inr caps \<and> capabilities_members decode ms (Some caps) = Inr cs)"
  by (cases seen) (simp_all add: bindE_eq_Inr)

declare capabilities_members.simps(3) [simp del]

lemma capabilities_members_Some: "capabilities_members decode ms (Some cs) = Inr ds \<longleftrightarrow> ms = [] \<and> ds = cs"
  by (cases ms) (auto simp: capabilities_members_Cons)

lemma decode_vec_ok: "decode_vec decode v = Inr cs \<longleftrightarrow> (\<exists>vs. v = JArray vs \<and> mapE decode vs = Inr cs)"
  by (cases v) auto

lemma serialized_ok:
  "serialized_authority_set decode v = Inr cs \<longleftrightarrow>
     (\<exists>vs. v \<in> {JObject [(''capabilities'', JArray vs)], JArray [JArray vs]} \<and> mapE decode vs = Inr cs)"
proof (cases v)
  case (JObject ms)
  show ?thesis unfolding JObject
    by (cases ms) (auto simp: capabilities_members_Cons capabilities_members_Some decode_vec_ok)
next
  case (JArray vs)
  show ?thesis unfolding JArray
    by (cases "(decode, JArray vs)" rule: serialized_authority_set.cases) (auto simp: decode_vec_ok)
qed auto

lemma authority_set_from_value_ok:
  "authority_set_from_value P decode v = Inr a \<longleftrightarrow>
     (\<exists>cs. serialized_authority_set decode v = Inr cs \<and> new_authority_set P cs = Inr a)"
  by (auto simp: authority_set_from_value_def bindE_eq_Inr map_err_eq_Inr)

text \<open>The canonical list of a constructed set: what is in it, once, in the order of the serialized forms.\<close>

lemma constructed_set:
  assumes "cap_keys_inj P" and "new_authority_set P cs = Inr a"
  shows "set (capabilities a) = set cs" "distinct (capabilities a)" "sorted (map (cap_key P) (capabilities a))"
    "cap_all P \<notin> set cs" "new_authority_set P (capabilities a) = Inr a"
proof -
  have ok: "canonical_capabilities P cs = Inr (capabilities a)" "cap_all P \<notin> set cs"
    using assms(2) by (simp_all add: new_authority_set_ok)
  note facts = canonical_capabilities_set [OF assms(1) ok(1)]
  show same: "set (capabilities a) = set cs" and "distinct (capabilities a)" "sorted (map (cap_key P) (capabilities a))"
    "cap_all P \<notin> set cs" using facts ok(2) by simp_all
  have "canonical_capabilities P (capabilities a) = Inr (capabilities a)"
    using canonical_capabilities_cong [OF assms(1) same] ok(1) by blast
  then show "new_authority_set P (capabilities a) = Inr a" using ok(2) same by (simp add: new_authority_set_ok)
qed

text \<open>An authority set that was constructed can be written, and what is written is read as the same set.\<close>

lemma written_capabilities:
  "(\<And>c. c \<in> set cs \<Longrightarrow> \<exists>v. cap_to_value P c = Inr v) \<Longrightarrow> cap_reads_back P decode \<Longrightarrow>
   \<exists>vs. mapE (cap_to_value P) cs = Inr vs \<and> mapE decode vs = Inr cs"
proof (induction cs)
  case (Cons c cs)
  then obtain v vs where "cap_to_value P c = Inr v" "mapE (cap_to_value P) cs = Inr vs" "mapE decode vs = Inr cs"
    by fastforce
  moreover from this have "decode v = Inr c" using Cons.prems(2) by (simp add: cap_reads_back_def)
  ultimately show ?case by simp
qed simp

lemma authority_set_round_trip:
  assumes "cap_keys_inj P" and "cap_reads_back P decode" and "new_authority_set P cs = Inr a"
  shows "\<exists>v. authority_set_value P a = Inr v \<and> authority_set_from_value P decode v = Inr a"
proof -
  have "canonical_capabilities P (capabilities a) = Inr (capabilities a)"
    using constructed_set(5) [OF assms(1,3)] by (simp add: new_authority_set_ok)
  then have "\<exists>v. cap_to_value P c = Inr v" if "c \<in> set (capabilities a)" for c
    using that by (auto simp: canonical_capabilities_eq_Inr capability_key_def bindE_eq_Inr map_err_eq_Inr)
  from written_capabilities [OF this assms(2)]
  obtain vs where vs: "mapE (cap_to_value P) (capabilities a) = Inr vs" "mapE decode vs = Inr (capabilities a)" by blast
  have "authority_set_from_value P decode (JObject [(''capabilities'', JArray vs)]) = Inr a"
    unfolding authority_set_from_value_ok serialized_ok using vs(2) constructed_set(5) [OF assms(1,3)] by blast
  with vs(1) show ?thesis
    by (simp add: authority_set_value_def capabilities_value_def json_struct_def bt_collect_def)
qed

lemma canonical_json_round_trip:
  "canonical_json_from_value (Inr (canonical_json_value (new_canonical_json v))) = Inr (new_canonical_json v)"
  by (simp add: canonical_json_from_value_def canonical_json_value_def new_canonical_json_def canonicalize_idem)

end
