(* ===== verification/DataProperties.thy ===== *)
theory DataProperties
  imports DemoPrinter ToolSchemas RegistryRoots WireForms
begin

text \<open>
  The properties of the data the runtime exchanges: what signatures and digests cover, which model
  output is a message, which tool input fits its schema, what the registry binds, and the round trips
  of identifiers and digests.
\<close>

section \<open>Signatures\<close>

text \<open>C31: An action certificate fixes the execution it was issued for. If two certificates carry one
  signature and each passes the check before execution, for its own execution and at its own time, then
  the certificates are equal in every field, the executions run the same tool under the same manifest
  digest, and their arguments are the same document, unless the signature is good for two byte strings
  or the hash function collides.\<close>

theorem certificate_fixes_execution:
  assumes "json_injective P" and "times_injective P"
    and "validate_action_certificate P a x custody now = Inr ()"
    and "validate_action_certificate P b y custody now' = Inr ()" and "ac_signature a = ac_signature b"
  shows "a = b \<and> ax_tool_id x = ax_tool_id y \<and> ax_tool_manifest_digest x = ax_tool_manifest_digest y
      \<and> (canonicalize_json (ax_arguments x) = canonicalize_json (ax_arguments y)
         \<or> digest_collision P ''aeon-concrete-input-v1'' (Inr (ax_arguments x)) (Inr (ax_arguments y)))
    \<or> signature_reused P (kc_verifying_key custody) (ac_signature a)"
proof (cases "signature_reused P (kc_verifying_key custody) (ac_signature a)")
  case False
  obtain p q where p: "action_signing_payload P a = Inr p" "ed25519_verify P (kc_verifying_key custody) p (ac_signature a)"
    and q: "action_signing_payload P b = Inr q" "ed25519_verify P (kc_verifying_key custody) q (ac_signature b)"
    using assms(3,4) unfolding validate_action_certificate_ok by blast
  then have "p = q" using False assms(5) by (auto simp: signature_reused_def)
  then have same: "a = b" using action_payload_covers [OF assms(1,2) p(1), of b] q(1) assms(5) by simp
  have "canonical_digest P ''aeon-concrete-input-v1'' (Inr (ax_arguments x)) = Inr (ac_concrete_input_digest a)"
    "canonical_digest P ''aeon-concrete-input-v1'' (Inr (ax_arguments y)) = Inr (ac_concrete_input_digest a)"
    using assms(3,4) same by (simp_all add: validate_action_certificate_ok)
  then have "canonicalize_json (ax_arguments x) = canonicalize_json (ax_arguments y)
      \<or> digest_collision P ''aeon-concrete-input-v1'' (Inr (ax_arguments x)) (Inr (ax_arguments y))"
    by (rule digest_binds_document [OF assms(1)])
  then show ?thesis using same assms(3,4) by (simp add: validate_action_certificate_ok)
qed simp

theorem certificate_fixes_execution_witness:
  "signature_reused print_platform (replicate 32 1) (replicate 64 1)"
proof -
  let ?x = "fst demo_authorized" and ?k = "demo_custody ''key-u0'' 1"
  let ?c = "\<lambda>i. (ax_certificate (fst demo_authorized))\<lparr>ac_certificate_id := i\<rparr>"
  have d: "canonical_digest print_platform ''aeon-concrete-input-v1'' (Inr (JObject [])) = Inr (demo_dd ''aeon-concrete-input-v1'')"
    by (simp add: canonical_digest_def canonical_encoding_def demo_hash_def demo_dd_def bt_collect_def)
  have ok: "validate_action_certificate print_platform (?c i) ?x ?k 2 = Inr ()" if "length i < 100" for i
    using demo_action_payload [OF that] d by (auto simp: validate_action_certificate_ok demo_sign_def)
  have "?c ''a'' \<noteq> ?c ''b''"
  proof
    assume "?c ''a'' = ?c ''b''"
    from arg_cong [OF this, of ac_certificate_id] show False by simp
  qed
  then show ?thesis
    using certificate_fixes_execution [OF print_json_injective print_times_injective ok [of "''a''"] ok [of "''b''"]] by simp
qed

text \<open>C32: The signature of a lease certificate covers every field of it. If two lease certificates carry
  one signature and both verify under one key, they are the same certificate, unless the signature is
  good for two byte strings: nobody can move a signature to a lease that grants more or lives longer.\<close>

theorem lease_signature_covers:
  assumes "json_injective P" and "times_injective P" and "cap_keys_inj P" and "json_total P"
    and "lease_verify_signature P a k = Inr ()" and "lease_verify_signature P b k = Inr ()"
    and "lc_signature a = lc_signature b"
  shows "a = b \<or> signature_reused P k (lc_signature a)"
  using lease_doc.one_signature [OF assms(5-7)]
proof
  assume "\<exists>p. lease_signing_payload P a = Inr p \<and> lease_signing_payload P b = Inr p"
  then obtain p where "lease_signing_payload P a = Inr p" "lease_signing_payload P b = Inr p" by blast
  from lease_payload_covers [OF assms(1-4) this] assms(7) show ?thesis by simp
qed (auto simp: signature_reused_def)

theorem lease_signature_covers_witness:
  "demo_cert\<lparr>lc_lease_id := ''a''\<rparr> \<noteq> demo_cert \<and> signature_reused print_platform (replicate 32 1) (replicate 64 1)"
proof -
  have sig: "lc_signature demo_cert = replicate 64 1" by (simp add: demo_cert_def)
  have id: "demo_cert\<lparr>lc_lease_id := ''lease-u1''\<rparr> = demo_cert" by (simp add: demo_cert_def)
  have ok: "lease_verify_signature print_platform (demo_cert\<lparr>lc_lease_id := i\<rparr>) (replicate 32 1) = Inr ()" if "length i < 100" for i
    using demo_lease_payload [OF that] sig by (auto simp: lease_doc.verify_iff demo_sign_def)
  have ne: "demo_cert\<lparr>lc_lease_id := ''a''\<rparr> \<noteq> demo_cert" by (simp add: demo_cert_def)
  then show ?thesis
    using lease_signature_covers [OF print_json_injective print_times_injective print_caps print_json_total
        ok [of "''a''"] ok [of "''lease-u1''", unfolded id]] sig by simp
qed

section \<open>Digests\<close>

text \<open>C33: A canonical digest identifies its document. Two documents with the same digest were hashed in
  the same domain and differ in the order of object members at most, unless the hash function collides;
  and documents that differ in the order of members only have the same digest in every domain.\<close>

theorem canonical_digest_identifies:
  assumes "json_injective P" and "distinct_keys v" and "distinct_keys w"
    and "canonical_digest P d (Inr v) = Inr h" and "canonical_digest P d' (Inr w) = Inr h'"
  shows "(h = h' \<longrightarrow> d = d' \<and> same_json v w
      \<or> (\<exists>e e'. canonical_encoding P (Inr v) = Inr e \<and> canonical_encoding P (Inr w) = Inr e'
           \<and> hash_collision P (frame d e) (frame d' e')))
    \<and> (d = d' \<and> same_json v w \<longrightarrow> h = h')"
proof (intro conjI impI)
  assume "h = h'"
  with assms(5) have "canonical_digest P d' (Inr w) = Inr h" by simp
  moreover obtain e where "canonical_encoding P (Inr v) = Inr e" using assms(4) by (auto simp: canonical_digest_eq_Inr)
  ultimately show "d = d' \<and> same_json v w \<or> (\<exists>e e'. canonical_encoding P (Inr v) = Inr e
      \<and> canonical_encoding P (Inr w) = Inr e' \<and> hash_collision P (frame d e) (frame d' e'))"
    using canonical_digest_binds [OF assms(4)] canonical_encoding_inj [OF assms(1)]
      same_canonical [OF assms(2,3)] by metis
next
  assume same: "d = d' \<and> same_json v w"
  then have "canonical_digest P d (Inr v) = canonical_digest P d' (Inr w)"
    using canonicalize_same [of v w] by (simp add: canonical_digest_def canonical_encoding_def)
  with assms(4,5) show "h = h'" by simp
qed

theorem canonical_digest_identifies_witness:
  "canonical_digest print_platform ''d'' (Inr (JObject [(''a'', JNull), (''b'', JBool True)]))
   = canonical_digest print_platform ''d'' (Inr (JObject [(''b'', JBool True), (''a'', JNull)]))"
proof -
  let ?v = "JObject [(''a'', JNull), (''b'', JBool True)]" and ?w = "JObject [(''b'', JBool True), (''a'', JNull)]"
  have same: "same_json ?v ?w" by (rule same_object) (auto intro: same_json.intros)
  have "\<exists>h. canonical_digest print_platform ''d'' (Inr x) = Inr h" for x
    by (simp add: canonical_digest_def canonical_encoding_def)
  then obtain h h' where h: "canonical_digest print_platform ''d'' (Inr ?v) = Inr h"
    "canonical_digest print_platform ''d'' (Inr ?w) = Inr h'" by blast
  have "distinct_keys ?v" "distinct_keys ?w" by simp_all
  from canonical_digest_identifies [OF print_json_injective this h] same h show ?thesis by simp
qed

text \<open>C34: The digest of a semantic context is the identity of what determines the behaviour of the model.
  Continuing under a recorded digest is accepted for every context that agrees with the recorded one in
  the model, the instruction, the registry root, the set of bound tool digests, the protocol, the policy
  epoch and the generations of memory and index, whatever its version and the order of its tools; and it
  is accepted for no other context, unless the hash function collides.\<close>

theorem context_continuation_exact:
  assumes "json_injective P" and "context_canonical_digest P a = Inr d"
  shows "(same_material a c \<longrightarrow> validate_context_continuation P d c = Inr Exact)
    \<and> (validate_context_continuation P d c = Inr Exact \<longrightarrow> same_material a c
         \<or> digest_collision P ''aeon-semantic-context-v1''
             (Inr (json_struct (context_identity a))) (Inr (json_struct (context_identity c))))"
  using context_identity_same [of a c] context_digest_binds [OF assms, of c] assms(2)
  by (auto simp: validate_context_continuation_ok context_canonical_digest_def)

theorem context_continuation_exact_witness:
  "\<exists>d. context_canonical_digest print_platform demo_context = Inr d
    \<and> validate_context_continuation print_platform d (demo_context\<lparr>sc_context_version := 77\<rparr>) = Inr Exact"
proof -
  obtain d where d: "context_canonical_digest print_platform demo_context = Inr d"
    by (simp add: context_canonical_digest_def canonical_digest_def canonical_encoding_def)
  have "same_material demo_context (demo_context\<lparr>sc_context_version := 77\<rparr>)" by (simp add: same_material_def)
  with context_continuation_exact [OF print_json_injective d] d show ?thesis by blast
qed

section \<open>Messages and inputs\<close>

text \<open>C35: The protocol gate reads back exactly what a message serializes to. Raw model output is accepted
  as a message precisely when it is within the size limit, is one JSON object with nothing after it, and
  its members are those the message serializes to, each once and in any order, with a well-formed tool
  id; anything else is refused as too large or as malformed.\<close>

theorem protocol_message_exact:
  "(parse_message P gate raw = Inr m \<longleftrightarrow> length raw \<le> pg_max_output_bytes gate
      \<and> js_broken (json_stream P raw) = None \<and> js_trailing (json_stream P raw) = None \<and> message_ids_ok m
      \<and> (\<exists>ws. message_members m = Inr ws \<and> mset (js_members (json_stream P raw)) = mset ws))
   \<and> (\<forall>e. parse_message P gate raw = Inl e \<longrightarrow>
        code e = (if length raw > pg_max_output_bytes gate then OutputTooLarge else MalformedProtocol))"
  using parse_message_code [of P gate raw] unfolding parse_message_ok protocol_members_perm by blast

theorem protocol_message_exact_witness:
  "parse_message demo_platform default_gate ''call''
     = Inr (ToolCall \<lparr>tp_tool_id = ''echo'', tp_arguments = JObject []\<rparr>)
   \<and> code (projl (parse_message demo_platform \<lparr>pg_max_output_bytes = 3\<rparr> ''call'')) = OutputTooLarge"
proof -
  have "new_id ''tool id'' ''echo'' = Inr ''echo''" by code_simp
  then have "parse_message demo_platform default_gate ''call''
     = Inr (ToolCall \<lparr>tp_tool_id = ''echo'', tp_arguments = JObject []\<rparr>)"
    using protocol_message_exact [of demo_platform default_gate "''call''"]
    by (simp add: default_gate_def DEFAULT_MAX_OUTPUT_BYTES_def)
  moreover have "\<exists>e. parse_message demo_platform \<lparr>pg_max_output_bytes = 3\<rparr> ''call'' = Inl e"
    by (simp add: parse_message_def)
  ultimately show ?thesis
    using protocol_message_exact [of demo_platform "\<lparr>pg_max_output_bytes = 3\<rparr>" "''call''"] by auto
qed

text \<open>C36: A registered tool accepts exactly the inputs that conform to its schema. The registry accepts
  exactly the well-formed schemas: objects with the four known keywords only, a type that is one of the
  seven names, required names and property schemas of an object type, a boolean for additional
  properties, at every depth. The validator of a registered tool succeeds on an input if and only if the
  input conforms to the schema in the strict reading, in which a keyword that is unknown or has the
  wrong shape describes no value: nothing of the schema is silently skipped.\<close>

theorem tool_input_exact:
  "(validate_schema_definition schema = Inr () \<longleftrightarrow> schema_language schema)
   \<and> (new_registered_tool P i wasm entry schema caps effect out_schema = Inr t \<longrightarrow>
        schema_language schema \<and> (validate_input t v = Inr () \<longleftrightarrow> conforms schema v))"
proof -
  have "validate_schema_definition schema = Inr () \<and> rt_input_schema t = schema"
    if "new_registered_tool P i wasm entry schema caps effect out_schema = Inr t"
    using that unfolding new_registered_tool_def new_tool_manifest_def bindE_eq_Inr if_err_eq_Inr by auto
  then show ?thesis using accepted_schemas accepted_schema_exact by (auto simp: validate_input_def)
qed

theorem tool_input_exact_witness:
  "conforms (JObject [(''type'', JString ''object''), (''required'', JArray [JString ''x'']),
       (''properties'', JObject [(''x'', JObject [(''type'', JString ''string'')])])]) (JObject [(''x'', JString ''hi'')])
   \<and> \<not> schema_language (JObject [(''type'', JString ''string''), (''pattern'', JString ''a*'')])"
proof
  let ?s = "JObject [(''type'', JString ''object''), (''required'', JArray [JString ''x'']),
       (''properties'', JObject [(''x'', JObject [(''type'', JString ''string'')])])]"
  obtain t where t: "new_registered_tool demo_platform ''echo'' [0] ''run'' ?s [] ReadOnly None = Inr t"
    "rt_input_schema t = ?s"
    by (simp add: new_registered_tool_def new_tool_manifest_def SUPPORTED_KEYWORDS_def supported_type_def sort_capabilities_def
        trim_is_empty_def chars_def is_whitespace_def byte_val_def)
  have "validate_input t (JObject [(''x'', JString ''hi'')]) = Inr ()"
    by (simp add: validate_input_def t(2) validate_instance.simps type_matches_def strings_of_def map_filter_simps
        schema_properties_def)
  then show "conforms ?s (JObject [(''x'', JString ''hi'')])"
    using tool_input_exact [of ?s demo_platform "''echo''" "[0]" "''run''" "[]" ReadOnly None t] t(1) by blast
  have "validate_schema_definition (JObject [(''type'', JString ''string''), (''pattern'', JString ''a*'')]) \<noteq> Inr ()"
    by (simp add: SUPPORTED_KEYWORDS_def)
  then show "\<not> schema_language (JObject [(''type'', JString ''string''), (''pattern'', JString ''a*'')])"
    using tool_input_exact by blast
qed

section \<open>The registry\<close>

text \<open>The registry itself admits a tool that requires the capability for everything, and binds it by its
  digest like any other; it is the action gate that refuses to authorize it.\<close>

lemma registry_admits_capability_all:
  "\<exists>t r. new_registered_tool demo_platform ''echo'' [0] ''run'' (JObject []) [cap_all demo_platform] ReadOnly None = Inr t
    \<and> from_tools [t] = Inr r \<and> tm_required_capabilities (rt_manifest t) = [cap_all demo_platform]
    \<and> (\<forall>mission granted. \<exists>e. check_capabilities demo_platform mission granted (tm_required_capabilities (rt_manifest t)) = Inl e
         \<and> code e = CapabilityAllForbidden)"
  by (simp add: new_registered_tool_def new_tool_manifest_def SUPPORTED_KEYWORDS_def sort_capabilities_def trim_is_empty_def
      chars_def is_whitespace_def byte_val_def from_tools_def check_capabilities_def)

text \<open>C37: The manifest an execution works with is the live one. Resolving a tool together with a
  capability manifest yields the registered tool of that name and the manifest with every approved tool
  bound to the digest the registry holds now and with the root of the whole registry; resolving again
  with it changes nothing, and the manifest comes back unchanged exactly when every binding and the root
  were still current: any drift of a tool or of the registry shows.\<close>

theorem manifest_is_live:
  assumes "resolve_with_capability_manifest P r i template = Inr (t, m)"
  shows "t \<in> set (tr_tools r) \<and> registered_id t = i
    \<and> map bt_tool_id (cm_approved_tools m) = map bt_tool_id (cm_approved_tools template)
    \<and> registry_root_digest P r = Inr (cm_tool_registry_root_digest m)
    \<and> (\<forall>b \<in> set (cm_approved_tools m). \<exists>u. resolve_tool r (bt_tool_id b) = Inr u
         \<and> manifest_digest P u = Inr (bt_manifest_digest b))
    \<and> resolve_with_capability_manifest P r i m = Inr (t, m)
    \<and> (m = template \<longleftrightarrow> registry_root_digest P r = Inr (cm_tool_registry_root_digest template)
         \<and> (\<forall>b \<in> set (cm_approved_tools template). \<exists>u. resolve_tool r (bt_tool_id b) = Inr u
              \<and> manifest_digest P u = Inr (bt_manifest_digest b)))"
proof -
  have r: "\<not> tr_poisoned r" "find_tool (tr_tools r) i = Inr t"
    "refresh_capability_manifest_for_tools P (tr_tools r) template = Inr m"
    using assms unfolding resolve_with_ok by blast+
  have live: "resolve_tool r j = find_tool (tr_tools r) j"
    "registry_root_digest P r = root_digest_for_tools P (tr_tools r)" for j
    using r(1) by (simp_all add: resolve_tool_def registry_root_digest_def read_tools_def)
  note ids = refresh_ids [OF r(3)] and root = refresh_root [OF r(3)] and bind = refresh_bindings [OF r(3)]
  have again: "resolve_with_capability_manifest P r i m = Inr (t, m)"
    unfolding resolve_with_ok using r refresh_idem by blast
  have "m = template" if cur: "root_digest_for_tools P (tr_tools r) = Inr (cm_tool_registry_root_digest template)"
    "\<forall>b \<in> set (cm_approved_tools template). \<exists>u. find_tool (tr_tools r) (bt_tool_id b) = Inr u
              \<and> manifest_digest P u = Inr (bt_manifest_digest b)"
    using refresh_current [OF r(3)] that by blast
  then show ?thesis unfolding live using find_tool_ok [OF r(2)] ids root bind again by blast
qed

theorem manifest_is_live_witness:
  "resolve_with_capability_manifest demo_platform demo_registry ''echo'' demo_caps_manifest = Inr (demo_tool, demo_caps_manifest)
   \<and> registry_root_digest demo_platform demo_registry = Inr (cm_tool_registry_root_digest demo_caps_manifest)"
proof -
  have r: "resolve_with_capability_manifest demo_platform demo_registry ''echo'' demo_caps_manifest = Inr (demo_tool, demo_caps_manifest)"
    by (simp add: resolve_with_capability_manifest_def read_tools_def demo_registry_def)
  from manifest_is_live [OF r] r show ?thesis by blast
qed

text \<open>C38: The root digest of a registry identifies its tools. Two registries with the same names bound to
  the same manifest digests have the same root, in whatever order the tools were given; and registries
  with the same root bind the same names to the same digests, unless the hash function collides.\<close>

theorem registry_root_identifies:
  assumes "json_injective P" and "inj (json_display P)"
    and "from_tools ts = Inr r" and "from_tools us = Inr q"
    and "registry_root_digest P r = Inr d" and "registry_root_digest P q = Inr e"
  shows "(tool_bindings P ts = tool_bindings P us \<longrightarrow> d = e)
    \<and> (d = e \<longrightarrow> tool_bindings P ts = tool_bindings P us
         \<or> digest_collision P ''aeon-tool-registry-root-v1'' (Inr (root_document P ts)) (Inr (root_document P us)))"
proof -
  have "distinct (map registered_id ts)" "distinct (map registered_id us)"
    "root_digest_for_tools P ts = Inr d" "root_digest_for_tools P us = Inr e"
    using assms(3-6) by (auto simp: from_tools_ok registry_root_digest_def read_tools_def)
  then show ?thesis
    using root_digest_same_bindings [of P ts d us e] root_digest_binds [OF assms(1), of ts d us] assms(2) by blast
qed

theorem registry_root_identifies_witness:
  "\<exists>r q d. from_tools [demo_tool, demo_tool2] = Inr r \<and> from_tools [demo_tool2, demo_tool] = Inr q
    \<and> registry_root_digest print_platform r = Inr d \<and> registry_root_digest print_platform q = Inr d"
proof -
  obtain r q where r: "from_tools [demo_tool, demo_tool2] = Inr r" "from_tools [demo_tool2, demo_tool] = Inr q"
    by (simp add: from_tools_def demo_tool2_def)
  obtain h h' where h: "registry_root_digest print_platform r = Inr h" "registry_root_digest print_platform q = Inr h'"
    using r print_root [of "[demo_tool, demo_tool2]"] print_root [of "[demo_tool2, demo_tool]"]
    by (auto simp: from_tools_ok registry_root_digest_def read_tools_def)
  have "tool_bindings print_platform [demo_tool, demo_tool2] = tool_bindings print_platform [demo_tool2, demo_tool]"
    by (auto simp: tool_bindings_def)
  with registry_root_identifies [OF print_json_injective print_display_injective r h] r h show ?thesis by blast
qed

section \<open>Values from outside\<close>

lemma separators: "is_ascii_alphanumeric (byte_val c) \<or> c \<in> set ''-_.:/@'' \<longleftrightarrow> ident_rest_char (byte_val c)"
proof -
  have "byte_val c = 0x2D \<longleftrightarrow> c = CHR ''-''" "byte_val c = 0x5F \<longleftrightarrow> c = CHR ''_''" "byte_val c = 0x2E \<longleftrightarrow> c = CHR ''.''"
    "byte_val c = 0x3A \<longleftrightarrow> c = CHR '':''" "byte_val c = 0x2F \<longleftrightarrow> c = CHR ''/''" "byte_val c = 0x40 \<longleftrightarrow> c = CHR ''@''"
    unfolding byte_val_inj [of c, symmetric] by (simp_all add: byte_val_def)
  then show ?thesis by (simp add: ident_rest_char_def)
qed

text \<open>C39: Identifiers are what their type promises. Constructing an identifier from a string succeeds
  exactly when the string has 1 to 128 bytes, starts with an ASCII letter or digit and goes on with
  letters, digits and the six separators \<open>- _ . : / @\<close>, and then the identifier is the string itself; every other
  string, whatever characters its UTF-8 holds, is refused as an invalid identifier.\<close>

theorem identifier_exact:
  assumes "str_ok s"
  shows "(new_id kind s = Inr i \<longleftrightarrow> i = s \<and> s \<noteq> [] \<and> length s \<le> 128 \<and> is_ascii_alphanumeric (byte_val (hd s))
      \<and> (\<forall>c \<in> set (tl s). is_ascii_alphanumeric (byte_val c) \<or> c \<in> set ''-_.:/@''))
    \<and> (\<forall>e. new_id kind s = Inl e \<longrightarrow> code e = InvalidIdentifier)"
  using validate_identifier_iff [OF assms, of kind] validate_identifier_code [of kind s]
  unfolding separators by (cases "validate_identifier kind s") (auto simp: list_all_iff new_id_def)

theorem identifier_exact_witness:
  "new_id ''tool id'' ''a/b'' = Inr ''a/b'' \<and> code (projl (new_id ''tool id'' ''-a'')) = InvalidIdentifier"
proof -
  have ok: "str_ok ''a/b''" "str_ok ''-a''" by code_simp+
  have "new_id ''tool id'' ''a/b'' = Inr ''a/b''"
    using identifier_exact [OF ok(1), of "''tool id''" "''a/b''"]
    by (simp add: is_ascii_alphanumeric_def byte_val_def)
  moreover have "new_id ''tool id'' ''-a'' \<noteq> Inr i" for i
    using identifier_exact [OF ok(2), of "''tool id''" i] by (simp add: is_ascii_alphanumeric_def byte_val_def)
  then obtain e where e: "new_id ''tool id'' ''-a'' = Inl e" by (metis sum.exhaust)
  then have "code e = InvalidIdentifier" using identifier_exact [OF ok(2), of "''tool id''"] by blast
  ultimately show ?thesis using e by simp
qed

text \<open>C40: What is written can be read back, and only well-formed values come from outside. A digest is
  read exactly from the lower-case hexadecimal form of its 32 bytes, as a string and as a JSON value.
  An authority set that was constructed can be written, and reading what was written gives the same set.
  The reader accepts an object whose only member is the list of capabilities, or the sequence of that
  list alone, and nothing else: a missing, repeated or unknown member is refused. The set it reads has
  the capabilities of the list and no others, each once and in canonical order, and never the
  capability for everything. The reader of one capability is the one of Nexus, which is assumed to read
  back what its writer writes.\<close>

theorem wire_values_restored:
  assumes "cap_keys_inj P" and "cap_reads_back P decode"
  shows "(from_hex s = Inr d \<longleftrightarrow> digest_ok d \<and> s = to_hex d)
    \<and> (digest_from_value v = Inr d \<longleftrightarrow> digest_ok d \<and> v = digest_value d)
    \<and> (new_authority_set P cs = Inr a \<longrightarrow>
        (\<exists>w. authority_set_value P a = Inr w \<and> authority_set_from_value P decode w = Inr a))
    \<and> (authority_set_from_value P decode v = Inr a \<longleftrightarrow>
        (\<exists>vs ds. v \<in> {JObject [(''capabilities'', JArray vs)], JArray [JArray vs]}
           \<and> list_all2 (\<lambda>v d. decode v = Inr d) vs ds \<and> new_authority_set P ds = Inr a))
    \<and> (new_authority_set P cs = Inr a \<longrightarrow> cap_all P \<notin> set cs \<and> set (capabilities a) = set cs
        \<and> distinct (capabilities a) \<and> sorted (map (cap_key P) (capabilities a)))"
  using digest_from_value_exact [of v d] from_hex_canonical from_hex_to_hex authority_set_round_trip [OF assms]
    constructed_set [OF assms(1)] unfolding authority_set_from_value_ok serialized_ok mapE_eq_Inr by blast

theorem wire_values_restored_witness:
  "from_hex (to_hex demo_digest) = Inr demo_digest
   \<and> (\<exists>w. authority_set_value print_platform (AuthoritySet [''fs'', ''net'']) = Inr w
        \<and> authority_set_from_value print_platform decode_string w = Inr (AuthoritySet [''fs'', ''net'']))"
proof -
  have reads: "cap_reads_back print_platform decode_string" by (simp add: cap_reads_back_def)
  have "digest_ok demo_digest" by (simp add: digest_ok_def demo_digest_def DIGEST_BYTES_def)
  then have "from_hex (to_hex demo_digest) = Inr demo_digest" using wire_values_restored [OF print_caps reads] by blast
  moreover have "new_authority_set print_platform [''net'', ''fs''] = Inr (AuthoritySet [''fs'', ''net''])"
    by (simp add: new_authority_set_def canonical_capabilities_def capability_key_def canonical_value_bytes_def
        print_platform_def byte_of_def byte_val_def)
  ultimately show ?thesis
    using wire_values_restored [OF print_caps reads, of "[]" demo_digest JNull "[''net'', ''fs'']" "AuthoritySet [''fs'', ''net'']"]
    by blast
qed

end
