(* ===== verification/Spec2Isabelle.thy ===== *)
theory Spec2Isabelle
  imports KernelProperties StoreProperties DemoRuntime ExecutionProperties DataProperties
begin

text \<open>
  \<^bold>\<open>A verification of the AEON agent runtime\<close> (\<open>src/crates/aeon_agent_runtime/src\<close>).

  \<^bold>\<open>The program.\<close> The crate runs one agent on one mission. A \<^emph>\<open>mission envelope\<close> says which tools and
  capabilities may be used, until when and how often. The \<^emph>\<open>authority kernel\<close> holds the signed
  identities of agents and a tree of signed \<^emph>\<open>leases\<close>; it delegates, renews, pauses, resumes, expires
  and revokes them and validates the chain from a lease to the root. The \<^emph>\<open>tool registry\<close> holds WASM
  tools with their manifests and input schemas. The \<^emph>\<open>supervisor\<close> takes a step of the agent: it calls
  the model, reads the answer through the \<^emph>\<open>protocol gate\<close>, lets the \<^emph>\<open>action gate\<close> authorize a tool
  call, records the authorization in the \<^emph>\<open>mission store\<close> and hands it to the \<^emph>\<open>execution port\<close>, which
  revalidates everything under one guard of the kernel, spends the authorization, issues Nexus tokens
  and only then enters Nexus. Both the kernel and the store keep event logs.

  \<^bold>\<open>How the model corresponds to the code.\<close> A struct is a record, an enum a datatype with the variants
  of the source, a \<open>Result\<close> a sum with the error (code and message) on the left, a \<open>u64\<close> a 64-bit word.
  Code on shared state is a function of type \<open>exec\<close> from a state to a result and a state, so an early
  return leaves the state of that moment. A \<open>HashMap\<close> is an association list with distinct keys, a
  \<open>BTreeMap\<close> one that is sorted; both fulfil the locale \<open>dictionary\<close>. A \<open>String\<close> is its list of UTF-8
  bytes; a time stamp is an integer. A lock is a value with a poison flag.
    \<^item> \<open>AeonPrelude\<close>: results and state passing, dictionaries, sorting and removal of duplicates.
    \<^item> \<open>RuntimeErrors\<close> (\<open>error.rs\<close>), \<open>Identifiers\<close> (\<open>ids.rs\<close>), \<open>CanonicalDigest\<close> (\<open>digest.rs\<close>),
      \<open>AuthorityModel\<close> (\<open>mission.rs\<close>, \<open>authority.rs\<close>), \<open>AgentIdentityModel\<close> (\<open>identity.rs\<close>),
      \<open>AgentModel\<close> (\<open>agent.rs\<close>), \<open>ActionModel\<close> (\<open>action.rs\<close>), \<open>WireForms\<close> (the hand-written readers).
    \<^item> \<open>ChainValidation\<close> (\<open>authority_kernel/validation.rs\<close>), \<open>LeaseTree\<close> and \<open>AuthorityKernel\<close>
      (\<open>authority_kernel.rs\<close>).
    \<^item> \<open>MissionStore\<close> (\<open>store.rs\<close>), \<open>ToolRegistry\<close> (\<open>tool_registry.rs\<close>), \<open>ProtocolGate\<close> (\<open>protocol.rs\<close>),
      \<open>ContextResolver\<close> (\<open>context.rs\<close>), \<open>ExecutionPort\<close> (\<open>execution.rs\<close>), \<open>Supervisor\<close>
      (\<open>supervisor.rs\<close> and the model client of \<open>model.rs\<close>).

  \<^bold>\<open>What is outside.\<close> SHA-256, the JSON printer and reader, Ed25519, the RFC 3339 rendering and the
  capability type of Nexus are fields of the record \<open>platform\<close>; the Nexus hypervisor is the record
  \<open>nexus\<close>; the model is the record \<open>model_client\<close>. None of them has a definition. A model client is a
  function of the request; as a step of the agent calls the model once, that is no restriction for one
  call, and in a run every call has a client and a Nexus of its own, so the same request may be answered
  differently from call to call. What a theorem needs of
  them is a named hypothesis: \<open>cap_trans\<close> (the subset order of capabilities is transitive), \<open>json_total\<close>
  (values can be printed), \<open>json_injective\<close>, \<open>times_injective\<close> and \<open>cap_keys_inj\<close> (different values, times and
  capabilities print differently), \<open>cap_reads_back\<close> (a printed capability is read as itself). No hash or signature is idealised: a theorem about digests ends in
  "or these two byte strings collide", one about signatures in "or the signature is good for two byte
  strings". Random ids and readings of the clock are arguments; a fresh lease id is assumed unused where
  a theorem needs it. Two platforms are given for the examples: \<open>DemoPlatform\<close> (with a mission, and in
  \<open>DemoRuntime\<close> a whole runtime that is bootstrapped and stepped) and \<open>DemoPrinter\<close>, whose printer is
  injective.

  \<^bold>\<open>Concurrency.\<close> A call of the runtime holds a lock over some of its steps and none in between. The
  places in between are numbered \<^emph>\<open>yields\<close>: a \<open>schedule\<close> gives for every yield the change that other calls
  make there, with the clock and the random ids. Theorems about one call (C15, C22, C26 to C30) hold for every
  schedule, or for every schedule in which other calls behave as calls do. Whole runs (\<open>RuntimeRuns\<close>) are
  sequences of calls in whose yields other runs take place, to any depth, so calls overlap as far as one
  call completes within a gap of another.
  Under the guard of a commit there is no yield: the kernel cannot change there, the semantic context
  is written at bootstrap only, and the one step on the store is a single locked operation.

  \<^bold>\<open>What the lemmas show.\<close>
    \<^item> \<open>KernelInvariant\<close>, \<open>KernelIssue\<close>, \<open>KernelSafety\<close>, \<open>KernelRuns\<close>, \<open>KernelLog\<close>: every operation of
      the kernel, successful or not, keeps the invariant of the lease table and only moves leases
      forward; the step relation \<open>kernel_run\<close> and the reachable states. \<open>KernelHistory\<close>: replaying the
      authority log gives the state and the generation of every lease, so equal generations mean an
      unchanged lease. \<open>KernelProperties\<close>: C1 to C12, C14 and C16.
    \<^item> \<open>StoreRuns\<close>, \<open>StoreHistory\<close>: single use of authorizations, the log, and the check of the recorded
      history against an attempt state machine. \<open>StoreProperties\<close>: C17 to C21.
    \<^item> \<open>ExecLogic\<close>: a calculus of pre- and postconditions for the state-passing code.
      \<open>AttemptTrace\<close>, \<open>RunFrames\<close>, \<open>RuntimeRuns\<close>, \<open>SupervisorRuns\<close>, \<open>RuntimeHistory\<close>, \<open>RuntimeBootstrap\<close>:
      one attempt under interference, what a call leaves alone, how it advances the five counters that
      meter model calls, gates, the port and Nexus against what it reserved (\<open>tally\<close>), runs of calls.
      C22 to C25 below.
    \<^item> \<open>ExecutionSafety\<close>: the commit point and the gates, inverted. \<open>ExecutionProperties\<close>: C13, C15, and
      C26 to C30.
    \<^item> \<open>SignatureCoverage\<close>, \<open>ToolSchemas\<close>, \<open>RegistryRoots\<close>, \<open>WireForms\<close>: what signatures and digests
      bind, the schema language against a strict reading that does not use the code's tests, reading
      back what was written. \<open>DataProperties\<close>: C31 to C40.

  The interfaces are locales: \<open>dictionary\<close> (hash maps, ordered maps), \<open>event_log\<close> (both logs),
  \<open>signed_document\<close> (leases, identities, action certificates), \<open>attempt_world\<close> (what an attempt relies on)
  and the chain \<open>run_frame\<close>, \<open>action_world\<close>, \<open>step_world\<close>, \<open>call_world\<close> (what a call leaves alone and how it
  spends its reservations), each interpreted for the definitions of the model.

  \<^bold>\<open>Termination and bounds.\<close> There is no fuel. The walks up the chain and the identities stop at the
  depth bound of the source (\<open>MAX_AUTHORITY_CHAIN_DEPTH\<close>), the search for descendants by a measure on the
  unseen leases, the JSON recursions by size; all functions are total. Generations and counters are
  words that wrap around, as in a release build; C18 shows that the budget of an authorization does not
  underflow and C24 that the reservations of a runtime and its counters, but for the one of issued
  tokens, do not wrap. A generation counts the changes of a lease modulo \<open>2 ^ 64\<close> (C6), so C13, which
  tells from equal generations that nothing changed, assumes fewer events than that in between.

  \<^bold>\<open>Not modelled.\<close> Futures that are dropped before they complete and panics inside a critical section
  (a lock that is already poisoned is modelled, in C15 and in every operation); calls that overlap without
  one completing within a gap of the other, beyond what an arbitrary schedule says; the \<open>Debug\<close>
  implementations, the test hooks and test modules, the accessors of single fields, and \<open>lib.rs\<close>,
  which declares modules and re-exports; the readers and writers that \<open>serde\<close> derives, apart from the
  documents that are hashed, signed or exchanged with the model.
\<close>

section \<open>Attempts and their history\<close>

text \<open>C22: An attempt records what it did, whatever other calls do in between. As long as the steps of
  other calls on the store are steps of other attempts, the events of an attempt tell its outcome:
  a returned execution or final result has exactly its sequence of events, an error is recorded as
  the last event, with its code, of a complete sequence, and the attempt has consumed exactly as
  many authorizations as its events show.\<close>

theorem attempt_trace_tells_outcome:
  assumes "\<And>n u. (other_step a)\<^sup>*\<^sup>* (sh_store u) (sh_store (at_yield w n u))"
    and "\<not> mx_poisoned (ms_events (sh_store s))" and "attempt_unused a (sh_store s)"
    and "run_attempt P N M w c ob instruction a s = (r, t)"
  shows "(case r of
      Inr out \<Rightarrow> attempt_kinds a (events (sh_store t)) = outcome_trace N out
    | Inl e \<Rightarrow> tail_complete Begun (attempt_kinds a (events (sh_store t)))
        \<and> last (attempt_kinds a (events (sh_store t))) \<in> error_events (code e))
    \<and> length (consumed_for a (bindings (sh_store t)) (records (sh_store t)))
      = evidence (attempt_kinds a (events (sh_store t)))"
proof -
  have world: "attempt_world w a (\<lambda>_. True)" using assms(1) by (rule world_of_others)
  have "attempt_inv (\<lambda>_. True) a [] 0 None s"
    using assms(2,3) by (simp add: attempt_inv_def at_trace_def holds_record_def attempt_unused_def)
  from attempt_world.attempt_settles [OF world this, of P N M c ob instruction] assms(4) show ?thesis
    by (cases r) (auto simp: runs_to_def attempt_world.settled_error_def [OF world] attempt_inv_def at_trace_def)
qed

theorem attempt_trace_tells_outcome_witness:
  "\<exists>t. run_attempt demo_platform demo_nexus (demo_model ''call'') demo_world demo_context demo_observation ''json'' 1
      demo_runtime = (Inr (Executed ''echo''), t)
    \<and> attempt_kinds 1 (events (sh_store t)) =
        activation_steps @ [AuthorizationConsumed, ExecutionStarted, ExecutionCompleted]"
proof -
  have ready: "demo_ready 0 demo_runtime"
    using activated_events(5) [of demo_mission "\<lambda>_. 1"]
    by (simp add: demo_ready_def demo_frame_def demo_runtime_def new_mutex_def)
  then obtain t where t: "run_attempt demo_platform demo_nexus (demo_model ''call'') demo_world demo_context
      demo_observation ''json'' 1 demo_runtime = (Inr (Executed ''echo''), t)"
    using demo_attempt [OF ready, of 1 demo_observation "''json''"]
    by (auto simp: runs_to_def split: prod.splits sum.splits)
  have "attempt_unused 1 (sh_store demo_runtime)"
    using activated_settled [of demo_mission "\<lambda>_. 1"] by (simp add: store_settled_def demo_runtime_def)
  then have "case Inr (Executed ''echo'') of
      Inr out \<Rightarrow> attempt_kinds 1 (events (sh_store t)) = outcome_trace demo_nexus out | Inl (e :: runtime_error) \<Rightarrow>
        tail_complete Begun (attempt_kinds 1 (events (sh_store t)))
        \<and> last (attempt_kinds 1 (events (sh_store t))) \<in> error_events (code e)"
    using ready by (intro attempt_trace_tells_outcome [OF _ _ _ t, THEN conjunct1]) (simp_all add: demo_ready_def demo_frame_def)
  with t show ?thesis by simp
qed

text \<open>C23: The history a runtime records is complete. After a bootstrap and any sequence of calls, with
  other calls running in the gaps of each and whatever the model and Nexus answer from call to call,
  whenever no call is in progress the check of the recorded history succeeds: the activation events are
  in place, every attempt has ended in one of the ways the check knows and every consumed authorization
  is accounted for.\<close>

theorem history_always_complete:
  assumes "bootstrap_r2 P N M gk ku lu clk mission agent spec registry cv delegable = Inr s"
    and "runtime_run P Ns s t"
  shows "runtime_verify_event_completeness t = Inr ()"
  unfolding runtime_verify_event_completeness_def
  using run_settled [OF assms(2)] bootstrapped [OF assms(1)] by (blast intro: settled_history)

lemma demo_boot_unfolded:
  "bootstrap_r2 demo_platform demo_nexus (demo_model ''call'') (\<lambda>i. Inr (demo_custody i 1)) ''u0'' ''u1'' (\<lambda>_. 1)
     demo_mission ''a1'' demo_spec demo_registry 1 (AuthoritySet []) = Inr demo_runtime"
  using demo_boot_ok [of "''call''"] by (simp add: demo_boot_def)

lemma demo_runtime_run: "runtime_run demo_platform {demo_nexus} demo_runtime (snd demo_step)"
proof -
  have "runtime_run demo_platform {demo_nexus} demo_runtime
      (run_call demo_platform demo_nexus (demo_model ''call'') demo_world CallRunOnce demo_runtime)"
    by (rule runtime_call [OF runtime_idle]) (simp_all add: runtime_idle)
  then show ?thesis by (simp add: demo_step_def)
qed

text \<open>A second call in which the model answers the same request with something else.\<close>

definition demo_later :: "string runtime" where
  "demo_later = snd (run_once demo_platform demo_nexus (demo_model ''done'') demo_world (snd demo_step))"

lemma demo_second_run: "runtime_run demo_platform {demo_nexus} (snd demo_step) demo_later"
proof -
  have "runtime_run demo_platform {demo_nexus} (snd demo_step)
      (run_call demo_platform demo_nexus (demo_model ''done'') demo_world CallRunOnce (snd demo_step))"
    by (rule runtime_call [OF runtime_idle]) (simp_all add: runtime_idle)
  then show ?thesis by (simp add: demo_later_def)
qed

lemma runtime_run_trans: "runtime_run P Ns t u \<Longrightarrow> runtime_run P Ns s t \<Longrightarrow> runtime_run P Ns s u"
  by (induction rule: runtime_run.induct) (auto intro: runtime_run.intros)

theorem history_always_complete_witness: "runtime_verify_event_completeness demo_later = Inr ()"
  by (rule history_always_complete [OF demo_boot_unfolded runtime_run_trans [OF demo_second_run demo_runtime_run]])

section \<open>Budgets\<close>

text \<open>C24: The budgets bound what the runtime can do, and the counters tell it. After a bootstrap and any
  sequence of calls, however they overlap in their gaps and whatever the model and Nexus answer, at most
  \<open>max_steps\<close> steps, which is at most 256, and at most \<open>max_actions\<close> actions have been reserved. The
  model calls, the calls of the protocol gate and of the action gate are within the reserved steps, the
  calls of the execution port and the runs of Nexus within the reserved actions. The model calls counted
  are the attempts begun and the runs of Nexus counted are the entries the log shows, so Nexus was entered
  at most \<open>max_actions\<close> times. None of these counters wraps around: over any further run each of them
  only grows.\<close>

theorem budgets_respected:
  assumes "bootstrap_r2 P N M gk ku lu clk mission agent spec registry cv delegable = Inr s"
    and "runtime_run P Ns s t" and "runtime_run P Ns t u"
  shows "rt_steps_consumed u \<le> rb_max_steps (sp_resource_budget spec) \<and> rb_max_steps (sp_resource_budget spec) \<le> 256
    \<and> rt_actions_consumed u \<le> me_max_actions mission
    \<and> mc_model_calls (sh_metrics u) \<le> rt_steps_consumed u
    \<and> mc_protocol_gate_calls (sh_metrics u) \<le> rt_steps_consumed u
    \<and> mc_action_gate_calls (sh_metrics u) \<le> rt_steps_consumed u
    \<and> mc_execution_port_calls (sh_metrics u) \<le> rt_actions_consumed u
    \<and> mc_nexus_executions (sh_metrics u) \<le> rt_actions_consumed u
    \<and> mc_model_calls (sh_metrics u) = ms_next_attempt_id (sh_store u)
    \<and> length (filter (\<lambda>ev. ev_kind ev = ExecutionStarted) (events (sh_store u))) = unat (mc_nexus_executions (sh_metrics u))
    \<and> (\<forall>c. reading c (sh_metrics t) \<le> reading c (sh_metrics u))
    \<and> rt_steps_consumed t \<le> rt_steps_consumed u \<and> rt_actions_consumed t \<le> rt_actions_consumed u"
proof -
  have "tally s (\<lambda>_. 0) t" using run_tally [OF assms(2)] bootstrapped [OF assms(1)] by simp
  then have "tally t (\<lambda>_. 0) t" by (simp add: tally_def)
  with run_tally [OF assms(3)] have u: "tally t (\<lambda>_. 0) u" by blast
  then have each: "reading c (sh_metrics u) \<le> reserved_for c u" "reserved_for c u \<le> limit_for c u"
    "reading c (sh_metrics t) \<le> reading c (sh_metrics u)" "reserved_for c t \<le> reserved_for c u" for c
    by (simp_all add: tally_def word_le_nat_alt)
  have agent: "same_agent s t" "same_agent t u"
    using run_kernel_after [OF assms(2)] run_kernel_after [OF assms(3)] by (simp_all add: kernel_after_def)
  have s: "rt_spec s = spec" "rt_mission s = mission" "good 0 s"
    using bootstrapped [OF assms(1)] by (auto intro: bootstrap_r2_ok [OF assms(1)])
  have "rb_max_steps (sp_resource_budget spec) \<le> 256" using s by (simp add: good_def MAX_AGENT_STEPS_def)
  then show ?thesis
    using each [of ModelCalls] each(1) [of ProtocolCalls] each(1) [of GateCalls] each(1) [of PortCalls]
      each [of NexusRuns] each(3) u s agent by (simp add: tally_def same_agent_def nexus_entries_def)
qed

theorem budgets_respected_witness:
  "length (filter (\<lambda>ev. ev_kind ev = ExecutionStarted) (events (sh_store demo_later)))
     = unat (mc_nexus_executions (sh_metrics demo_later))
   \<and> mc_nexus_executions (sh_metrics demo_later) \<le> me_max_actions demo_mission
   \<and> mc_model_calls (sh_metrics (snd demo_step)) \<le> mc_model_calls (sh_metrics demo_later)"
proof -
  note b = budgets_respected [OF demo_boot_unfolded demo_runtime_run demo_second_run]
  from b have "mc_nexus_executions (sh_metrics demo_later) \<le> me_max_actions demo_mission" by (meson order.trans)
  moreover from b have "reading ModelCalls (sh_metrics (snd demo_step)) \<le> reading ModelCalls (sh_metrics demo_later)" by blast
  ultimately show ?thesis using b by simp
qed

section \<open>The kernel behind a runtime\<close>

lemma bootstrap_r2_mission:
  assumes "bootstrap_r2 P N M gk ku lu clk mission agent spec registry cv delegable = Inr s"
  shows "rt_mission s = mission \<and> rt_spec s = spec \<and> as_mission (kernel_state s) = mission"
  using assms
proof (rule bootstrap_r2_ok)
  fix snap md resolver ctx d rc custody granted k
  assume k: "bootstrap P (root_request mission agent granted delegable (bootstrap_manifest spec snap ctx rc) d
       (min (me_expires_at mission) (clk 0 + seconds 300))) custody lu (clk 0) = Inr k"
    and s: "s = \<lparr>sh_registry = registry, sh_kernel = \<lparr>ak_state = k, ak_poisoned = False\<rparr>,
       sh_context = new_mutex ctx, sh_store = activated mission clk, sh_metrics = default_metrics,
       rt_mission = mission, rt_agent_id = agent, rt_spec = spec, rt_key_custody = custody,
       rt_protocol_gate = default_gate, rt_action_certificates = new_mutex [],
       rt_steps_consumed = 0, rt_actions_consumed = 0\<rparr>"
  from k have "as_mission k = mission" by (rule bootstrap_effect) (simp add: root_request_def)
  then show ?thesis by (simp add: s)
qed

text \<open>C25: Over any sequence of calls the authority kernel of a runtime stays in the states a kernel can
  reach by its own operations, for the same mission, so whatever lease the runtime works under
  grants only capabilities of the mission, expires with it at the latest and binds only its tools.\<close>

theorem runtime_stays_confined:
  assumes "bootstrap_r2 P N M gk ku lu clk mission agent spec registry cv delegable = Inr s"
    and "runtime_run P Ns s t" and "cap_trans P"
    and "map_of (as_leases (ak_state (sh_kernel t))) l = Some e"
  shows "reachable P (ak_state (sh_kernel t)) \<and> rt_mission t = mission \<and> as_mission (ak_state (sh_kernel t)) = mission
    \<and> confined P mission e"
proof -
  have after: "kernel_run P (kernel_state s) (kernel_state t)" "same_agent s t"
    using run_kernel_after [OF assms(2)] by (simp_all add: kernel_after_def)
  have boot: "reachable P (kernel_state s)" using bootstrapped [OF assms(1)] by simp
  have mission: "rt_mission s = mission" "as_mission (kernel_state s) = mission"
    using bootstrap_r2_mission [OF assms(1)] by simp_all
  have r: "reachable P (kernel_state t)" using boot after(1) by (rule reachable_run)
  have "as_mission (kernel_state t) = mission"
    using kernel_run_inv [OF after(1) reachable_inv [OF boot assms(3)] assms(3)] mission by (simp add: evolves_def)
  with r mission after(2) kernel_inv_confined [OF reachable_inv [OF r assms(3)] assms(3,4)] show ?thesis
    by (simp add: same_agent_def)
qed

lemma demo_root_kept: "\<exists>e. map_of (as_leases (kernel_state (snd demo_step))) ''lease-u1'' = Some e"
proof -
  have run: "kernel_run demo_platform demo_kernel (kernel_state (snd demo_step))"
    using run_kernel_after [OF demo_runtime_run] by (simp add: kernel_after_def demo_runtime_def)
  have "evolves demo_kernel (kernel_state (snd demo_step))"
    using kernel_run_inv [OF run bootstrap_inv [OF demo_kernel_boot] demo_cap_trans] by blast
  moreover have "map_of (as_leases demo_kernel) ''lease-u1'' = Some demo_root_entry" by simp
  ultimately show ?thesis unfolding evolves_def by blast
qed

theorem runtime_stays_confined_witness:
  "\<exists>e. map_of (as_leases (ak_state (sh_kernel (snd demo_step)))) ''lease-u1'' = Some e \<and> confined demo_platform demo_mission e"
  using runtime_stays_confined [OF demo_boot_unfolded demo_runtime_run demo_cap_trans] demo_root_kept by blast

end
